(* ===== verification/Vmkit_Prelude.thy ===== *)
theory Vmkit_Prelude
  imports Main "HOL-Library.Word" "HOL-Library.Monad_Syntax"
begin

text \<open>
  Shared vocabulary of the development: machine words and addresses of a 64-bit target,
  the outcome type for code that can panic, the third-party functions the sources call
  (as a record of parameters with the laws their documentation states), the vector
  operations the sources use and the generic lemmas on words and lists.

  The target has 64-bit words, and arithmetic wraps, as in the release profile. An \<open>assert!\<close>, an
  \<open>unwrap()\<close>, an index out of range, \<open>panic!\<close> and \<open>unreachable!\<close> are panics: the outcome
  \<^const>\<open>None\<close>. So are the debug assertions about the offset of a field, about the bounds of a
  stack and about the reference of a moved object, which the release profile leaves out; the other
  debug assertions are not modelled.
\<close>

unbundle bit_operations_syntax

named_theorems vk_word \<open>arithmetic of addresses and alignment\<close>
named_theorems vk_defs \<open>definitions that unfold when a component is evaluated\<close>

section \<open>Words and addresses\<close>

type_synonym usize = "64 word"
type_synonym isize = "64 word"
type_synonym u32 = "32 word"
type_synonym u8 = "8 word"
type_synonym i32 = "32 word"
type_synonym address = usize

abbreviation ADDRESS_ZERO :: address where
  "ADDRESS_ZERO \<equiv> 0"

abbreviation BYTES_IN_WORD :: usize where
  "BYTES_IN_WORD \<equiv> 8"

text \<open>\<^term>\<open>aligned k a\<close>: the address \<^term>\<open>a\<close> is a multiple of \<^term>\<open>2 ^ k\<close> bytes.\<close>

definition aligned :: "nat \<Rightarrow> address \<Rightarrow> bool" where
  "aligned k a \<longleftrightarrow> take_bit k a = 0"

lemma aligned_0_bits [simp]: "aligned 0 a"
  by (simp add: aligned_def)

lemma aligned_zero [simp]: "aligned k 0"
  by (simp add: aligned_def)

lemma and_exp_minus_1 [vk_word]: "x AND (2 ^ k - 1) = take_bit k (x :: 'a::len word)"
  by (simp add: take_bit_eq_mask mask_eq_exp_minus_1)

lemma unat_take_bit [vk_word]: "unat (take_bit k (x :: 'a::len word)) = unat x mod 2 ^ k"
  unfolding unsigned_take_bit_eq by (simp add: take_bit_eq_mod)

lemma aligned_iff_dvd: "aligned k a \<longleftrightarrow> 2 ^ k dvd unat a"
proof -
  have "take_bit k a = 0 \<longleftrightarrow> unat (take_bit k a) = 0"
    by (simp add: unsigned_eq_0_iff)
  then show ?thesis
    by (simp add: aligned_def unat_take_bit dvd_eq_mod_eq_0)
qed

lemma unat_add_mod:
  assumes "k \<le> 64"
  shows "unat (x + y :: usize) mod 2 ^ k = (unat x + unat y) mod 2 ^ k"
proof -
  have "(2 :: nat) ^ k dvd 2 ^ 64"
    using assms by (rule le_imp_power_dvd)
  then have "(unat x + unat y) mod 2 ^ 64 mod 2 ^ k = (unat x + unat y) mod 2 ^ k"
    by (rule mod_mod_cancel)
  then show ?thesis by (simp add: unat_word_ariths)
qed

lemma take_bit_add_take_bit:
  assumes "k \<le> 64"
  shows "take_bit k (x + take_bit k y) = take_bit k (x + (y :: usize))"
proof -
  have "unat (take_bit k (x + take_bit k y)) = unat (take_bit k (x + y))"
    using assms by (simp only: unat_take_bit unat_add_mod mod_add_right_eq)
  then show ?thesis by (simp only: word_unat_eq_iff)
qed

lemma unat_exp [vk_word]: "k < 64 \<Longrightarrow> unat (2 ^ k :: usize) = 2 ^ k"
  by (transfer, simp)

lemma unat_add_no_overflow [vk_word]:
  "unat x + unat y < 2 ^ 64 \<Longrightarrow> unat (x + y :: usize) = unat x + unat y"
  by (simp add: unat_word_ariths)

lemma unat_word_of_nat [vk_word]: "i < 2 ^ 64 \<Longrightarrow> unat (word_of_nat i :: usize) = i"
  by (simp add: unsigned_of_nat take_bit_nat_eq_self)

lemma unat_less_2_64 [simp]: "unat (x :: usize) < 2 ^ 64"
  using unsigned_less [of x] by simp

section \<open>Third-party functions\<close>

text \<open>
  Functions of the crates \<open>easy-bitfield\<close> and \<open>mmtk\<close> that the sources call on machine
  words. They are not under src/, so they are fields of a record every definition that
  needs them takes as an argument. A bit field is described by its shift and its size,
  as in the type \<open>BitField<usize, T, SHIFT, SIZE, false>\<close>.
\<close>

record ext_lib =
  bf_encode :: "nat \<Rightarrow> nat \<Rightarrow> usize \<Rightarrow> usize"
  bf_decode :: "nat \<Rightarrow> nat \<Rightarrow> usize \<Rightarrow> usize"
  bf_update :: "nat \<Rightarrow> nat \<Rightarrow> usize \<Rightarrow> usize \<Rightarrow> usize"
  raw_align_up :: "usize \<Rightarrow> usize \<Rightarrow> usize"
  raw_align_down :: "usize \<Rightarrow> usize \<Rightarrow> usize"
  LOG_BYTES_IN_ADDRESS :: nat

text \<open>The documented behaviour of these functions, on the inputs the documentation covers.\<close>

definition bitfield_law :: "ext_lib \<Rightarrow> bool" where
  "bitfield_law L \<longleftrightarrow>
     (\<forall>sh sz s. sh + sz \<le> 64 \<longrightarrow> bf_decode L sh sz s = take_bit sz (drop_bit sh s)) \<and>
     (\<forall>sh sz v. sh + sz \<le> 64 \<longrightarrow> unat v < 2 ^ sz \<longrightarrow> bf_encode L sh sz v = push_bit sh v) \<and>
     (\<forall>sh sz v s. sh + sz \<le> 64 \<longrightarrow> unat v < 2 ^ sz \<longrightarrow>
        bf_update L sh sz v s = (s AND NOT (push_bit sh (mask sz))) OR push_bit sh v)"

definition align_law :: "ext_lib \<Rightarrow> bool" where
  "align_law L \<longleftrightarrow>
     (\<forall>k v. k < 64 \<longrightarrow> unat v + 2 ^ k \<le> 2 ^ 64 \<longrightarrow>
        aligned k (raw_align_up L v (2 ^ k)) \<and>
        unat v \<le> unat (raw_align_up L v (2 ^ k)) \<and>
        unat (raw_align_up L v (2 ^ k)) < unat v + 2 ^ k) \<and>
     (\<forall>k v. k < 64 \<longrightarrow> aligned k (raw_align_down L v (2 ^ k)) \<and>
        unat (raw_align_down L v (2 ^ k)) \<le> unat v \<and>
        unat v < unat (raw_align_down L v (2 ^ k)) + 2 ^ k)"

definition lib_ok :: "ext_lib \<Rightarrow> bool" where
  "lib_ok L \<longleftrightarrow> bitfield_law L \<and> align_law L \<and> LOG_BYTES_IN_ADDRESS L = 3"

lemma lib_ok_log [simp]: "lib_ok L \<Longrightarrow> LOG_BYTES_IN_ADDRESS L = 3"
  by (simp add: lib_ok_def)

lemma bf_decode_eq:
  "lib_ok L \<Longrightarrow> sh + sz \<le> 64 \<Longrightarrow> bf_decode L sh sz s = take_bit sz (drop_bit sh s)"
  by (simp add: lib_ok_def bitfield_law_def)

lemma bf_encode_eq:
  "lib_ok L \<Longrightarrow> sh + sz \<le> 64 \<Longrightarrow> unat v < 2 ^ sz \<Longrightarrow> bf_encode L sh sz v = push_bit sh v"
  by (simp add: lib_ok_def bitfield_law_def)

lemma bf_update_eq:
  "lib_ok L \<Longrightarrow> sh + sz \<le> 64 \<Longrightarrow> unat v < 2 ^ sz \<Longrightarrow>
     bf_update L sh sz v s = (s AND NOT (push_bit sh (mask sz))) OR push_bit sh v"
  by (simp add: lib_ok_def bitfield_law_def)

lemma raw_align_up_bounds:
  assumes "lib_ok L" and "k < 64" and "unat v + 2 ^ k \<le> 2 ^ 64"
  shows "aligned k (raw_align_up L v (2 ^ k))"
    and "unat v \<le> unat (raw_align_up L v (2 ^ k))"
    and "unat (raw_align_up L v (2 ^ k)) < unat v + 2 ^ k"
  using assms by (auto simp: lib_ok_def align_law_def)

lemma raw_align_down_bounds:
  assumes "lib_ok L" and "k < 64"
  shows "aligned k (raw_align_down L v (2 ^ k))"
    and "unat (raw_align_down L v (2 ^ k)) \<le> unat v"
    and "unat v < unat (raw_align_down L v (2 ^ k)) + 2 ^ k"
  using assms by (auto simp: lib_ok_def align_law_def)

text \<open>A concrete instance, for the witnesses: the usual mask arithmetic.\<close>

definition std_lib :: ext_lib where
  "std_lib = \<lparr>
     bf_encode = (\<lambda>sh sz v. push_bit sh (take_bit sz v)),
     bf_decode = (\<lambda>sh sz s. take_bit sz (drop_bit sh s)),
     bf_update = (\<lambda>sh sz v s. (s AND NOT (push_bit sh (mask sz))) OR push_bit sh (take_bit sz v)),
     raw_align_up = (\<lambda>v a. (v + a - 1) AND NOT (a - 1)),
     raw_align_down = (\<lambda>v a. v AND NOT (a - 1)),
     LOG_BYTES_IN_ADDRESS = 3 \<rparr>"

lemma take_bit_small: "unat (v :: usize) < 2 ^ n \<Longrightarrow> take_bit n v = v"
  by (metis mod_less unat_take_bit word_unat_eq_iff)

lemma and_not_minus: "v AND NOT m = v - (v AND m)" for v m :: usize
proof -
  have "(v AND NOT m) + (v AND m) = (v AND NOT m) OR (v AND m)"
    by (rule disjunctive_add_eq_or) (auto simp: bit_eq_iff bit_simps)
  also have "\<dots> = v"
    by (auto simp: bit_eq_iff bit_simps)
  finally show ?thesis
    by (simp add: algebra_simps)
qed

lemma and_not_low: "v AND NOT (2 ^ k - 1) = v - take_bit k v" for v :: usize
  by (simp add: and_not_minus and_exp_minus_1)

lemma unat_minus_take_bit: "unat (v - take_bit k v :: usize) = unat v - unat v mod 2 ^ k"
proof -
  have "take_bit k v \<le> v"
    by (simp add: word_le_nat_alt unat_take_bit)
  then show ?thesis
    by (simp add: unat_sub unat_take_bit)
qed

lemma mod_round_up:
  fixes v n :: nat
  assumes "0 < n"
  shows "v \<le> (v + (n - 1)) - (v + (n - 1)) mod n" and "(v + (n - 1)) - (v + (n - 1)) mod n < v + n"
proof -
  have "(v + (n - 1)) mod n < n" using assms by simp
  then show "v \<le> (v + (n - 1)) - (v + (n - 1)) mod n" by linarith
  show "(v + (n - 1)) - (v + (n - 1)) mod n < v + n" using assms by linarith
qed

lemma std_align_up:
  fixes v :: usize
  assumes "k < 64" and "unat v + 2 ^ k \<le> 2 ^ 64"
  shows "aligned k ((v + 2 ^ k - 1) AND NOT (2 ^ k - 1))"
    and "unat v \<le> unat ((v + 2 ^ k - 1) AND NOT (2 ^ k - 1))"
    and "unat ((v + 2 ^ k - 1) AND NOT (2 ^ k - 1)) < unat v + 2 ^ k"
proof -
  let ?n = "unat v + (2 ^ k - 1)"
  have "unat (2 ^ k - 1 :: usize) = 2 ^ k - 1"
    using \<open>k < 64\<close> by (simp add: unat_minus_one unat_exp word_2p_lem)
  moreover have "unat v + (2 ^ k - 1) < 2 ^ 64"
    using assms(2) one_le_power [of "2 :: nat" k] by linarith
  ultimately have s: "unat (v + (2 ^ k - 1)) = ?n"
    by (simp add: unat_add_no_overflow)
  have e: "unat ((v + 2 ^ k - 1) AND NOT (2 ^ k - 1)) = ?n - ?n mod 2 ^ k"
    using unat_minus_take_bit [of "v + (2 ^ k - 1)" k] unfolding s by (simp add: and_not_low add_diff_eq)
  show "aligned k ((v + 2 ^ k - 1) AND NOT (2 ^ k - 1))"
    unfolding aligned_iff_dvd e by (rule dvd_minus_mod)
  show "unat v \<le> unat ((v + 2 ^ k - 1) AND NOT (2 ^ k - 1))"
    unfolding e by (rule mod_round_up(1)) simp
  show "unat ((v + 2 ^ k - 1) AND NOT (2 ^ k - 1)) < unat v + 2 ^ k"
    unfolding e by (rule mod_round_up(2)) simp
qed

lemma std_align_down:
  fixes v :: usize
  shows "aligned k (v AND NOT (2 ^ k - 1))"
    and "unat (v AND NOT (2 ^ k - 1)) \<le> unat v"
    and "unat v < unat (v AND NOT (2 ^ k - 1)) + 2 ^ k"
proof -
  have e: "unat (v AND NOT (2 ^ k - 1)) = unat v - unat v mod 2 ^ k"
    by (simp add: and_not_low unat_minus_take_bit)
  have "unat v mod 2 ^ k < 2 ^ k" by simp
  then show "unat v < unat (v AND NOT (2 ^ k - 1)) + 2 ^ k"
    unfolding e by linarith
  show "aligned k (v AND NOT (2 ^ k - 1))"
    unfolding aligned_iff_dvd e by (rule dvd_minus_mod)
  show "unat (v AND NOT (2 ^ k - 1)) \<le> unat v"
    unfolding e by simp
qed

lemma lib_ok_std_lib: "lib_ok std_lib"
  by (simp add: lib_ok_def bitfield_law_def align_law_def std_lib_def take_bit_small
      std_align_up std_align_down)

section \<open>Bit fields of one word\<close>

text \<open>Two fields of one storage word that share no bit do not disturb each other.\<close>

lemma field_bit_bound: "unat (v :: usize) < 2 ^ sz \<Longrightarrow> bit v n \<Longrightarrow> n < sz"
  by (metis bit_take_bit_iff take_bit_small)

lemma decode_update_same:
  assumes "lib_ok L" and "sh + sz \<le> 64" and "unat v < 2 ^ sz"
  shows "bf_decode L sh sz (bf_update L sh sz v s) = v"
  using assms
  by (auto simp: bf_decode_eq bf_update_eq bit_eq_iff bit_simps dest: field_bit_bound)

lemma decode_update_other:
  assumes "lib_ok L" and "sh + sz \<le> 64" and "sh' + sz' \<le> 64" and "unat v < 2 ^ sz"
    and "sh' + sz' \<le> sh \<or> sh + sz \<le> sh'"
  shows "bf_decode L sh' sz' (bf_update L sh sz v s) = bf_decode L sh' sz' s"
  using assms
  by (auto simp: bf_decode_eq bf_update_eq bit_eq_iff bit_simps dest: field_bit_bound)

lemma decode_encode_same:
  assumes "lib_ok L" and "sh + sz \<le> 64" and "unat v < 2 ^ sz"
  shows "bf_decode L sh sz (bf_encode L sh sz v) = v"
  using assms
  by (auto simp: bf_decode_eq bf_encode_eq bit_eq_iff bit_simps dest: field_bit_bound)

lemma decode_encode_other:
  assumes "lib_ok L" and "sh + sz \<le> 64" and "sh' + sz' \<le> 64" and "unat v < 2 ^ sz"
    and "sh' + sz' \<le> sh \<or> sh + sz \<le> sh'"
  shows "bf_decode L sh' sz' (bf_encode L sh sz v) = 0"
  using assms
  by (auto simp: bf_decode_eq bf_encode_eq bit_eq_iff bit_simps dest: field_bit_bound)

lemma decode_or:
  "lib_ok L \<Longrightarrow> sh + sz \<le> 64 \<Longrightarrow>
     bf_decode L sh sz (a OR b) = bf_decode L sh sz a OR bf_decode L sh sz b"
  by (auto simp: bf_decode_eq bit_eq_iff bit_simps)

lemma decode_bound: "lib_ok L \<Longrightarrow> sh + sz \<le> 64 \<Longrightarrow> unat (bf_decode L sh sz s) < 2 ^ sz"
  by (simp add: bf_decode_eq unat_take_bit)

section \<open>Signed offsets\<close>

lemma sint_small: "unat x < 2 ^ 63 \<Longrightarrow> sint x = int (unat x)" for x :: usize
proof -
  assume "unat x < 2 ^ 63"
  then have "int (unat x) < int (2 ^ 63)" by (rule iffD2 [OF of_nat_less_iff])
  then have "uint x < 2 ^ 63" unfolding uint_nat by simp
  then have "signed_take_bit 63 (uint x) = uint x"
    using uint_ge_0 [of x] by (intro signed_take_bit_int_eq_self) linarith+
  then have "sint x = uint x" unfolding sint_uint by simp
  then show ?thesis unfolding uint_nat .
qed

lemma sint_large: "2 ^ 63 \<le> unat x \<Longrightarrow> sint x < 0" for x :: usize
proof -
  assume "2 ^ 63 \<le> unat x"
  then have "int (2 ^ 63) \<le> int (unat x)" by (rule iffD2 [OF of_nat_le_iff])
  then have l: "2 ^ 63 \<le> uint x" unfolding uint_nat by simp
  have u: "uint x < 2 ^ 64" using uint_lt2p [of x] by simp
  have "uint x div 2 ^ 63 = 1" using l u by (intro int_div_pos_eq [where r = "uint x - 2 ^ 63"]) auto
  then have "bit (uint x) 63" by (simp only: bit_iff_odd) simp
  then have "signed_take_bit 63 (uint x) < 0" by (simp add: signed_take_bit_negative_iff)
  then show ?thesis by (simp add: sint_uint)
qed

lemma sint_nonneg_iff: "0 \<le> sint x \<longleftrightarrow> unat x < 2 ^ 63" for x :: usize
  using sint_small [of x] sint_large [of x] by linarith

lemma unat_uminus: "x \<noteq> 0 \<Longrightarrow> unat (- x) = 2 ^ 64 - unat x" for x :: usize
proof -
  assume "x \<noteq> 0"
  then have p: "0 < unat x" by (simp add: unat_gt_0)
  have "(unat x + unat (- x)) mod 2 ^ 64 = unat (x + - x) mod 2 ^ 64"
    by (rule unat_add_mod [OF order_refl, symmetric])
  then have "(2 :: nat) ^ 64 dvd unat x + unat (- x)" by (simp add: dvd_eq_mod_eq_0)
  then obtain q where q: "unat x + unat (- x) = 2 ^ 64 * q" by (rule dvdE)
  have "2 ^ 64 * q < 2 ^ 64 * 2"
    using unat_less_2_64 [of x] unat_less_2_64 [of "- x"] unfolding q [symmetric] by linarith
  then have "q < 2" by simp
  moreover have "q \<noteq> 0" using q p by (cases q) auto
  ultimately have "q = 1" by linarith
  then show ?thesis using q by simp
qed

section \<open>Numbers as text\<close>

text \<open>The decimal digits \<open>{}\<close> prints; different numbers are printed differently.\<close>

definition digit :: "nat \<Rightarrow> char" where
  "digit n = char_of (48 + n)"

fun show_nat :: "nat \<Rightarrow> string" where
  "show_nat n = (if n < 10 then [digit n] else show_nat (n div 10) @ [digit (n mod 10)])"

declare show_nat.simps [simp del]

lemma digit_inj: "d < 10 \<Longrightarrow> e < 10 \<Longrightarrow> digit d = digit e \<longleftrightarrow> d = e"
  using take_bit_nat_eq_self [of "48 + d" 8] by (auto simp: digit_def char_of_eq_iff)

lemma show_nat_not_Nil [simp]: "show_nat n \<noteq> []" "[] \<noteq> show_nat n"
  by (subst show_nat.simps, simp)+

lemma show_nat_inj: "show_nat m = show_nat n \<longleftrightarrow> m = n"
proof (induction m arbitrary: n rule: show_nat.induct)
  case (1 m)
  show ?case
  proof (cases "m < 10")
    case True
    then show ?thesis by (cases "n < 10") (simp_all add: show_nat.simps [of m] show_nat.simps [of n] digit_inj)
  next
    case False
    then show ?thesis
    proof (cases "n < 10")
      case True
      then show ?thesis using False by (simp add: show_nat.simps [of m] show_nat.simps [of n])
    next
      case n: False
      have "show_nat m = show_nat n \<longleftrightarrow> show_nat (m div 10) = show_nat (n div 10) \<and> digit (m mod 10) = digit (n mod 10)"
        using False n by (subst (1 2) show_nat.simps) simp
      also have "\<dots> \<longleftrightarrow> m div 10 = n div 10 \<and> m mod 10 = n mod 10"
        unfolding 1 [OF False] by (simp add: digit_inj)
      also have "\<dots> \<longleftrightarrow> m = n" by (metis div_mult_mod_eq)
      finally show ?thesis .
    qed
  qed
qed

end
