(* ===== verification/Vmkit_Monitor.thy ===== *)
theory Vmkit_Monitor
  imports Vmkit_Prelude
begin

text \<open>
  \<open>sync/monitor.rs\<close> and \<open>sync/semaphore.rs\<close>: the reentrant lock with a condition variable that
  all thread handling is built on. \<open>Mutex\<close> and \<open>Condvar\<close> are the primitives of \<open>parking_lot\<close>:
  a mutex is free or held by one thread, a condition variable is the queue of the threads
  parked on it, and a thread that waits gives the mutex up and needs both a notification and
  the mutex to go on. A thread is named by its non-zero slot, as in \<open>get_thread_id\<close>.

  An operation that may have to wait for the mutex returns \<^const>\<open>None\<close> while it has to: the
  caller cannot take this step yet.
\<close>

type_synonym slot = usize

record monitor =
  mutex :: "slot option"
  rec_count :: usize
  holder :: slot
  cvar :: "slot list"

definition mon_new :: monitor where
  "mon_new = \<lparr> mutex = None, rec_count = 0, holder = 0, cvar = [] \<rparr>"

definition mutex_lock :: "slot \<Rightarrow> monitor \<Rightarrow> monitor option" where
  "mutex_lock me M = (if mutex M = None then Some (M \<lparr> mutex := Some me \<rparr>) else None)"

definition lock_no_handshake :: "slot \<Rightarrow> monitor \<Rightarrow> monitor option" where
  "lock_no_handshake me M = do {
     M \<leftarrow> (if holder M \<noteq> me
           then map_option (\<lambda>M. M \<lparr> holder := me \<rparr>) (mutex_lock me M)
           else Some M);
     Some (M \<lparr> rec_count := rec_count M + 1 \<rparr>)
   }"

definition guard_drop :: "monitor \<Rightarrow> monitor" where
  "guard_drop M =
     (let old = rec_count M; M = M \<lparr> rec_count := old - 1 \<rparr>
      in if old = 1 then M \<lparr> holder := 0, mutex := None \<rparr> else M)"

definition mon_notify :: "monitor \<Rightarrow> monitor" where
  "mon_notify M = M \<lparr> cvar := tl (cvar M) \<rparr>"

definition mon_notify_all :: "monitor \<Rightarrow> monitor" where
  "mon_notify_all M = M \<lparr> cvar := [] \<rparr>"

text \<open>
  \<open>wait_no_handshake\<close> in two steps: up to parking, with the saved count and holder, and from
  being woken on. The wait with a timeout may also go on without a notification.
\<close>

definition wait_begin :: "slot \<Rightarrow> monitor \<Rightarrow> (usize \<times> slot) \<times> monitor" where
  "wait_begin me M =
     ((rec_count M, holder M), M \<lparr> rec_count := 0, holder := 0, mutex := None, cvar := cvar M @ [me] \<rparr>)"

definition wait_end :: "slot \<Rightarrow> usize \<times> slot \<Rightarrow> monitor \<Rightarrow> monitor option" where
  "wait_end me saved M =
     (if me \<in> set (cvar M) then None
      else map_option (\<lambda>M. M \<lparr> rec_count := fst saved, holder := snd saved \<rparr>) (mutex_lock me M))"

definition wait_for_end :: "slot \<Rightarrow> bool \<Rightarrow> usize \<times> slot \<Rightarrow> monitor \<Rightarrow> (bool \<times> monitor) option" where
  "wait_for_end me timeout saved M =
     (if me \<in> set (cvar M) \<and> \<not> timeout then None
      else map_option (\<lambda>M'. (me \<in> set (cvar M),
             M' \<lparr> cvar := removeAll me (cvar M'), rec_count := fst saved, holder := snd saved \<rparr>))
           (mutex_lock me M))"

definition unlock_completely :: "monitor \<Rightarrow> usize \<times> monitor" where
  "unlock_completely M = (rec_count M, M \<lparr> rec_count := 0, holder := 0, mutex := None \<rparr>)"

definition relock_no_handshake :: "slot \<Rightarrow> usize \<Rightarrow> monitor \<Rightarrow> monitor option" where
  "relock_no_handshake me count M =
     map_option (\<lambda>M. M \<lparr> holder := me, rec_count := count \<rparr>) (mutex_lock me M)"

text \<open>
  \<open>unlocked_no_handshake\<close>: the action runs with the monitor released; the relock at the end
  is the one of \<open>relock_no_handshake\<close>, with the count saved at the start.
\<close>

definition unlocked_no_handshake :: "slot \<Rightarrow> (monitor \<Rightarrow> 'r \<times> monitor) \<Rightarrow> monitor \<Rightarrow> ('r \<times> monitor) option" where
  "unlocked_no_handshake me action M = do {
     let (count, M) = unlock_completely M;
     let (result, M) = action M;
     M \<leftarrow> relock_no_handshake me count M;
     Some (result, M)
   }"

lemmas mon_defs = mutex_lock_def lock_no_handshake_def guard_drop_def mon_notify_def mon_notify_all_def
  wait_begin_def wait_end_def wait_for_end_def unlock_completely_def relock_no_handshake_def

section \<open>Semaphore\<close>

text \<open>
  The POSIX semaphore: \<open>sem_wait\<close> waits while the count is zero, \<open>sem_post\<close> fails, and
  \<open>post\<close> then panics, when the count is at its maximum, which is a constant of the platform.
\<close>

record semaphore =
  sem_value :: nat

datatype 'a outcome = Proceeds 'a | MustWait | Panics

definition sem_new :: "usize \<Rightarrow> semaphore" where
  "sem_new initial_value = \<lparr> sem_value = unat (ucast initial_value :: u32) \<rparr>"

definition sem_wait :: "semaphore \<Rightarrow> semaphore outcome" where
  "sem_wait S = (if sem_value S = 0 then MustWait else Proceeds (S \<lparr> sem_value := sem_value S - 1 \<rparr>))"

definition sem_post :: "nat \<Rightarrow> semaphore \<Rightarrow> semaphore outcome" where
  "sem_post SEM_VALUE_MAX S =
     (if sem_value S < SEM_VALUE_MAX then Proceeds (S \<lparr> sem_value := sem_value S + 1 \<rparr>) else Panics)"

section \<open>The contract of a reentrant lock\<close>

text \<open>
  What a client relies on: \<^term>\<open>depth t M\<close> is how many guards the thread \<^term>\<open>t\<close> has on a
  lock in state \<^term>\<open>M\<close>, and at most one thread has any.
\<close>

locale reentrant_lock =
  fixes lock :: "'t \<Rightarrow> 'm \<Rightarrow> 'm option"
    and release :: "'m \<Rightarrow> 'm"
    and depth :: "'t \<Rightarrow> 'm \<Rightarrow> nat"
    and ok :: "'m \<Rightarrow> bool"
    and thread :: "'t \<Rightarrow> bool"
    and limit :: nat
  assumes exclusive: "ok M \<Longrightarrow> thread t \<Longrightarrow> thread u \<Longrightarrow> depth t M > 0 \<Longrightarrow> depth u M > 0 \<Longrightarrow> t = u"
    and lock_ok: "ok M \<Longrightarrow> thread t \<Longrightarrow> depth t M < limit \<Longrightarrow> lock t M = Some M' \<Longrightarrow>
      ok M' \<and> depth t M' = Suc (depth t M) \<and> (\<forall>u. thread u \<longrightarrow> u \<noteq> t \<longrightarrow> depth u M' = depth u M)"
    and lock_None: "ok M \<Longrightarrow> thread t \<Longrightarrow>
      lock t M = None \<longleftrightarrow> (\<exists>u. thread u \<and> u \<noteq> t \<and> depth u M > 0)"
    and release_ok: "ok M \<Longrightarrow> thread t \<Longrightarrow> depth t M > 0 \<Longrightarrow>
      ok (release M) \<and> depth t (release M) = depth t M - 1 \<and>
      (\<forall>u. thread u \<longrightarrow> u \<noteq> t \<longrightarrow> depth u (release M) = depth u M)"
begin

text \<open>A thread that can lock once can lock again, as often as it likes.\<close>

lemma lock_again:
  assumes "ok M" and "thread t" and "depth t M < limit" and "lock t M = Some M'"
  shows "lock t M' \<noteq> None"
proof -
  have m: "ok M'" "depth t M' > 0" using lock_ok [OF assms] by simp_all
  then show ?thesis using lock_None [OF m(1) assms(2)] exclusive [OF m(1) assms(2)] by auto
qed

text \<open>\<open>n\<close> releases undo \<open>n\<close> locks, and only then can another thread get the lock.\<close>

lemma releases:
  assumes "ok M" and "thread t" and "depth t M = n"
  shows "ok ((release ^^ n) M) \<and> depth t ((release ^^ n) M) = 0 \<and>
    (\<forall>u. thread u \<longrightarrow> u \<noteq> t \<longrightarrow> depth u ((release ^^ n) M) = depth u M)"
  using assms
proof (induction n arbitrary: M)
  case 0
  then show ?case by simp
next
  case (Suc n)
  have "ok (release M) \<and> depth t (release M) = n \<and>
      (\<forall>u. thread u \<longrightarrow> u \<noteq> t \<longrightarrow> depth u (release M) = depth u M)"
    using release_ok [of M t] Suc.prems by simp
  then have "ok ((release ^^ n) (release M)) \<and> depth t ((release ^^ n) (release M)) = 0 \<and>
      (\<forall>u. thread u \<longrightarrow> u \<noteq> t \<longrightarrow> depth u ((release ^^ n) (release M)) = depth u M)"
    using Suc.IH [of "release M"] Suc.prems(2) by simp
  then show ?case by (simp add: funpow_swap1)
qed

lemma free_after_releases:
  assumes "ok M" and "thread t" and "depth t M > 0" and "thread u"
  shows "lock u ((release ^^ depth t M) M) \<noteq> None"
proof -
  have r: "ok ((release ^^ depth t M) M)" "depth t ((release ^^ depth t M) M) = 0"
    "\<forall>v. thread v \<longrightarrow> v \<noteq> t \<longrightarrow> depth v ((release ^^ depth t M) M) = depth v M"
    using releases [OF assms(1,2) refl] by simp_all
  have "depth v M = 0" if "thread v" "v \<noteq> t" for v
    using exclusive [OF assms(1,2) that(1) assms(3)] that(2) by fastforce
  then have "\<not> (\<exists>v. thread v \<and> v \<noteq> u \<and> depth v ((release ^^ depth t M) M) > 0)"
    using r by (metis less_irrefl)
  then show ?thesis using lock_None [OF r(1) assms(4)] by simp
qed

end

text \<open>The states a monitor is in when every guard is dropped once: free, or held and counted.\<close>

definition mon_ok :: "monitor \<Rightarrow> bool" where
  "mon_ok M \<longleftrightarrow> (case mutex M of
     None \<Rightarrow> holder M = 0 \<and> rec_count M = 0
   | Some t \<Rightarrow> t \<noteq> 0 \<and> holder M = t \<and> rec_count M \<noteq> 0)"

definition mon_depth :: "slot \<Rightarrow> monitor \<Rightarrow> nat" where
  "mon_depth t M = (if mutex M = Some t then unat (rec_count M) else 0)"

lemma mon_ok_simps:
  "mutex M = None \<Longrightarrow> mon_ok M \<longleftrightarrow> holder M = 0 \<and> rec_count M = 0"
  "mutex M = Some t \<Longrightarrow> mon_ok M \<longleftrightarrow> t \<noteq> 0 \<and> holder M = t \<and> rec_count M \<noteq> 0"
  by (simp_all add: mon_ok_def)

lemma unat_gt_0_word: "unat (x :: usize) > 0 \<longleftrightarrow> x \<noteq> 0"
  by (simp add: unsigned_eq_0_iff zero_less_iff_neq_zero)

lemma unat_plus_one: "unat (x :: usize) < 2 ^ 64 - 1 \<Longrightarrow> unat (x + 1) = unat x + 1"
  using unat_add_no_overflow [of x 1] by simp

lemma unat_minus_one_usize: "x \<noteq> 0 \<Longrightarrow> unat (x - 1 :: usize) = unat x - 1"
  by (rule unat_minus_one)

lemma plus_one_not_0: "unat (x :: usize) < 2 ^ 64 - 1 \<Longrightarrow> x + 1 \<noteq> 0"
  using unat_plus_one [of x] by (metis add_is_0 one_neq_zero unat_0)

lemma mon_lock_ok:
  assumes "mon_ok M" and "t \<noteq> 0" and "mon_depth t M < 2 ^ 64 - 1" and "lock_no_handshake t M = Some M'"
  shows "mon_ok M' \<and> mon_depth t M' = Suc (mon_depth t M) \<and>
    (\<forall>u. u \<noteq> 0 \<longrightarrow> u \<noteq> t \<longrightarrow> mon_depth u M' = mon_depth u M)"
proof (cases "mutex M")
  case None
  then show ?thesis using assms by (auto simp: mon_ok_def mon_depth_def lock_no_handshake_def mutex_lock_def)
next
  case (Some s)
  then have s: "s = t" "holder M = t" "rec_count M \<noteq> 0" "unat (rec_count M) < 2 ^ 64 - 1"
    using assms by (auto simp: mon_ok_def mon_depth_def lock_no_handshake_def mutex_lock_def split: if_splits)
  then have "M' = M \<lparr> rec_count := rec_count M + 1 \<rparr>"
    using assms(4) by (simp add: lock_no_handshake_def)
  then show ?thesis
    using s Some assms(2) unat_plus_one [OF s(4)] plus_one_not_0 [OF s(4)] by (simp add: mon_ok_def mon_depth_def)
qed

lemma mon_lock_None:
  assumes "mon_ok M" and "t \<noteq> 0"
  shows "lock_no_handshake t M = None \<longleftrightarrow> (\<exists>u. u \<noteq> 0 \<and> u \<noteq> t \<and> mon_depth u M > 0)"
  using assms
  by (cases "mutex M") (auto simp: mon_ok_def mon_depth_def lock_no_handshake_def mutex_lock_def unat_gt_0_word)

lemma mon_release_ok:
  assumes "mon_ok M" and "t \<noteq> 0" and "mon_depth t M > 0"
  shows "mon_ok (guard_drop M) \<and> mon_depth t (guard_drop M) = mon_depth t M - 1 \<and>
    (\<forall>u. u \<noteq> 0 \<longrightarrow> u \<noteq> t \<longrightarrow> mon_depth u (guard_drop M) = mon_depth u M)"
proof -
  have m: "mutex M = Some t" "holder M = t" "rec_count M \<noteq> 0"
    using assms by (auto simp: mon_ok_def mon_depth_def split: if_splits option.splits)
  show ?thesis
    using m assms(2) by (simp add: mon_ok_def mon_depth_def guard_drop_def Let_def unat_minus_one_usize)
qed

interpretation mon: reentrant_lock lock_no_handshake guard_drop mon_depth mon_ok "\<lambda>t. t \<noteq> 0" "2 ^ 64 - 1"
proof (unfold_locales, goal_cases)
  case (1 M t u)
  then show ?case by (auto simp: mon_depth_def split: if_splits)
next
  case (2 M t M')
  then show ?case using mon_lock_ok by blast
next
  case (3 M t)
  then show ?case by (rule mon_lock_None)
next
  case (4 M t)
  then show ?case by (rule mon_release_ok)
qed

section \<open>Interleavings\<close>

text \<open>
  Any interleaving of the operations of any number of threads. Besides the monitor the state
  counts, per thread, the guards it has in scope, and keeps what a waiting thread saved. The
  thread that runs an operation is not waiting; a guard is dropped only by a thread that has
  one. The depth of recursion is bounded by the counter's width.
\<close>

record mon_system =
  mon :: monitor
  guards :: "slot \<Rightarrow> nat"
  saved :: "slot \<Rightarrow> (usize \<times> slot) option"

inductive mon_step :: "mon_system \<Rightarrow> mon_system \<Rightarrow> bool" where
  step_lock: "t \<noteq> 0 \<Longrightarrow> saved S t = None \<Longrightarrow> guards S t < 2 ^ 64 - 1 \<Longrightarrow>
    lock_no_handshake t (mon S) = Some M \<Longrightarrow>
    mon_step S (S \<lparr> mon := M, guards := (guards S)(t := guards S t + 1) \<rparr>)"
| step_drop: "t \<noteq> 0 \<Longrightarrow> saved S t = None \<Longrightarrow> guards S t > 0 \<Longrightarrow>
    mon_step S (S \<lparr> mon := guard_drop (mon S), guards := (guards S)(t := guards S t - 1) \<rparr>)"
| step_wait: "t \<noteq> 0 \<Longrightarrow> saved S t = None \<Longrightarrow> guards S t > 0 \<Longrightarrow> wait_begin t (mon S) = (s, M) \<Longrightarrow>
    mon_step S (S \<lparr> mon := M, saved := (saved S)(t := Some s) \<rparr>)"
| step_wake: "saved S t = Some s \<Longrightarrow> wait_end t s (mon S) = Some M \<Longrightarrow>
    mon_step S (S \<lparr> mon := M, saved := (saved S)(t := None) \<rparr>)"
| step_timeout: "saved S t = Some s \<Longrightarrow> wait_for_end t True s (mon S) = Some (r, M) \<Longrightarrow>
    mon_step S (S \<lparr> mon := M, saved := (saved S)(t := None) \<rparr>)"
| step_notify: "mon_step S (S \<lparr> mon := mon_notify (mon S) \<rparr>)"
| step_notify_all: "mon_step S (S \<lparr> mon := mon_notify_all (mon S) \<rparr>)"

inductive mon_reachable :: "mon_system \<Rightarrow> bool" where
  mon_initial: "mon_reachable \<lparr> mon = mon_new, guards = (\<lambda>_. 0), saved = (\<lambda>_. None) \<rparr>"
| mon_next: "mon_reachable S \<Longrightarrow> mon_step S S' \<Longrightarrow> mon_reachable S'"

definition mon_inv :: "mon_system \<Rightarrow> bool" where
  "mon_inv S \<longleftrightarrow> mon_ok (mon S) \<and>
     (\<forall>t. t \<noteq> 0 \<longrightarrow> saved S t = None \<longrightarrow> guards S t = mon_depth t (mon S)) \<and>
     (\<forall>t s. saved S t = Some s \<longrightarrow>
        t \<noteq> 0 \<and> mon_depth t (mon S) = 0 \<and> snd s = t \<and> guards S t = unat (fst s) \<and> fst s \<noteq> 0)"

lemma mon_depth_free: "mutex M = None \<Longrightarrow> mon_depth t M = 0"
  by (simp add: mon_depth_def)

lemma mon_cvar_irrelevant [simp]:
  "mon_ok (M \<lparr> cvar := c \<rparr>) = mon_ok M" "mon_depth t (M \<lparr> cvar := c \<rparr>) = mon_depth t M"
  by (simp_all add: mon_ok_def mon_depth_def split: option.split)

lemma mon_inv_holds:
  assumes "mon_inv S" and "t \<noteq> 0" and "saved S t = None" and "guards S t > 0"
  shows "mutex (mon S) = Some t \<and> holder (mon S) = t \<and> rec_count (mon S) \<noteq> 0 \<and>
    guards S t = unat (rec_count (mon S))"
proof -
  have "mon_depth t (mon S) > 0" and "mon_ok (mon S)" and "guards S t = mon_depth t (mon S)"
    using assms by (simp_all add: mon_inv_def)
  then show ?thesis by (auto simp: mon_depth_def mon_ok_def split: if_splits)
qed

lemma mon_inv_wake:
  assumes "mon_inv S" and "saved S t = Some s" and "mutex (mon S) = None"
    and "mutex M = Some t" and "rec_count M = fst s" and "holder M = snd s"
  shows "mon_inv (S \<lparr> mon := M, saved := (saved S)(t := None) \<rparr>)"
proof (cases s)
  case (Pair c h)
  then show ?thesis using assms by (auto simp: mon_inv_def mon_ok_def mon_depth_def)
qed

lemma mon_step_inv:
  assumes "mon_step S S'" and "mon_inv S"
  shows "mon_inv S'"
  using assms
proof (cases rule: mon_step.cases)
  case (step_lock t M)
  have "mon_depth t (mon S) < 2 ^ 64 - 1" "mon_ok (mon S)"
    using step_lock assms(2) by (simp_all add: mon_inv_def)
  with step_lock mon_lock_ok [of "mon S" t M]
  have M: "mon_ok M" "mon_depth t M = Suc (mon_depth t (mon S))"
    "\<And>u. u \<noteq> 0 \<Longrightarrow> u \<noteq> t \<Longrightarrow> mon_depth u M = mon_depth u (mon S)" by auto
  show ?thesis
    using step_lock(1,3) M assms(2) unfolding mon_inv_def by (auto simp: step_lock(1))
next
  case (step_drop t)
  have "mon_depth t (mon S) > 0" "mon_ok (mon S)"
    using step_drop assms(2) by (simp_all add: mon_inv_def)
  with step_drop mon_release_ok [of "mon S" t]
  have M: "mon_ok (guard_drop (mon S))" "mon_depth t (guard_drop (mon S)) = mon_depth t (mon S) - 1"
    "\<And>u. u \<noteq> 0 \<Longrightarrow> u \<noteq> t \<Longrightarrow> mon_depth u (guard_drop (mon S)) = mon_depth u (mon S)" by auto
  show ?thesis
    using step_drop(3) M assms(2) unfolding mon_inv_def by (auto simp: step_drop(1))
next
  case (step_wait t s M)
  have h: "mutex (mon S) = Some t" "holder (mon S) = t" "rec_count (mon S) \<noteq> 0"
    "guards S t = unat (rec_count (mon S))"
    using mon_inv_holds [OF assms(2)] step_wait by simp_all
  have M: "M = (mon S) \<lparr> rec_count := 0, holder := 0, mutex := None, cvar := cvar (mon S) @ [t] \<rparr>"
    and s: "s = (rec_count (mon S), t)"
    using step_wait h(2) by (auto simp: wait_begin_def)
  have d: "mon_depth u (mon S) = (if u = t then unat (rec_count (mon S)) else 0)" for u
    using h by (simp add: mon_depth_def)
  have "mon_depth u M = 0" and "mon_ok M" for u
    by (simp_all add: M mon_depth_def mon_ok_def)
  then show ?thesis
    using step_wait(1-4) h(3,4) s assms(2) unfolding mon_inv_def d by auto
next
  case (step_wake t s)
  then show ?thesis
    by (auto intro!: mon_inv_wake [OF assms(2) step_wake(2)] simp: wait_end_def mutex_lock_def split: if_splits)
next
  case (step_timeout t s r)
  then show ?thesis
    by (auto intro!: mon_inv_wake [OF assms(2) step_timeout(2)] simp: wait_for_end_def mutex_lock_def split: if_splits)
qed (use assms in \<open>simp_all add: mon_inv_def mon_notify_def mon_notify_all_def\<close>)

lemma mon_reachable_inv: "mon_reachable S \<Longrightarrow> mon_inv S"
proof (induction rule: mon_reachable.induct)
  case mon_initial
  then show ?case by (simp add: mon_inv_def mon_new_def mon_ok_def mon_depth_def)
next
  case (mon_next S S')
  then show ?case using mon_step_inv by blast
qed

section \<open>Properties\<close>

text \<open>
  C17: mutual exclusion. Whatever threads lock, re-lock, drop guards, wait and are woken, with
  or without a timeout, two threads that are not waiting never have a guard of the same monitor
  at the same time, and the thread that has one is the recorded holder and owns the mutex as
  often as the count says.
\<close>

theorem monitor_mutual_exclusion:
  assumes "mon_reachable S" and "t \<noteq> 0" and "saved S t = None" and "guards S t > 0"
  shows "mutex (mon S) = Some t \<and> holder (mon S) = t \<and> unat (rec_count (mon S)) = guards S t \<and>
    (\<forall>u. u \<noteq> 0 \<longrightarrow> saved S u = None \<longrightarrow> guards S u > 0 \<longrightarrow> u = t)"
proof -
  have inv: "mon_inv S" using assms(1) by (rule mon_reachable_inv)
  show ?thesis
    using mon_inv_holds [OF inv assms(2-4)] mon_inv_holds [OF inv] by auto
qed

definition two_locks :: mon_system where
  "two_locks = \<lparr> mon = \<lparr> mutex = Some 5, rec_count = 2, holder = 5, cvar = [] \<rparr>,
     guards = (\<lambda>_. 0)(5 := Suc (Suc 0)), saved = (\<lambda>_. None) \<rparr>"

lemma two_locks_reachable: "mon_reachable two_locks"
proof -
  let ?S0 = "\<lparr> mon = mon_new, guards = (\<lambda>_. 0), saved = (\<lambda>_. None) \<rparr> :: mon_system"
  let ?M1 = "\<lparr> mutex = Some 5, rec_count = 1, holder = 5, cvar = [] \<rparr> :: monitor"
  let ?S1 = "\<lparr> mon = ?M1, guards = (\<lambda>_. 0)(5 := 1), saved = (\<lambda>_. None) \<rparr> :: mon_system"
  have "mon_step ?S0 ?S1"
    using step_lock [of 5 ?S0 ?M1] by (simp add: mon_new_def lock_no_handshake_def mutex_lock_def)
  moreover have "mon_step ?S1 two_locks"
    using step_lock [of 5 ?S1 "mon two_locks"] by (simp add: lock_no_handshake_def two_locks_def)
  ultimately show ?thesis using mon_initial mon_next by blast
qed

theorem monitor_mutual_exclusion_witness:
  "mutex (mon two_locks) = Some 5 \<and> unat (rec_count (mon two_locks)) = guards two_locks 5"
proof -
  have g: "(5 :: slot) \<noteq> 0" "\<And>u. saved two_locks u = None" "guards two_locks 5 > 0"
    by (simp_all add: two_locks_def)
  show ?thesis
    using monitor_mutual_exclusion [OF two_locks_reachable g(1) g(2) g(3)] g(2) by blast
qed

text \<open>
  A wait gives the monitor up however deeply it was locked, so that any other thread can
  lock it at once, and when the waiting thread goes on it has the monitor with the depth it
  had before.
\<close>

theorem wait_releases_and_restores:
  assumes "mon_ok M" and "t \<noteq> 0" and "mon_depth t M > 0" and "wait_begin t M = (s, M1)"
    and "mon_ok M2" and "wait_end t s M2 = Some M3"
  shows "(\<forall>u. u \<noteq> 0 \<longrightarrow> lock_no_handshake u M1 \<noteq> None) \<and>
    mon_ok M3 \<and> mon_depth t M3 = mon_depth t M"
proof -
  have m: "mutex M = Some t" "holder M = t" "rec_count M \<noteq> 0"
    using assms(1,3) by (auto simp: mon_ok_def mon_depth_def split: if_splits)
  have s: "s = (rec_count M, t)" and M1: "mutex M1 = None" "holder M1 = 0"
    using assms(4) m by (auto simp: wait_begin_def)
  have M3: "mutex M3 = Some t" "rec_count M3 = rec_count M" "holder M3 = t"
    using assms(6) s by (auto simp: wait_end_def mutex_lock_def split: if_splits)
  show ?thesis
    using M1 M3 m assms(2) by (simp add: mon_ok_def mon_depth_def lock_no_handshake_def mutex_lock_def)
qed

theorem wait_releases_and_restores_witness:
  "mon_depth 5 \<lparr> mutex = Some 5, rec_count = 2, holder = 5, cvar = [] \<rparr> = 2 \<and>
   lock_no_handshake 7 \<lparr> mutex = None, rec_count = 0, holder = 0, cvar = [5] \<rparr> \<noteq> None"
proof -
  let ?M = "\<lparr> mutex = Some 5, rec_count = 2, holder = 5, cvar = [] \<rparr> :: monitor"
  let ?M1 = "\<lparr> mutex = None, rec_count = 0, holder = 0, cvar = [5] \<rparr> :: monitor"
  have "wait_begin 5 ?M = ((2, 5), ?M1)" by (simp add: wait_begin_def)
  moreover have "wait_end 5 (2, 5) (mon_notify_all ?M1) = Some ?M"
    by (simp add: wait_end_def mutex_lock_def mon_notify_all_def)
  ultimately show ?thesis
    using wait_releases_and_restores [of ?M 5 "(2, 5)" ?M1 "mon_notify_all ?M1" ?M]
    by (simp add: mon_ok_def mon_depth_def mon_notify_all_def)
qed

end
