(* ===== verification/Vmkit_Memory.thy ===== *)
theory Vmkit_Memory
  imports Vmkit_Prelude
begin

text \<open>
  The memory the sources read and write through \<open>Address::load\<close>, \<open>Address::store\<close> and
  \<open>std::ptr::copy\<close>: bytes at 64-bit addresses, little-endian words. A load or store of
  a type of n bytes touches the n bytes from the address on; addresses wrap.
\<close>

type_synonym memory = "address \<Rightarrow> u8"

definition load_bytes :: "nat \<Rightarrow> memory \<Rightarrow> address \<Rightarrow> 'w::len word" where
  "load_bytes n m a =
     foldr (\<lambda>i acc. acc OR push_bit (8 * i) (ucast (m (a + word_of_nat i)))) [0..<n] 0"

definition store_bytes :: "nat \<Rightarrow> memory \<Rightarrow> address \<Rightarrow> 'w::len word \<Rightarrow> memory" where
  "store_bytes n m a v =
     (\<lambda>x. if unat (x - a) < n then ucast (drop_bit (8 * unat (x - a)) v) else m x)"

abbreviation load64 :: "memory \<Rightarrow> address \<Rightarrow> usize" where
  "load64 \<equiv> load_bytes 8"

abbreviation store64 :: "memory \<Rightarrow> address \<Rightarrow> usize \<Rightarrow> memory" where
  "store64 \<equiv> store_bytes 8"

abbreviation store32 :: "memory \<Rightarrow> address \<Rightarrow> u32 \<Rightarrow> memory" where
  "store32 \<equiv> store_bytes 4"

text \<open>\<open>std::ptr::copy(src, dst, n)\<close> on bytes: the regions may overlap.\<close>

definition copy_bytes :: "memory \<Rightarrow> address \<Rightarrow> address \<Rightarrow> usize \<Rightarrow> memory" where
  "copy_bytes m src dst n = (\<lambda>x. if x - dst < n then m (src + (x - dst)) else m x)"

section \<open>Reading back what was written\<close>

lemma byte_of_bit:
  "8 * i \<le> j \<and> j - 8 * i < 8 \<and> P i (j - 8 * i) \<longleftrightarrow> i = j div 8 \<and> P (j div 8) (j mod 8)"
  for i j :: nat
proof (cases "i = j div 8")
  case True
  then show ?thesis by (simp add: minus_mult_div_eq_mod)
next
  case False
  then have "\<not> (8 * i \<le> j \<and> j - 8 * i < 8)" by auto
  with False show ?thesis by auto
qed

lemma bit_foldr_load:
  "bit (foldr (\<lambda>i acc. acc OR push_bit (8 * i) (ucast (f i :: u8))) [0..<n] (0 :: 'w::len word)) j
     \<longleftrightarrow> j < LENGTH('w) \<and> j < 8 * n \<and> bit (f (j div 8)) (j mod 8)"
proof -
  have "bit (foldr (\<lambda>i acc. acc OR push_bit (8 * i) (ucast (f i :: u8))) is (a :: 'w word)) j
     \<longleftrightarrow> bit a j \<or> (j < LENGTH('w) \<and> (\<exists>i \<in> set is. 8 * i \<le> j \<and> j - 8 * i < 8 \<and> bit (f i) (j - 8 * i)))" for a "is"
    by (induction "is") (auto simp: bit_simps dest: bit_imp_le_length)
  from this [of "[0..<n]" 0] show ?thesis
    by (simp add: byte_of_bit [where P = "\<lambda>i. bit (f i)"]) (auto simp: div_less_iff_less_mult mult.commute)
qed

lemma bit_load_bytes:
  "bit (load_bytes n m a :: 'w::len word) j \<longleftrightarrow>
     j < LENGTH('w) \<and> j < 8 * n \<and> bit (m (a + word_of_nat (j div 8))) (j mod 8)"
  unfolding load_bytes_def by (rule bit_foldr_load)

lemma load_bytes_cong:
  assumes "\<And>i. i < n \<Longrightarrow> m (a + word_of_nat i) = m' (a' + word_of_nat i)"
  shows "load_bytes n m a = (load_bytes n m' a' :: 'w::len word)"
  unfolding load_bytes_def by (rule foldr_cong) (simp_all add: assms)

text \<open>Two byte ranges that do not meet: the distance from either start to the other range.\<close>

definition disjoint_ranges :: "address \<Rightarrow> nat \<Rightarrow> address \<Rightarrow> nat \<Rightarrow> bool" where
  "disjoint_ranges a n b k \<longleftrightarrow> k \<le> unat (a - b) \<and> n \<le> unat (b - a)"

lemma disjoint_ranges_sym: "disjoint_ranges a n b k \<longleftrightarrow> disjoint_ranges b k a n"
  by (auto simp: disjoint_ranges_def)

lemma unat_offset: "n \<le> 2 ^ 64 \<Longrightarrow> i < n \<Longrightarrow> unat ((a + word_of_nat i) - a :: usize) = i"
  by (simp add: unat_word_of_nat)

lemma load_store_same:
  assumes "8 * n \<le> LENGTH('w)" and "LENGTH('w) \<le> 8 * n" and "n \<le> 8"
  shows "load_bytes n (store_bytes n m a v) a = (v :: 'w::len word)"
proof (rule bit_word_eqI)
  fix j assume j: "j < LENGTH('w)"
  then have "j div 8 < n" using assms by auto
  moreover have "unat (word_of_nat (j div 8) :: usize) = j div 8"
    using \<open>j div 8 < n\<close> assms by (simp add: unat_word_of_nat)
  ultimately show "bit (load_bytes n (store_bytes n m a v) a :: 'w word) j = bit v j"
    using j assms by (simp add: bit_load_bytes store_bytes_def bit_simps)
qed

lemma load_store_64 [simp]: "load64 (store64 m a v) a = v"
  by (rule load_store_same) simp_all

lemma store_bytes_outside: "n \<le> unat (x - a) \<Longrightarrow> store_bytes n m a v x = m x"
  by (simp add: store_bytes_def)

lemma copy_bytes_outside: "unat n \<le> unat (x - dst) \<Longrightarrow> copy_bytes m src dst n x = m x"
  by (simp add: copy_bytes_def word_less_nat_alt)

lemma copy_bytes_inside:
  "i < n \<Longrightarrow> copy_bytes m src dst n (dst + i) = m (src + i)"
  by (simp add: copy_bytes_def)

end
