(* ===== verification/Vmkit_Align.thy ===== *)
theory Vmkit_Align
  imports Vmkit_Memory
begin

text \<open>
  \<open>mm/align.rs\<close>, and the constants of the trait \<open>VirtualMachine\<close> (\<open>lib.rs\<close>) that the memory
  manager and the object model read. A runtime may override the constants, so they are the
  fields of a record; \<open>default_vm\<close> holds the trait's defaults and cargo's default features.
\<close>

record vm_config =
  ALWAYS_TRACE :: bool
  ALIGNMENT_VALUE :: u32
  MAX_ALIGNMENT :: usize
  MIN_ALIGNMENT :: usize
  CONSERVATIVE_TRACING :: bool
  ADDRESS_BASED_HASHING :: bool
  COOPERATIVE :: bool
  UNCOOPERATIVE :: bool

definition default_vm :: vm_config where
  "default_vm = \<lparr> ALWAYS_TRACE = False, ALIGNMENT_VALUE = 0xdeadbeef, MAX_ALIGNMENT = 32,
     MIN_ALIGNMENT = 8, CONSERVATIVE_TRACING = False, ADDRESS_BASED_HASHING = True,
     COOPERATIVE = True, UNCOOPERATIVE = False \<rparr>"

section \<open>Rounding\<close>

definition round_down :: "usize \<Rightarrow> usize \<Rightarrow> usize" where
  "round_down x align = x AND (- align)"

definition round_up :: "usize \<Rightarrow> usize \<Rightarrow> usize \<Rightarrow> usize" where
  "round_up x align offset = round_down (x + align - 1 + offset) align - offset"

definition is_aligned :: "usize \<Rightarrow> usize \<Rightarrow> usize \<Rightarrow> bool" where
  "is_aligned x alignment offset \<longleftrightarrow> x AND (alignment - 1) = offset"

section \<open>Filling and aligning\<close>

partial_function (option) fill_loop :: "u32 \<Rightarrow> memory \<Rightarrow> address \<Rightarrow> address \<Rightarrow> memory option" where
  "fill_loop v m start end =
     (if start < end then fill_loop v (store32 m start v) (start + 4) end else Some m)"

definition fill_alignment_gap ::
  "vm_config \<Rightarrow> memory \<Rightarrow> address \<Rightarrow> address \<Rightarrow> memory option" where
  "fill_alignment_gap C m start end =
     (if MAX_ALIGNMENT C - MIN_ALIGNMENT C = 4
      then Some (if end - start \<noteq> 0 then store32 m start (ALIGNMENT_VALUE C) else m)
      else fill_loop (ALIGNMENT_VALUE C) m start end)"

definition align_allocation_inner ::
  "vm_config \<Rightarrow> memory \<Rightarrow> address \<Rightarrow> usize \<Rightarrow> usize \<Rightarrow> usize \<Rightarrow> bool \<Rightarrow> (address \<times> memory) option" where
  "align_allocation_inner C m region alignment offset known_alignment fill = do {
     let mask = alignment - 1;
     let neg_off = - offset;
     let delta = (neg_off - region) AND mask;
     m' \<leftarrow> (if fill \<and> ALIGNMENT_VALUE C \<noteq> 0
             then fill_alignment_gap C m region (region + delta) else Some m);
     Some (region + delta, m')
   }"

definition align_allocation_no_fill :: "address \<Rightarrow> usize \<Rightarrow> usize \<Rightarrow> address" where
  "align_allocation_no_fill region alignment offset =
     region + ((- offset - region) AND (alignment - 1))"

definition align_allocation ::
  "vm_config \<Rightarrow> memory \<Rightarrow> address \<Rightarrow> usize \<Rightarrow> usize \<Rightarrow> (address \<times> memory) option" where
  "align_allocation C m region alignment offset =
     align_allocation_inner C m region alignment offset (MIN_ALIGNMENT C) True"

text \<open>
  The variant without filling is the common routine called with \<open>fill = false\<close>, which
  never writes: the address it returns does not depend on the memory.
\<close>

lemma align_allocation_no_fill_inner:
  "align_allocation_inner C m region alignment offset (MIN_ALIGNMENT C) False =
     Some (align_allocation_no_fill region alignment offset, m)"
  by (simp add: align_allocation_inner_def align_allocation_no_fill_def)

section \<open>What the routines compute\<close>

lemma minus_exp_eq: "- (2 ^ k :: usize) = NOT (2 ^ k - 1)"
  by (simp add: not_eq_complement)

lemma round_down_eq: "round_down x (2 ^ k) = x - take_bit k x"
  by (simp add: round_down_def minus_exp_eq and_not_low)

lemma align_delta_bound: "unat ((x :: usize) AND (2 ^ k - 1)) < 2 ^ k"
  by (simp add: and_exp_minus_1 unat_take_bit)

lemma align_no_fill_congruent:
  assumes "k \<le> 64"
  shows "aligned k (align_allocation_no_fill region (2 ^ k) offset + offset)"
proof -
  have "align_allocation_no_fill region (2 ^ k) offset + offset =
      (region + offset) + take_bit k (- offset - region)"
    by (simp add: align_allocation_no_fill_def and_exp_minus_1 algebra_simps)
  then have "take_bit k (align_allocation_no_fill region (2 ^ k) offset + offset) =
      take_bit k ((region + offset) + (- offset - region))"
    by (simp only: take_bit_add_take_bit [OF assms])
  then show ?thesis by (simp add: aligned_def)
qed

lemma unat_align_no_fill:
  assumes "unat region + 2 ^ k \<le> 2 ^ 64"
  shows "unat region \<le> unat (align_allocation_no_fill region (2 ^ k) offset)"
    and "unat (align_allocation_no_fill region (2 ^ k) offset) < unat region + 2 ^ k"
proof -
  let ?d = "(- offset - region) AND (2 ^ k - 1)"
  have "unat ?d < 2 ^ k" by (rule align_delta_bound)
  moreover from this assms have "unat region + unat ?d < 2 ^ 64" by linarith
  then have "unat (align_allocation_no_fill region (2 ^ k) offset) = unat region + unat ?d"
    unfolding align_allocation_no_fill_def by (rule unat_add_no_overflow)
  ultimately show "unat region \<le> unat (align_allocation_no_fill region (2 ^ k) offset)"
    and "unat (align_allocation_no_fill region (2 ^ k) offset) < unat region + 2 ^ k"
    by simp_all
qed

text \<open>
  What the fill loop leaves behind: every byte of the first \<^term>\<open>n\<close> bytes from
  \<^term>\<open>start\<close> on is the corresponding byte of the repeated pattern.
\<close>

definition fill_pattern :: "u32 \<Rightarrow> memory \<Rightarrow> address \<Rightarrow> nat \<Rightarrow> memory" where
  "fill_pattern v m start n =
     (\<lambda>x. if unat (x - start) < n then ucast (drop_bit (8 * (unat (x - start) mod 4)) v) else m x)"

lemma unat_minus_4: "unat (d - 4 :: usize) = (if unat d < 4 then unat d + (2 ^ 64 - 4) else unat d - 4)"
  by (simp add: unat_sub_if')

lemma fill_pattern_0: "fill_pattern v m start 0 = m"
  by (simp add: fill_pattern_def)

lemma fill_pattern_step:
  assumes "n + 4 < 2 ^ 64"
  shows "fill_pattern v (store32 m start v) (start + 4) n = fill_pattern v m start (n + 4)"
proof
  fix x :: address
  let ?u = "unat (x - start)"
  have "x - (start + 4) = (x - start) - 4" by simp
  then have e: "unat (x - (start + 4)) = (if ?u < 4 then ?u + (2 ^ 64 - 4) else ?u - 4)"
    by (simp only: unat_minus_4)
  show "fill_pattern v (store32 m start v) (start + 4) n x = fill_pattern v m start (n + 4) x"
  proof (cases "?u < 4")
    case True
    with assms show ?thesis by (simp add: fill_pattern_def e store_bytes_def)
  next
    case False
    then obtain r where "?u = r + 4" by (metis le_add_diff_inverse2 not_le)
    with False show ?thesis by (simp add: fill_pattern_def e store_bytes_def)
  qed
qed

lemma fill_loop_returns:
  assumes "unat start + 4 * n < 2 ^ 64" and "unat end \<le> unat start + 4 * n"
    and "n = 0 \<or> unat start + 4 * (n - 1) < unat end"
  shows "fill_loop v m start end = Some (fill_pattern v m start (4 * n))"
  using assms
proof (induction n arbitrary: m start)
  case 0
  then show ?case by (subst fill_loop.simps) (simp add: fill_pattern_0 word_less_nat_alt)
next
  case (Suc n)
  then have lt: "start < end" by (simp add: word_less_nat_alt)
  have s4: "unat (start + 4) = unat start + 4"
    using Suc.prems(1) by (subst unat_add_no_overflow) auto
  have "fill_loop v (store32 m start v) (start + 4) end =
      Some (fill_pattern v (store32 m start v) (start + 4) (4 * n))"
    using Suc.prems by (intro Suc.IH) (auto simp: s4)
  moreover have "fill_pattern v (store32 m start v) (start + 4) (4 * n) = fill_pattern v m start (4 * n + 4)"
    using Suc.prems(1) by (intro fill_pattern_step) simp
  ultimately show ?case
    using lt by (subst fill_loop.simps) (simp add: add.commute)
qed


lemma store32_is_pattern: "store32 m start v = fill_pattern v m start 4"
  by (auto simp: fill_pattern_def store_bytes_def)

text \<open>The number of stores of a gap of \<^term>\<open>d\<close> bytes: a last, partial word is stored whole.\<close>

definition gap_words :: "nat \<Rightarrow> nat" where
  "gap_words d = (d + 3) div 4"

lemma gap_words_bounds:
  "d \<le> 4 * gap_words d" "4 * gap_words d < d + 4" "gap_words d = 0 \<or> 4 * (gap_words d - 1) < d"
  by (auto simp: gap_words_def)

lemma fill_loop_gap:
  assumes "unat start \<le> unat end" and "unat end + 4 < 2 ^ 64"
  shows "fill_loop v m start end =
    Some (fill_pattern v m start (4 * gap_words (unat end - unat start)))"
  using assms gap_words_bounds [of "unat end - unat start"]
  by (intro fill_loop_returns) linarith+

lemma align_no_fill_least:
  assumes "k \<le> 64" and "unat region + 2 ^ k \<le> 2 ^ 64" and "region \<le> b" and "aligned k (b + offset)"
  shows "align_allocation_no_fill region (2 ^ k) offset \<le> b"
proof -
  let ?y = "- offset - region"
  have "take_bit k (?y + take_bit k (b + offset)) = take_bit k (?y + (b + offset))"
    using assms(1) by (rule take_bit_add_take_bit)
  then have "take_bit k ?y = take_bit k (b - region)"
    using assms(4) by (simp add: aligned_def)
  then have d: "unat (?y AND (2 ^ k - 1)) = (unat b - unat region) mod 2 ^ k"
    using assms(3) by (simp add: and_exp_minus_1 unat_take_bit unat_sub)
  have "unat (?y AND (2 ^ k - 1)) < 2 ^ k" by (rule align_delta_bound)
  then have "unat (region + (?y AND (2 ^ k - 1))) = unat region + unat (?y AND (2 ^ k - 1))"
    using assms(2) by (intro unat_add_no_overflow) linarith
  moreover have "(unat b - unat region) mod 2 ^ k \<le> unat b - unat region" by simp
  ultimately show ?thesis
    using assms(3) unfolding align_allocation_no_fill_def word_le_nat_alt d by linarith
qed

section \<open>Properties\<close>

text \<open>
  C34: the aligned address is the right one: it satisfies the alignment congruence, it is not
  below the region, it is less than one alignment above it, and no smaller address of the
  region satisfies the congruence.
\<close>

theorem align_allocation_least_aligned:
  assumes "k < 64" and "unat region + 2 ^ k \<le> 2 ^ 64"
  shows "aligned k (align_allocation_no_fill region (2 ^ k) offset + offset) \<and>
    region \<le> align_allocation_no_fill region (2 ^ k) offset \<and>
    unat (align_allocation_no_fill region (2 ^ k) offset) < unat region + 2 ^ k \<and>
    (\<forall>b. region \<le> b \<and> aligned k (b + offset) \<longrightarrow>
       align_allocation_no_fill region (2 ^ k) offset \<le> b)"
  using assms align_no_fill_congruent [of k] unat_align_no_fill [of region k]
    align_no_fill_least [of k region]
  by (simp add: word_le_nat_alt)

theorem align_allocation_least_aligned_witness:
  "align_allocation_no_fill 4100 16 8 = 4104 \<and> aligned 4 (align_allocation_no_fill 4100 16 8 + 8)"
proof -
  have "align_allocation_no_fill 4100 (2 ^ 4) 8 = 4104" by (simp add: align_allocation_no_fill_def)
  then show ?thesis
    using align_allocation_least_aligned [of 4 4100 8] by simp
qed

text \<open>
  \<open>align_allocation\<close> returns, at the same address as the variant that does not fill, and the
  memory it leaves behind is the old one except for the skipped words, which hold the
  alignment value: no byte outside the gap, rounded up to whole words, is written.
\<close>

theorem align_allocation_fills_gap:
  assumes "k < 64" and "unat region + 2 ^ k + 4 \<le> 2 ^ 64"
    and "MAX_ALIGNMENT C - MIN_ALIGNMENT C \<noteq> 4" and "ALIGNMENT_VALUE C \<noteq> 0"
  shows "align_allocation C m region (2 ^ k) offset =
    Some (align_allocation_no_fill region (2 ^ k) offset,
      fill_pattern (ALIGNMENT_VALUE C) m region
        (4 * gap_words (unat (align_allocation_no_fill region (2 ^ k) offset) - unat region)))"
proof -
  let ?a = "align_allocation_no_fill region (2 ^ k) offset"
  have "unat region \<le> unat ?a" and "unat ?a < unat region + 2 ^ k"
    using assms(2) by (intro unat_align_no_fill; simp)+
  then have "fill_loop (ALIGNMENT_VALUE C) m region ?a =
      Some (fill_pattern (ALIGNMENT_VALUE C) m region (4 * gap_words (unat ?a - unat region)))"
    using assms(2) by (intro fill_loop_gap) linarith+
  then show ?thesis
    using assms(3,4)
    by (simp add: align_allocation_def align_allocation_inner_def fill_alignment_gap_def
        align_allocation_no_fill_def Let_def)
qed

theorem align_allocation_fills_gap_witness:
  "align_allocation default_vm (\<lambda>_. 7) 4100 16 8 = Some (4104, fill_pattern 0xdeadbeef (\<lambda>_. 7) 4100 4)"
proof -
  have "align_allocation_no_fill 4100 (2 ^ 4) 8 = 4104" by (simp add: align_allocation_no_fill_def)
  then show ?thesis
    using align_allocation_fills_gap [of 4 4100 default_vm "\<lambda>_. 7" 8]
    by (simp add: default_vm_def gap_words_def)
qed

end
