(* ===== verification/Vmkit_Tlab.thy ===== *)
theory Vmkit_Tlab
  imports Vmkit_Align
begin

text \<open>
  \<open>mm/tlab.rs\<close>: the thread-local allocation buffer, a bump pointer \<open>cursor\<close> and its \<open>limit\<close>.
  The locale \<open>bump_buffer\<close> states what the allocation fast path relies on; the buffer of the
  sources is its interpretation, and the facts about sequences of allocations come from it.
\<close>

record tlab =
  cursor :: address
  limit :: address

definition tlab_new :: tlab where
  "tlab_new = \<lparr> cursor = 0, limit = 0 \<rparr>"

definition tlab_allocate ::
  "ext_lib \<Rightarrow> tlab \<Rightarrow> usize \<Rightarrow> usize \<Rightarrow> usize \<Rightarrow> address \<times> tlab" where
  "tlab_allocate L t sz alignment offset =
     (let n = raw_align_up L sz alignment;
          result = align_allocation_no_fill (cursor t) alignment offset
      in if result + n > limit t then (0, t)
         else (result, t\<lparr>cursor := result + n\<rparr>))"

definition tlab_rebind :: "tlab \<Rightarrow> address \<Rightarrow> address \<Rightarrow> tlab" where
  "tlab_rebind t c l = t\<lparr>cursor := c, limit := l\<rparr>"

definition tlab_reset :: "tlab \<Rightarrow> tlab" where
  "tlab_reset t = t\<lparr>cursor := 0, limit := 0\<rparr>"

definition tlab_take :: "tlab \<Rightarrow> (address \<times> address) \<times> tlab" where
  "tlab_take t = ((cursor t, limit t), tlab_reset t)"

lemma tlab_take_rebind: "tlab_take t = ((c, l), t') \<Longrightarrow> tlab_rebind t' c l = t"
  by (auto simp: tlab_take_def tlab_reset_def tlab_rebind_def)

section \<open>The contract of a bump buffer\<close>

text \<open>A sequence of requests served by an allocation function, with the blocks it returned.\<close>

fun alloc_run :: "('b \<Rightarrow> 'r \<Rightarrow> address \<times> 'b) \<Rightarrow> 'b \<Rightarrow> 'r list \<Rightarrow> (address \<times> 'r) list" where
  "alloc_run alloc b [] = []"
| "alloc_run alloc b (r # rs) =
     (case alloc b r of (a, b') \<Rightarrow>
        if a = 0 then alloc_run alloc b' rs else (a, r) # alloc_run alloc b' rs)"

locale bump_buffer =
  fixes alloc :: "'b \<Rightarrow> 'r \<Rightarrow> address \<times> 'b"
    and lo :: "'b \<Rightarrow> nat"
    and hi :: "'b \<Rightarrow> nat"
    and bytes :: "'r \<Rightarrow> nat"
    and serves :: "'b \<Rightarrow> 'r \<Rightarrow> bool"
  assumes alloc_fail: "serves b r \<Longrightarrow> alloc b r = (0, b') \<Longrightarrow> b' = b"
    and alloc_block: "serves b r \<Longrightarrow> alloc b r = (a, b') \<Longrightarrow> a \<noteq> 0 \<Longrightarrow>
      lo b \<le> unat a \<and> unat a + bytes r \<le> lo b' \<and> lo b' \<le> hi b \<and> hi b' = hi b"
    and serves_step: "serves b r \<Longrightarrow> serves b r' \<Longrightarrow> alloc b r = (a, b') \<Longrightarrow> serves b' r'"
begin

lemma run_within:
  assumes "\<forall>r \<in> set rs. serves b r" and "(a, r) \<in> set (alloc_run alloc b rs)"
  shows "lo b \<le> unat a \<and> unat a + bytes r \<le> hi b"
  using assms
proof (induction rs arbitrary: b)
  case Nil
  then show ?case by simp
next
  case (Cons q qs)
  obtain x b' where x: "alloc b q = (x, b')" by fastforce
  have q: "serves b q" and qs: "\<forall>r \<in> set qs. serves b' r"
    using Cons.prems(1) serves_step [OF _ _ x] by auto
  show ?case
  proof (cases "x = 0")
    case True
    then have "b' = b" using alloc_fail [OF q] x by simp
    then show ?thesis using True Cons x qs by simp
  next
    case False
    note blk = alloc_block [OF q x False]
    from Cons.prems(2) consider "(a, r) = (x, q)" | "(a, r) \<in> set (alloc_run alloc b' qs)"
      using x False by auto
    then show ?thesis
      using blk Cons.IH [OF qs] by cases auto
  qed
qed

lemma run_disjoint:
  assumes "\<forall>r \<in> set rs. serves b r"
  shows "sorted_wrt (\<lambda>(a, r) (a', r'). unat a + bytes r \<le> unat a') (alloc_run alloc b rs)"
  using assms
proof (induction rs arbitrary: b)
  case Nil
  then show ?case by simp
next
  case (Cons q qs)
  obtain x b' where x: "alloc b q = (x, b')" by fastforce
  have q: "serves b q" and qs: "\<forall>r \<in> set qs. serves b' r"
    using Cons.prems serves_step [OF _ _ x] by auto
  show ?case
  proof (cases "x = 0")
    case True
    then show ?thesis using Cons.IH [OF qs] x by simp
  next
    case False
    then have "unat x + bytes q \<le> lo b'" using alloc_block [OF q x] by simp
    then show ?thesis
      using Cons.IH [OF qs] run_within [OF qs] x False by (fastforce intro: order_trans)
  qed
qed

end

section \<open>The buffer of the sources is a bump buffer\<close>

text \<open>
  A request is a size, the logarithm of its alignment and the offset that the aligned
  address must have. It is served when the arithmetic of the fast path cannot wrap.
\<close>

type_synonym request = "usize \<times> nat \<times> usize"

definition tlab_request :: "ext_lib \<Rightarrow> tlab \<Rightarrow> request \<Rightarrow> address \<times> tlab" where
  "tlab_request L t r = (case r of (sz, k, offset) \<Rightarrow> tlab_allocate L t sz (2 ^ k) offset)"

definition request_fits :: "tlab \<Rightarrow> request \<Rightarrow> bool" where
  "request_fits t r = (case r of (sz, k, offset) \<Rightarrow>
     k < 64 \<and> 0 < sz \<and> unat (limit t) + unat sz + 2 * 2 ^ k < 2 ^ 64 \<and>
     cursor t \<le> limit t \<and> (cursor t = 0 \<longrightarrow> limit t = 0))"

text \<open>The facts of one successful allocation, from the laws of the two alignment routines.\<close>

lemma tlab_allocate_block:
  assumes L: "lib_ok L" and fits: "request_fits t (sz, k, offset)"
    and r: "tlab_allocate L t sz (2 ^ k) offset = (a, t')" and "a \<noteq> 0"
  shows "aligned k (a + offset)" and "unat (cursor t) \<le> unat a"
    and "unat a + unat sz \<le> unat (cursor t')" and "unat (cursor t') \<le> unat (limit t)"
    and "limit t' = limit t" and "a < cursor t'"
proof -
  let ?n = "raw_align_up L sz (2 ^ k)" and ?a = "align_allocation_no_fill (cursor t) (2 ^ k) offset"
  have k: "k < 64" and b: "unat (limit t) + unat sz + 2 * 2 ^ k < 2 ^ 64"
    and cl: "unat (cursor t) \<le> unat (limit t)" and pos: "0 < unat sz"
    using fits by (auto simp: request_fits_def word_le_nat_alt unat_gt_0)
  have up: "unat sz \<le> unat ?n" "unat ?n < unat sz + 2 ^ k"
    using raw_align_up_bounds [OF L k, of sz] b by auto
  have al: "unat (cursor t) \<le> unat ?a" "unat ?a < unat (cursor t) + 2 ^ k"
    using unat_align_no_fill [of "cursor t" k] b cl by auto
  have sum: "unat (?a + ?n) = unat ?a + unat ?n"
    by (rule unat_add_no_overflow) (use up al b cl in linarith)
  have ok: "\<not> ?a + ?n > limit t" and a: "a = ?a" and t': "t' = t\<lparr>cursor := ?a + ?n\<rparr>"
    using r \<open>a \<noteq> 0\<close> by (auto simp: tlab_allocate_def Let_def split: if_splits)
  show "aligned k (a + offset)"
    using k by (simp add: a align_no_fill_congruent)
  show "unat (cursor t) \<le> unat a" and "limit t' = limit t"
    using al by (simp_all add: a t')
  show "unat a + unat sz \<le> unat (cursor t')" and "a < cursor t'"
    using up pos sum by (simp_all add: a t' word_less_nat_alt)
  show "unat (cursor t') \<le> unat (limit t)"
    using ok by (simp add: t' word_less_nat_alt not_less)
qed

lemma tlab_allocate_zero:
  assumes L: "lib_ok L" and fits: "request_fits t (sz, k, offset)"
    and r: "tlab_allocate L t sz (2 ^ k) offset = (0, t')"
  shows "t' = t"
proof (cases "cursor t = 0")
  case True
  let ?n = "raw_align_up L sz (2 ^ k)" and ?a = "align_allocation_no_fill (cursor t) (2 ^ k) offset"
  have k: "k < 64" and b: "unat sz + 2 * 2 ^ k < 2 ^ 64" and z: "limit t = 0" and pos: "0 < unat sz"
    using fits True by (auto simp: request_fits_def unat_gt_0)
  have "unat sz \<le> unat ?n" "unat ?n < unat sz + 2 ^ k"
    using raw_align_up_bounds [OF L k, of sz] b by auto
  moreover have "unat ?a < 2 ^ k"
    using unat_align_no_fill(2) [of "cursor t" k] b True by auto
  ultimately have "unat (?a + ?n) = unat ?a + unat ?n" and "0 < unat ?n"
    using b pos by (auto intro!: unat_add_no_overflow)
  then have "?a + ?n > limit t"
    by (simp add: z word_less_nat_alt)
  then show ?thesis using r by (simp add: tlab_allocate_def Let_def)
next
  case False
  have "unat (cursor t) + 2 ^ k \<le> 2 ^ 64"
    using fits by (auto simp: request_fits_def word_le_nat_alt)
  then have "unat (cursor t) \<le> unat (align_allocation_no_fill (cursor t) (2 ^ k) offset)"
    by (rule unat_align_no_fill(1))
  then have "align_allocation_no_fill (cursor t) (2 ^ k) offset \<noteq> 0"
    using False by (auto simp: unat_eq_0)
  then show ?thesis using r by (auto simp: tlab_allocate_def Let_def split: if_splits)
qed

lemma request_fits_step:
  assumes "lib_ok L" and "request_fits t r" and "request_fits t r'"
    and "tlab_request L t r = (a, t')"
  shows "request_fits t' r'"
proof -
  obtain sz k offset where r: "r = (sz, k, offset)" by (cases r)
  show ?thesis
  proof (cases "a = 0")
    case True
    then have "t' = t"
      using assms tlab_allocate_zero [of L t sz k offset t'] by (simp add: tlab_request_def r)
    then show ?thesis using assms by simp
  next
    case False
    have step: "tlab_allocate L t sz (2 ^ k) offset = (a, t')"
      using assms(4) by (simp add: tlab_request_def r)
    note blk = tlab_allocate_block [OF assms(1) assms(2) [unfolded r] step False]
    have "cursor t' \<noteq> 0" using blk(6) by auto
    then show ?thesis
      using blk(4,5) assms(3) by (simp add: request_fits_def word_le_nat_alt split: prod.splits)
  qed
qed

interpretation tlab_buffer: bump_buffer
  "tlab_request L" "\<lambda>t. unat (cursor t)" "\<lambda>t. unat (limit t)" "\<lambda>(sz, k, offset). unat sz"
  "\<lambda>t r. lib_ok L \<and> request_fits t r" for L
proof (unfold_locales, goal_cases)
  case (1 b r b')
  then show ?case by (cases r) (auto simp: tlab_request_def dest: tlab_allocate_zero)
next
  case (2 b r a b')
  then show ?case
    by (cases r) (auto simp: tlab_request_def dest: tlab_allocate_block)
next
  case (3 b r r' a b')
  then show ?case using request_fits_step by blast
qed

section \<open>Properties\<close>

text \<open>
  A successful allocation from a thread-local buffer returns a block whose address plus
  the requested offset is aligned, that starts at or after the old cursor and holds the
  requested bytes before the new cursor, and the new cursor does not pass the limit.
\<close>

theorem tlab_allocate_within_buffer:
  assumes "lib_ok L" and "request_fits t (sz, k, offset)"
    and "tlab_allocate L t sz (2 ^ k) offset = (a, t')" and "a \<noteq> 0"
  shows "aligned k (a + offset) \<and> unat (cursor t) \<le> unat a \<and>
    unat a + unat sz \<le> unat (cursor t') \<and> unat (cursor t') \<le> unat (limit t') \<and> limit t' = limit t"
  using tlab_allocate_block [OF assms] by simp

theorem tlab_allocate_within_buffer_witness:
  "aligned 4 ((4104 :: address) + 8) \<and> (4104 :: address) \<noteq> 0"
proof -
  let ?t = "\<lparr>cursor = 4100, limit = 8192\<rparr>" and ?t' = "\<lparr>cursor = 4136, limit = 8192\<rparr>"
  have "request_fits ?t (24, 4, 8)" by (simp add: request_fits_def)
  moreover have "tlab_allocate std_lib ?t 24 (2 ^ 4) 8 = (4104, ?t')"
    by (simp add: tlab_allocate_def align_allocation_no_fill_def std_lib_def)
  ultimately show ?thesis
    using tlab_allocate_within_buffer [OF lib_ok_std_lib, of ?t 24 4 8 4104 ?t'] by simp
qed

text \<open>
  C25: however many objects are allocated in sequence from one buffer, the blocks handed out
  lie inside the buffer's range and are pairwise disjoint, in increasing address order.
\<close>

theorem tlab_blocks_disjoint:
  assumes "lib_ok L" and "\<forall>r \<in> set rs. request_fits t r"
  shows "sorted_wrt (\<lambda>(a, sz, _) (a', _). unat a + unat sz \<le> unat a') (alloc_run (tlab_request L) t rs)
    \<and> (\<forall>(a, sz, _) \<in> set (alloc_run (tlab_request L) t rs).
         unat (cursor t) \<le> unat a \<and> unat a + unat sz \<le> unat (limit t))"
proof
  have s: "\<forall>r \<in> set rs. lib_ok L \<and> request_fits t r" using assms by simp
  show "sorted_wrt (\<lambda>(a, sz, _) (a', _). unat a + unat sz \<le> unat a') (alloc_run (tlab_request L) t rs)"
    using tlab_buffer.run_disjoint [OF s] by (simp add: case_prod_unfold)
  show "\<forall>(a, sz, _) \<in> set (alloc_run (tlab_request L) t rs).
      unat (cursor t) \<le> unat a \<and> unat a + unat sz \<le> unat (limit t)"
    using tlab_buffer.run_within [OF s] by (fastforce simp: case_prod_beta)
qed

theorem tlab_blocks_disjoint_witness:
  "alloc_run (tlab_request std_lib) \<lparr>cursor = 4096, limit = 4160\<rparr> [(24, 3, 8), (64, 3, 8), (16, 4, 8)]
     = [(4096, 24, 3, 8), (4120, 16, 4, 8)]
   \<and> sorted_wrt (\<lambda>(a, sz, _) (a', _). unat a + unat sz \<le> unat a')
      [(4096 :: address, 24 :: usize, 3 :: nat, 8 :: usize), (4120, 16, 4, 8)]"
proof -
  let ?t = "\<lparr>cursor = 4096, limit = 4160\<rparr>" and ?rs = "[(24, 3, 8), (64, 3, 8), (16, 4, 8)] :: request list"
  have e: "alloc_run (tlab_request std_lib) ?t ?rs = [(4096, 24, 3, 8), (4120, 16, 4, 8)]"
    by (simp add: tlab_request_def tlab_allocate_def align_allocation_no_fill_def std_lib_def)
  have f: "\<forall>r \<in> set ?rs. request_fits ?t r"
    by (simp add: request_fits_def)
  show ?thesis
    using e tlab_blocks_disjoint [OF lib_ok_std_lib f] by simp
qed

end
