(* ===== verification/Vmkit_Thread.thy ===== *)
theory Vmkit_Thread
  imports Vmkit_Monitor Vmkit_Tlab
begin

text \<open>
  \<open>threading.rs\<close>: one thread. The record has the fields of \<open>Thread\<close> that the thread system
  itself reads and writes; its monitor is the one of \<open>Vmkit_Monitor\<close>, so an operation that
  locks it names the calling thread and is \<^const>\<open>None\<close> while the lock is held by another.
  The block adapters, which decide what a thread is asked to block for, are records of
  functions; the contract the thread system needs of them is a locale.
\<close>

section \<open>State\<close>

datatype thread_state = New | InManaged | InNative | InManagedToBlock | BlockedInNative | Terminated

definition not_running :: "thread_state \<Rightarrow> bool" where
  "not_running st \<longleftrightarrow> st = New \<or> st = Terminated"

datatype alloc_fast_path = TLABPath | FreeListPath | NonePath

record 'b thread =
  take_yieldpoint :: i32
  tl_tlab :: tlab
  max_non_los_default_alloc_bytes :: usize
  barrier :: 'b
  alloc_fastpath :: alloc_fast_path
  mutator_bound :: bool
  has_collector_context :: bool
  exec_status :: thread_state
  ignore_handshakes_and_gc :: bool
  is_about_to_terminate :: bool
  is_blocking :: bool
  is_joinable :: bool
  thread_id :: "64 word"
  index_in_manager :: usize
  yieldpoints_enabled_count :: "8 word"
  yieldpoint_request_pending :: bool
  at_yieldpoint :: bool
  soft_handshake_requested :: bool
  active_mutator_context :: bool
  is_blocked_for_gc :: bool
  should_block_for_gc :: bool
  stack_pointer :: usize
  suspend_count :: usize
  monitor :: Vmkit_Monitor.monitor
  communication_lock :: Vmkit_Monitor.monitor

text \<open>
  \<open>new_unchecked\<close>: the arguments that come from elsewhere are the next value of the counter
  \<open>ID\<close>, mmtk's \<open>NoBarrier\<close> and whether the collector threads were spawned already.
\<close>

definition new_unchecked :: "'b \<Rightarrow> 64 word \<Rightarrow> bool \<Rightarrow> bool \<Rightarrow> bool \<Rightarrow> 'b thread option" where
  "new_unchecked NoBarrier fresh_id collectors_spawned collector_context is_mutator =
     (if collector_context \<and> (collectors_spawned \<or> is_mutator) then None
      else Some \<lparr>
        take_yieldpoint = 0, tl_tlab = tlab_new, max_non_los_default_alloc_bytes = 0,
        barrier = NoBarrier, alloc_fastpath = NonePath, mutator_bound = False,
        has_collector_context = collector_context, exec_status = New,
        ignore_handshakes_and_gc = (\<not> is_mutator \<or> collector_context),
        is_about_to_terminate = False, is_blocking = False, is_joinable = False,
        thread_id = fresh_id, index_in_manager = 0, yieldpoints_enabled_count = 0,
        yieldpoint_request_pending = False, at_yieldpoint = False,
        soft_handshake_requested = False, active_mutator_context = is_mutator,
        is_blocked_for_gc = False, should_block_for_gc = False, stack_pointer = 0,
        suspend_count = 0, monitor = mon_new, communication_lock = mon_new \<rparr>)"

definition for_mutator :: "'b \<Rightarrow> 64 word \<Rightarrow> bool \<Rightarrow> 'b thread option" where
  "for_mutator NB i cs = new_unchecked NB i cs False True"

definition for_collector :: "'b \<Rightarrow> 64 word \<Rightarrow> bool \<Rightarrow> 'b thread option" where
  "for_collector NB i cs = new_unchecked NB i cs True False"

definition for_concurrent :: "'b \<Rightarrow> 64 word \<Rightarrow> bool \<Rightarrow> 'b thread option" where
  "for_concurrent NB i cs =
     map_option (\<lambda>t. t \<lparr> ignore_handshakes_and_gc := True \<rparr>) (new_unchecked NB i cs False False)"

definition attempt_fast_exec_status_transition ::
  "'b thread \<Rightarrow> thread_state \<Rightarrow> thread_state \<Rightarrow> bool \<times> 'b thread" where
  "attempt_fast_exec_status_transition t old_state new_state =
     (if exec_status t = old_state then (True, t \<lparr> exec_status := new_state \<rparr>) else (False, t))"

text \<open>The monitor of the thread: lock, notify all, drop the guard.\<close>

definition thread_lock :: "slot \<Rightarrow> 'b thread \<Rightarrow> 'b thread option" where
  "thread_lock me t = map_option (\<lambda>M. t \<lparr> monitor := M \<rparr>) (lock_no_handshake me (monitor t))"

definition thread_unlock :: "'b thread \<Rightarrow> 'b thread" where
  "thread_unlock t = t \<lparr> monitor := guard_drop (monitor t) \<rparr>"

definition thread_notify_all :: "'b thread \<Rightarrow> 'b thread" where
  "thread_notify_all t = t \<lparr> monitor := mon_notify_all (monitor t) \<rparr>"

section \<open>Block adapters\<close>

text \<open>The associated type \<open>Token\<close> of an adapter is \<open>()\<close> or \<open>bool\<close>.\<close>

datatype token = TokenUnit | TokenBool bool

record 'b block_adapter =
  ba_is_blocked :: "'b thread \<Rightarrow> bool"
  ba_set_blocked :: "'b thread \<Rightarrow> bool \<Rightarrow> 'b thread"
  ba_request_block :: "'b thread \<Rightarrow> token \<times> 'b thread"
  ba_has_block_request :: "'b thread \<Rightarrow> bool"
  ba_has_block_request_with_token :: "'b thread \<Rightarrow> token \<Rightarrow> bool"
  ba_clear_block_request :: "'b thread \<Rightarrow> 'b thread"

definition GCBlockAdapter :: "'b block_adapter" where
  "GCBlockAdapter = \<lparr>
     ba_is_blocked = is_blocked_for_gc,
     ba_set_blocked = (\<lambda>t v. t \<lparr> is_blocked_for_gc := v \<rparr>),
     ba_request_block = (\<lambda>t. (TokenBool True, t \<lparr> should_block_for_gc := True \<rparr>)),
     ba_has_block_request = should_block_for_gc,
     ba_has_block_request_with_token = (\<lambda>t _. should_block_for_gc t),
     ba_clear_block_request = (\<lambda>t. t \<lparr> should_block_for_gc := False \<rparr>) \<rparr>"

definition UnitBlockAdapter :: "'b block_adapter" where
  "UnitBlockAdapter = \<lparr>
     ba_is_blocked = (\<lambda>_. False),
     ba_set_blocked = (\<lambda>t _. t),
     ba_request_block = (\<lambda>t. (TokenUnit, t)),
     ba_has_block_request = (\<lambda>_. False),
     ba_has_block_request_with_token = (\<lambda>_ _. False),
     ba_clear_block_request = (\<lambda>t. t) \<rparr>"

text \<open>The macro \<open>block_adapter_list\<close>: a tuple of adapters, in order.\<close>

fun list_acknowledge_block_requests :: "'b block_adapter list \<Rightarrow> 'b thread \<Rightarrow> bool \<times> 'b thread" where
  "list_acknowledge_block_requests [] t = (False, t)"
| "list_acknowledge_block_requests (X # Xs) t =
     (let (had, t) = (if ba_has_block_request X t
                      then (True, ba_clear_block_request X (ba_set_blocked X t True))
                      else (False, t));
          (had_some, t) = list_acknowledge_block_requests Xs t
      in (had \<or> had_some, t))"

fun list_is_blocked :: "'b block_adapter list \<Rightarrow> 'b thread \<Rightarrow> bool" where
  "list_is_blocked [] t = False"
| "list_is_blocked (X # Xs) t = (ba_is_blocked X t \<or> list_is_blocked Xs t)"

definition acknowledge_block_requests :: "'b block_adapter list \<Rightarrow> 'b thread \<Rightarrow> 'b thread" where
  "acknowledge_block_requests Xs t =
     (let (had_some, t) = list_acknowledge_block_requests Xs t
      in if had_some then thread_notify_all t else t)"

definition is_in_managed :: "'b thread \<Rightarrow> bool" where
  "is_in_managed t \<longleftrightarrow> \<not> is_blocking t \<and> \<not> is_about_to_terminate t \<and>
     (exec_status t = InManaged \<or> exec_status t = InManagedToBlock)"

section \<open>Blocking\<close>

text \<open>
  An operation that may park the thread on a condition variable either returns or is waiting,
  with what the wait saved. \<open>check_block_no_save_context\<close> is the first pass of its loop,
  \<open>check_block_wake\<close> every further one, after a wait.
\<close>

datatype 'a blocking = Returned 'a | Parked "usize \<times> slot" 'a

definition check_block_pass ::
  "'b block_adapter list \<Rightarrow> slot \<Rightarrow> 'b thread \<Rightarrow> 'b thread blocking" where
  "check_block_pass Xs me t =
     (let t = acknowledge_block_requests Xs t
      in if list_is_blocked Xs t
         then let (s, M) = wait_begin me (monitor t) in Parked s (t \<lparr> monitor := M \<rparr>)
         else Returned (thread_unlock (t \<lparr> exec_status := InManaged, is_blocking := False \<rparr>)))"

definition check_block_no_save_context ::
  "'b block_adapter list \<Rightarrow> slot \<Rightarrow> 'b thread \<Rightarrow> 'b thread blocking option" where
  "check_block_no_save_context Xs me t = do {
     t \<leftarrow> thread_lock me t;
     Some (check_block_pass Xs me (t \<lparr> is_blocking := True \<rparr>))
   }"

definition check_block_wake ::
  "'b block_adapter list \<Rightarrow> slot \<Rightarrow> usize \<times> slot \<Rightarrow> 'b thread \<Rightarrow> 'b thread blocking option" where
  "check_block_wake Xs me s t = do {
     M \<leftarrow> wait_end me s (monitor t);
     Some (check_block_pass Xs me (t \<lparr> monitor := M \<rparr>))
   }"

text \<open>\<open>check_block\<close> and \<open>save_registers\<close> store the stack pointer; the registers are not kept.\<close>

definition check_block ::
  "'b block_adapter list \<Rightarrow> slot \<Rightarrow> address \<Rightarrow> 'b thread \<Rightarrow> 'b thread blocking option" where
  "check_block Xs me sp t = check_block_no_save_context Xs me (t \<lparr> stack_pointer := sp \<rparr>)"

definition enter_native_blocked :: "'b block_adapter list \<Rightarrow> slot \<Rightarrow> 'b thread \<Rightarrow> 'b thread option" where
  "enter_native_blocked Xs me t = do {
     t \<leftarrow> thread_lock me t;
     let t = acknowledge_block_requests Xs (t \<lparr> exec_status := BlockedInNative \<rparr>);
     Some (thread_unlock t)
   }"

definition leave_native_blocked ::
  "'b block_adapter list \<Rightarrow> slot \<Rightarrow> 'b thread \<Rightarrow> 'b thread blocking option" where
  "leave_native_blocked Xs me t = check_block_no_save_context Xs me t"

text \<open>
  The compare-and-exchange loops: an attempt fails only when another thread changed the state
  between the load and the exchange, and then the loop starts again. Run without such an
  interruption, a loop is its last round.
\<close>

definition to_blocked :: "thread_state \<Rightarrow> thread_state" where
  "to_blocked old_state = (case old_state of
     InManaged \<Rightarrow> InManagedToBlock | InNative \<Rightarrow> BlockedInNative | _ \<Rightarrow> old_state)"

definition set_blocked_exec_status :: "'b thread \<Rightarrow> thread_state \<times> 'b thread" where
  "set_blocked_exec_status t =
     (let new_state = to_blocked (exec_status t);
          (_, t) = attempt_fast_exec_status_transition t (exec_status t) new_state
      in (new_state, t))"

definition enter_native ::
  "'b block_adapter list \<Rightarrow> slot \<Rightarrow> address \<Rightarrow> 'b thread \<Rightarrow> 'b thread option" where
  "enter_native Xs me sp t =
     (let t = t \<lparr> stack_pointer := sp \<rparr>
      in if exec_status t = InManaged
         then Some (snd (attempt_fast_exec_status_transition t InManaged InNative))
         else enter_native_blocked Xs me t)"

definition attempt_leave_native_no_block :: "'b thread \<Rightarrow> bool \<times> 'b thread" where
  "attempt_leave_native_no_block t =
     (if exec_status t = InNative then attempt_fast_exec_status_transition t InNative InManaged
      else (False, t))"

definition leave_native ::
  "'b block_adapter list \<Rightarrow> slot \<Rightarrow> 'b thread \<Rightarrow> 'b thread blocking option" where
  "leave_native Xs me t =
     (case attempt_leave_native_no_block t of
        (True, t) \<Rightarrow> Some (Returned t)
      | (False, t) \<Rightarrow> leave_native_blocked Xs me t)"

section \<open>Requests from other threads\<close>

text \<open>
  \<open>block_unchecked\<close> called by another thread \<open>me\<close>: it returns the state it found, or it parks on
  the target's monitor until the target has blocked. A thread that blocks itself runs
  \<open>check_block\<close> under its own monitor.
\<close>

definition block_wait ::
  "'b block_adapter \<Rightarrow> token \<Rightarrow> slot \<Rightarrow> 'b thread \<Rightarrow> (thread_state \<times> 'b thread) blocking" where
  "block_wait A tok me t =
     (if ba_has_block_request_with_token A t tok \<and> \<not> ba_is_blocked A t \<and> \<not> is_about_to_terminate t
      then let (s, M) = wait_begin me (monitor t) in Parked s (InManagedToBlock, t \<lparr> monitor := M \<rparr>)
      else Returned (if is_about_to_terminate t then Terminated else exec_status t, thread_unlock t))"

definition block_unchecked ::
  "'b block_adapter \<Rightarrow> slot \<Rightarrow> bool \<Rightarrow> 'b thread \<Rightarrow> (thread_state \<times> 'b thread) blocking option" where
  "block_unchecked A me asynchronous t = do {
     t \<leftarrow> thread_lock me t;
     let (tok, t) = ba_request_block A t;
     if is_about_to_terminate t then Some (Returned (Terminated, thread_unlock t))
     else do {
       let t = t \<lparr> take_yieldpoint := 1 \<rparr>;
       let (new_state, t) = set_blocked_exec_status t;
       let t = thread_notify_all t;
       if new_state = InManagedToBlock
       then (if \<not> asynchronous then Some (block_wait A tok me t)
             else Some (Returned (new_state, thread_unlock t)))
       else if new_state = BlockedInNative
       then Some (Returned (new_state, thread_unlock (ba_set_blocked A (ba_clear_block_request A t) True)))
       else Some (Returned (new_state, thread_unlock t))
     }
   }"

definition block_wake ::
  "'b block_adapter \<Rightarrow> token \<Rightarrow> slot \<Rightarrow> usize \<times> slot \<Rightarrow> 'b thread
     \<Rightarrow> (thread_state \<times> 'b thread) blocking option" where
  "block_wake A tok me s t = do {
     M \<leftarrow> wait_end me s (monitor t);
     Some (block_wait A tok me (t \<lparr> monitor := M \<rparr>))
   }"

definition block_self ::
  "'b block_adapter list \<Rightarrow> 'b block_adapter \<Rightarrow> slot \<Rightarrow> address \<Rightarrow> 'b thread \<Rightarrow> 'b thread blocking option" where
  "block_self Xs A me sp t = do {
     t \<leftarrow> thread_lock me t;
     let (tok, t) = ba_request_block A t;
     r \<leftarrow> check_block Xs me sp t;
     Some (case r of Returned t \<Rightarrow> Returned (thread_unlock t) | Parked s t \<Rightarrow> Parked s t)
   }"

definition block_self_wake ::
  "'b block_adapter list \<Rightarrow> slot \<Rightarrow> usize \<times> slot \<Rightarrow> 'b thread \<Rightarrow> 'b thread blocking option" where
  "block_self_wake Xs me s t = do {
     r \<leftarrow> check_block_wake Xs me s t;
     Some (case r of Returned t \<Rightarrow> Returned (thread_unlock t) | Parked s t \<Rightarrow> Parked s t)
   }"

definition unblock :: "'b block_adapter \<Rightarrow> slot \<Rightarrow> 'b thread \<Rightarrow> 'b thread option" where
  "unblock A me t = do {
     t \<leftarrow> thread_lock me t;
     let t = ba_set_blocked A (ba_clear_block_request A t) False;
     Some (thread_unlock (thread_notify_all t))
   }"

section \<open>Yieldpoints\<close>

definition yieldpoints_enabled :: "'b thread \<Rightarrow> bool" where
  "yieldpoints_enabled t \<longleftrightarrow> yieldpoints_enabled_count t = 1"

definition enable_yieldpoints :: "'b thread \<Rightarrow> 'b thread" where
  "enable_yieldpoints t =
     (let t = t \<lparr> yieldpoints_enabled_count := yieldpoints_enabled_count t + 1 \<rparr>
      in if yieldpoints_enabled t \<and> yieldpoint_request_pending t
         then t \<lparr> take_yieldpoint := 1, yieldpoint_request_pending := False \<rparr> else t)"

definition disable_yieldpoints :: "'b thread \<Rightarrow> 'b thread" where
  "disable_yieldpoints t = t \<lparr> yieldpoints_enabled_count := yieldpoints_enabled_count t - 1 \<rparr>"

text \<open>
  \<open>yieldpoint\<close>, up to its end or to the wait in \<open>check_block\<close>, and from that wait on. The three
  hooks of the runtime's thread context are its own; the guard the yieldpoint holds on the
  monitor stays in scope around \<open>check_block\<close>, so that lock is entered twice.
\<close>

definition yieldpoint_end :: "'b thread \<Rightarrow> 'b thread" where
  "yieldpoint_end t = (thread_unlock t) \<lparr> at_yieldpoint := False \<rparr>"

definition yieldpoint_check :: "'b thread blocking \<Rightarrow> 'b thread blocking" where
  "yieldpoint_check r = (case r of Returned t \<Rightarrow> Returned (yieldpoint_end t) | Parked s t \<Rightarrow> Parked s t)"

definition yieldpoint ::
  "'b block_adapter list \<Rightarrow> slot \<Rightarrow> address \<Rightarrow> 'b thread \<Rightarrow> 'b thread blocking option" where
  "yieldpoint Xs me sp t =
     (let t = t \<lparr> at_yieldpoint := True \<rparr>
      in if \<not> yieldpoints_enabled t
         then Some (Returned (t \<lparr> yieldpoint_request_pending := True, take_yieldpoint := 0,
                                  at_yieldpoint := False \<rparr>))
         else do {
           t \<leftarrow> thread_lock me t;
           if take_yieldpoint t \<noteq> 0
           then map_option yieldpoint_check (check_block Xs me sp (t \<lparr> take_yieldpoint := 0 \<rparr>))
           else Some (Returned (yieldpoint_end t))
         })"

definition yieldpoint_wake ::
  "'b block_adapter list \<Rightarrow> slot \<Rightarrow> usize \<times> slot \<Rightarrow> 'b thread \<Rightarrow> 'b thread blocking option" where
  "yieldpoint_wake Xs me s t = map_option yieldpoint_check (check_block_wake Xs me s t)"

section \<open>Termination\<close>

text \<open>
  \<open>terminate\<close> and the part of \<open>add_about_to_terminate\<close> that concerns the thread itself; the
  registration with the thread manager follows it. It destroys the mutator without asking
  whether one was bound: for a thread without mutator that is undefined, here \<^const>\<open>None\<close>.
\<close>

definition add_about_to_terminate :: "slot \<Rightarrow> 'b thread \<Rightarrow> 'b thread option" where
  "add_about_to_terminate me t = do {
     t \<leftarrow> thread_lock me t;
     let t = thread_notify_all (t \<lparr> is_about_to_terminate := True, active_mutator_context := False \<rparr>);
     if mutator_bound t then Some ((thread_unlock t) \<lparr> mutator_bound := False \<rparr>) else None
   }"

definition thread_terminate :: "slot \<Rightarrow> 'b thread \<Rightarrow> 'b thread option" where
  "thread_terminate me t = add_about_to_terminate me (thread_notify_all (t \<lparr> is_joinable := True \<rparr>))"

section \<open>The contract of a block adapter\<close>

text \<open>
  What the thread system relies on: the operations touch only the flags of the adapter, which
  \<^term>\<open>obs\<close> hides, and a request and its acknowledgement are independent flags. An adapter
  that really blocks, unlike \<open>()\<close>, also remembers what it was told.
\<close>

locale adapter =
  fixes blocked :: "'t \<Rightarrow> bool"
    and set_blocked :: "'t \<Rightarrow> bool \<Rightarrow> 't"
    and request :: "'t \<Rightarrow> token \<times> 't"
    and requested :: "'t \<Rightarrow> bool"
    and requested_with :: "'t \<Rightarrow> token \<Rightarrow> bool"
    and clear :: "'t \<Rightarrow> 't"
    and obs :: "'t \<Rightarrow> 'o"
  assumes set_blocked_obs: "obs (set_blocked t v) = obs t"
    and request_obs: "obs (snd (request t)) = obs t"
    and clear_obs: "obs (clear t) = obs t"
    and clear_requested: "\<not> requested (clear t)"
    and clear_blocked: "blocked (clear t) = blocked t"
    and set_blocked_requested: "requested (set_blocked t v) = requested t"
    and set_unblocked: "\<not> blocked (set_blocked t False)"
    and requested_with_token: "requested_with t tok \<Longrightarrow> requested t"
begin

definition acknowledge :: "'t \<Rightarrow> 't" where
  "acknowledge t = (if requested t then clear (set_blocked t True) else t)"

lemma acknowledge_requested: "\<not> requested (acknowledge t)"
  by (simp add: acknowledge_def clear_requested)

lemma acknowledge_obs: "obs (acknowledge t) = obs t"
  by (simp add: acknowledge_def clear_obs set_blocked_obs)

lemma acknowledge_idem: "acknowledge (acknowledge t) = acknowledge t"
  by (simp add: acknowledge_def clear_requested)

lemma unblock_clears: "\<not> blocked (set_blocked (clear t) False) \<and> \<not> requested (set_blocked (clear t) False)"
  by (simp add: set_unblocked set_blocked_requested clear_requested)

end

locale blocking_adapter = adapter +
  assumes set_blocked_blocked: "blocked (set_blocked t True)"
    and request_requested: "requested (snd (request t))"
    and request_blocked: "blocked (snd (request t)) = blocked t"
begin

lemma acknowledge_blocked: "blocked (acknowledge t) \<longleftrightarrow> blocked t \<or> requested t"
  by (simp add: acknowledge_def clear_blocked set_blocked_blocked)

text \<open>A request is served by the next acknowledgement, and by nothing less.\<close>

lemma request_then_acknowledge:
  "blocked (acknowledge (snd (request t))) \<and> obs (acknowledge (snd (request t))) = obs t"
  by (simp add: acknowledge_blocked request_requested acknowledge_obs request_obs)

end

text \<open>A thread without the two flags of the garbage collector's adapter.\<close>

definition thread_obs :: "'b thread \<Rightarrow> 'b thread" where
  "thread_obs t = t \<lparr> is_blocked_for_gc := False, should_block_for_gc := False \<rparr>"

interpretation gc_adapter: blocking_adapter
  "ba_is_blocked GCBlockAdapter" "ba_set_blocked GCBlockAdapter" "ba_request_block GCBlockAdapter"
  "ba_has_block_request GCBlockAdapter" "ba_has_block_request_with_token GCBlockAdapter"
  "ba_clear_block_request GCBlockAdapter" thread_obs
  by unfold_locales (simp_all add: GCBlockAdapter_def thread_obs_def)

interpretation unit_adapter: adapter
  "ba_is_blocked UnitBlockAdapter" "ba_set_blocked UnitBlockAdapter" "ba_request_block UnitBlockAdapter"
  "ba_has_block_request UnitBlockAdapter" "ba_has_block_request_with_token UnitBlockAdapter"
  "ba_clear_block_request UnitBlockAdapter" thread_obs
  by unfold_locales (simp_all add: UnitBlockAdapter_def)

text \<open>The adapter lists of the sources' own runtimes: the collector's adapter, and units.\<close>

definition gc_list :: "'b block_adapter list \<Rightarrow> bool" where
  "gc_list Xs \<longleftrightarrow> GCBlockAdapter \<in> set Xs \<and> set Xs \<subseteq> {GCBlockAdapter, UnitBlockAdapter}"

lemma adapter_simps [simp]:
  "ba_is_blocked GCBlockAdapter t = is_blocked_for_gc t"
  "ba_set_blocked GCBlockAdapter t v = t \<lparr> is_blocked_for_gc := v \<rparr>"
  "ba_request_block GCBlockAdapter t = (TokenBool True, t \<lparr> should_block_for_gc := True \<rparr>)"
  "ba_has_block_request GCBlockAdapter t = should_block_for_gc t"
  "ba_has_block_request_with_token GCBlockAdapter t tok = should_block_for_gc t"
  "ba_clear_block_request GCBlockAdapter t = t \<lparr> should_block_for_gc := False \<rparr>"
  "ba_is_blocked UnitBlockAdapter t = False"
  "ba_set_blocked UnitBlockAdapter t v = t"
  "ba_has_block_request UnitBlockAdapter t = False"
  "ba_clear_block_request UnitBlockAdapter t = t"
  by (simp_all add: GCBlockAdapter_def UnitBlockAdapter_def)

lemma unit_list_acknowledge:
  "set Xs \<subseteq> {GCBlockAdapter, UnitBlockAdapter} \<Longrightarrow> \<not> should_block_for_gc t \<Longrightarrow>
     list_acknowledge_block_requests Xs t = (False, t)"
  by (induction Xs) auto

lemma gc_list_acknowledge:
  assumes "gc_list Xs"
  shows "list_acknowledge_block_requests Xs t =
    (should_block_for_gc t,
     if should_block_for_gc t then t \<lparr> is_blocked_for_gc := True, should_block_for_gc := False \<rparr> else t)"
proof -
  have sub: "set Xs \<subseteq> {GCBlockAdapter, UnitBlockAdapter}" and mem: "GCBlockAdapter \<in> set Xs"
    using assms by (simp_all add: gc_list_def)
  show ?thesis
  proof (cases "should_block_for_gc t")
    case True
    with sub mem have "list_acknowledge_block_requests Xs t =
        (True, t \<lparr> is_blocked_for_gc := True, should_block_for_gc := False \<rparr>)"
    proof (induction Xs)
      case Nil
      from Nil(2) show ?case by simp
    next
      case (Cons X Xs)
      show ?case
      proof (cases "X = GCBlockAdapter")
        case True
        have "set Xs \<subseteq> {GCBlockAdapter, UnitBlockAdapter}" using Cons.prems(1) by simp
        from unit_list_acknowledge [OF this] show ?thesis
          using True Cons.prems(3) by simp
      next
        case False
        then have "X = UnitBlockAdapter" and "GCBlockAdapter \<in> set Xs"
          and "set Xs \<subseteq> {GCBlockAdapter, UnitBlockAdapter}"
          using Cons.prems(1,2) by auto
        then show ?thesis using Cons.IH Cons.prems(3) by simp
      qed
    qed
    with True show ?thesis by simp
  next
    case False
    then show ?thesis using unit_list_acknowledge [OF sub False] by simp
  qed
qed

lemma gc_list_is_blocked: "gc_list Xs \<Longrightarrow> list_is_blocked Xs t = is_blocked_for_gc t"
proof -
  have "set Xs \<subseteq> {GCBlockAdapter, UnitBlockAdapter} \<Longrightarrow>
      list_is_blocked Xs t = (GCBlockAdapter \<in> set Xs \<and> is_blocked_for_gc t)"
  proof (induction Xs)
    case (Cons X Xs)
    then show ?case by (cases "X = GCBlockAdapter") auto
  qed simp
  then show "gc_list Xs \<Longrightarrow> list_is_blocked Xs t = is_blocked_for_gc t" by (simp add: gc_list_def)
qed

lemma acknowledge_gc_list:
  assumes "gc_list Xs"
  shows "acknowledge_block_requests Xs t =
    (if should_block_for_gc t
     then t \<lparr> is_blocked_for_gc := True, should_block_for_gc := False, monitor := mon_notify_all (monitor t) \<rparr>
     else t)"
  using gc_list_acknowledge [OF assms, of t]
  by (simp add: acknowledge_block_requests_def thread_notify_all_def)

section \<open>The monitor of a thread between operations\<close>

definition mon_free :: "Vmkit_Monitor.monitor \<Rightarrow> bool" where
  "mon_free M \<longleftrightarrow> mutex M = None \<and> holder M = 0 \<and> rec_count M = 0"

definition mon_held :: "slot \<Rightarrow> usize \<Rightarrow> slot list \<Rightarrow> Vmkit_Monitor.monitor" where
  "mon_held me n c = \<lparr> mutex = Some me, rec_count = n, holder = me, cvar = c \<rparr>"

lemma lock_free:
  "mon_free (monitor t) \<Longrightarrow> me \<noteq> 0 \<Longrightarrow>
     thread_lock me t = Some (t \<lparr> monitor := mon_held me 1 (cvar (monitor t)) \<rparr>)"
  by (cases "monitor t") (simp add: thread_lock_def lock_no_handshake_def mutex_lock_def mon_free_def mon_held_def)

lemma lock_held [simp]:
  "thread_lock me (t \<lparr> monitor := mon_held me n c \<rparr>) = Some (t \<lparr> monitor := mon_held me (n + 1) c \<rparr>)"
  by (simp add: thread_lock_def lock_no_handshake_def mon_held_def)

lemma held_simps [simp]:
  "guard_drop (mon_held me 1 c) = \<lparr> mutex = None, rec_count = 0, holder = 0, cvar = c \<rparr>"
  "guard_drop (mon_held me 2 c) = mon_held me 1 c"
  "mon_notify_all (mon_held me n c) = mon_held me n []"
  "wait_begin me (mon_held me n c) = ((n, me), \<lparr> mutex = None, rec_count = 0, holder = 0, cvar = c @ [me] \<rparr>)"
  by (simp_all add: mon_held_def guard_drop_def mon_notify_all_def wait_begin_def Let_def)

lemma wake_free:
  "mon_free M \<Longrightarrow> wait_end me (n, me) M = (if me \<in> set (cvar M) then None else Some (mon_held me n (cvar M)))"
  by (cases M) (simp add: wait_end_def mutex_lock_def mon_free_def mon_held_def)

lemma mon_free_simps [simp]:
  "mon_free \<lparr> mutex = None, rec_count = 0, holder = 0, cvar = c \<rparr>" "mon_free mon_new"
  by (simp_all add: mon_free_def mon_new_def)

section \<open>Operations on a free monitor\<close>

text \<open>The operations on a thread whose monitor is free, as one equation each.\<close>

abbreviation freed :: "slot list \<Rightarrow> Vmkit_Monitor.monitor" where
  "freed c \<equiv> \<lparr> mutex = None, rec_count = 0, holder = 0, cvar = c \<rparr>"

definition parked_thread :: "slot \<Rightarrow> 'b thread \<Rightarrow> 'b thread" where
  "parked_thread me t = t \<lparr> is_blocking := True, is_blocked_for_gc := True, should_block_for_gc := False,
     monitor := freed ((if should_block_for_gc t then [] else cvar (monitor t)) @ [me]) \<rparr>"

definition resumed_thread :: "'b thread \<Rightarrow> 'b thread" where
  "resumed_thread t = t \<lparr> exec_status := InManaged, is_blocking := False, monitor := freed (cvar (monitor t)) \<rparr>"

definition wants_block :: "'b thread \<Rightarrow> bool" where
  "wants_block t \<longleftrightarrow> should_block_for_gc t \<or> is_blocked_for_gc t"

lemma check_block_pass_held:
  assumes "gc_list Xs" and "is_blocking t" and "monitor t = mon_held me n c"
  shows "check_block_pass Xs me t =
    (if wants_block t then Parked (n, me) (parked_thread me t)
     else Returned (thread_unlock (t \<lparr> exec_status := InManaged, is_blocking := False \<rparr>)))"
proof -
  have c: "cvar (monitor t) = c" using assms(3) by (simp add: mon_held_def)
  have "t \<lparr> is_blocked_for_gc := True, should_block_for_gc := False, monitor := M \<rparr> =
      t \<lparr> is_blocking := True, is_blocked_for_gc := True, should_block_for_gc := False, monitor := M \<rparr>" for M
    using assms(2) by (cases t) simp
  moreover have "t \<lparr> monitor := M \<rparr> =
      t \<lparr> is_blocking := True, is_blocked_for_gc := True, should_block_for_gc := False, monitor := M \<rparr>"
    if "is_blocked_for_gc t" "\<not> should_block_for_gc t" for M
    using assms(2) that by (cases t) simp
  ultimately show ?thesis
    using assms c
    by (simp add: check_block_pass_def acknowledge_gc_list gc_list_is_blocked wants_block_def parked_thread_def)
qed

lemma check_block_free:
  assumes "gc_list Xs" and "mon_free (monitor t)" and "me \<noteq> 0"
  shows "check_block_no_save_context Xs me t =
    Some (if wants_block t then Parked (1, me) (parked_thread me t) else Returned (resumed_thread t))"
proof -
  let ?t = "t \<lparr> monitor := mon_held me 1 (cvar (monitor t)), is_blocking := True \<rparr>"
  have w: "wants_block ?t = wants_block t" by (simp add: wants_block_def)
  have p: "parked_thread me ?t = parked_thread me t"
    by (cases t) (simp add: parked_thread_def mon_held_def)
  have r: "thread_unlock (?t \<lparr> exec_status := InManaged, is_blocking := False \<rparr>) = resumed_thread t"
    by (cases t) (simp add: thread_unlock_def resumed_thread_def)
  have "check_block_pass Xs me ?t = (if wants_block t then Parked (1, me) (parked_thread me t)
      else Returned (resumed_thread t))"
    unfolding p [symmetric] w [symmetric] r [symmetric] by (rule check_block_pass_held [OF assms(1)]) simp_all
  then show ?thesis
    by (simp add: check_block_no_save_context_def lock_free [OF assms(2,3)])
qed

lemma check_block_wake_free:
  assumes "gc_list Xs" and "mon_free (monitor t)" and "is_blocking t"
  shows "check_block_wake Xs me (n, me) t =
    (if me \<in> set (cvar (monitor t)) then None
     else Some (if wants_block t then Parked (n, me) (parked_thread me t)
       else Returned (thread_unlock (t \<lparr> exec_status := InManaged, is_blocking := False,
         monitor := mon_held me n (cvar (monitor t)) \<rparr>))))"
proof -
  let ?t = "t \<lparr> monitor := mon_held me n (cvar (monitor t)) \<rparr>"
  have w: "wants_block ?t = wants_block t" by (simp add: wants_block_def)
  have p: "parked_thread me ?t = parked_thread me t"
    by (cases t) (simp add: parked_thread_def mon_held_def)
  have u: "?t \<lparr> exec_status := InManaged, is_blocking := False \<rparr> =
      t \<lparr> exec_status := InManaged, is_blocking := False, monitor := mon_held me n (cvar (monitor t)) \<rparr>"
    by (cases t) simp
  have "check_block_pass Xs me ?t = (if wants_block t then Parked (n, me) (parked_thread me t)
      else Returned (thread_unlock (t \<lparr> exec_status := InManaged, is_blocking := False,
         monitor := mon_held me n (cvar (monitor t)) \<rparr>)))"
    unfolding p [symmetric] w [symmetric] u [symmetric]
    by (rule check_block_pass_held [OF assms(1)]) (simp_all add: assms(3))
  then show ?thesis
    by (simp add: check_block_wake_def wake_free [OF assms(2)])
qed

lemma enter_native_blocked_free:
  assumes "gc_list Xs" and "mon_free (monitor t)" and "me \<noteq> 0"
  shows "enter_native_blocked Xs me t = Some (t \<lparr> exec_status := BlockedInNative,
    is_blocked_for_gc := wants_block t, should_block_for_gc := False,
    monitor := freed (if should_block_for_gc t then [] else cvar (monitor t)) \<rparr>)"
  by (auto simp: enter_native_blocked_def lock_free [OF assms(2,3)] acknowledge_gc_list [OF assms(1)]
      wants_block_def thread_unlock_def; cases t; simp)

lemma unblock_free:
  assumes "mon_free (monitor t)" and "me \<noteq> 0"
  shows "unblock GCBlockAdapter me t =
    Some (t \<lparr> is_blocked_for_gc := False, should_block_for_gc := False, monitor := freed [] \<rparr>)"
  by (simp add: unblock_def lock_free [OF assms] thread_unlock_def thread_notify_all_def; cases t; simp)

lemma set_blocked_eq: "set_blocked_exec_status t = (to_blocked (exec_status t), t \<lparr> exec_status := to_blocked (exec_status t) \<rparr>)"
  by (simp add: set_blocked_exec_status_def attempt_fast_exec_status_transition_def Let_def)

definition requested_thread :: "'b thread \<Rightarrow> 'b thread" where
  "requested_thread t = t \<lparr> should_block_for_gc := True, take_yieldpoint := 1,
     exec_status := to_blocked (exec_status t), monitor := freed [] \<rparr>"

lemma block_unchecked_free:
  assumes "mon_free (monitor t)" and "me \<noteq> 0"
  shows "block_unchecked GCBlockAdapter me asynchronous t = Some (
    if is_about_to_terminate t
    then Returned (Terminated, t \<lparr> should_block_for_gc := True, monitor := freed (cvar (monitor t)) \<rparr>)
    else if to_blocked (exec_status t) = InManagedToBlock \<and> \<not> asynchronous \<and> \<not> is_blocked_for_gc t
    then Parked (1, me) (InManagedToBlock, (requested_thread t) \<lparr> monitor := freed [me] \<rparr>)
    else if to_blocked (exec_status t) = BlockedInNative
    then Returned (BlockedInNative, (requested_thread t) \<lparr> should_block_for_gc := False, is_blocked_for_gc := True \<rparr>)
    else Returned (to_blocked (exec_status t), requested_thread t))"
  by (simp add: block_unchecked_def lock_free [OF assms] set_blocked_eq block_wait_def
      thread_unlock_def thread_notify_all_def requested_thread_def Let_def)

lemma block_wake_free:
  assumes "mon_free (monitor t)"
  shows "block_wake GCBlockAdapter tok me (1, me) t =
    (if me \<in> set (cvar (monitor t)) then None
     else Some (if should_block_for_gc t \<and> \<not> is_blocked_for_gc t \<and> \<not> is_about_to_terminate t
       then Parked (1, me) (InManagedToBlock, t \<lparr> monitor := freed (cvar (monitor t) @ [me]) \<rparr>)
       else Returned (if is_about_to_terminate t then Terminated else exec_status t,
              t \<lparr> monitor := freed (cvar (monitor t)) \<rparr>)))"
  by (simp add: block_wake_def wake_free [OF assms] block_wait_def thread_unlock_def; cases t; simp)

lemma yieldpoint_free:
  assumes "gc_list Xs" and "mon_free (monitor t)" and "me \<noteq> 0"
  shows "yieldpoint Xs me sp t = Some (
    if \<not> yieldpoints_enabled t
    then Returned (t \<lparr> at_yieldpoint := False, yieldpoint_request_pending := True, take_yieldpoint := 0 \<rparr>)
    else if take_yieldpoint t = 0
    then Returned (t \<lparr> at_yieldpoint := False, monitor := freed (cvar (monitor t)) \<rparr>)
    else if wants_block t
    then Parked (2, me) (parked_thread me (t \<lparr> at_yieldpoint := True, take_yieldpoint := 0, stack_pointer := sp \<rparr>))
    else Returned (resumed_thread (t \<lparr> at_yieldpoint := False, take_yieldpoint := 0, stack_pointer := sp \<rparr>)))"
proof -
  let ?t = "t \<lparr> at_yieldpoint := True, take_yieldpoint := 0, stack_pointer := sp \<rparr>"
  let ?h = "t \<lparr> at_yieldpoint := True, monitor := mon_held me 1 (cvar (monitor t)), take_yieldpoint := 0 \<rparr>"
  let ?k = "?t \<lparr> monitor := mon_held me 2 (cvar (monitor t)), is_blocking := True \<rparr>"
  have f: "mon_free (monitor (t \<lparr> at_yieldpoint := True \<rparr>))" using assms(2) by simp
  have w: "wants_block ?k = wants_block t" by (simp add: wants_block_def)
  have p: "parked_thread me ?k = parked_thread me ?t"
    by (cases t) (simp add: parked_thread_def mon_held_def)
  have r: "yieldpoint_end (thread_unlock (?k \<lparr> exec_status := InManaged, is_blocking := False \<rparr>)) =
      resumed_thread (t \<lparr> at_yieldpoint := False, take_yieldpoint := 0, stack_pointer := sp \<rparr>)"
    by (cases t) (simp add: thread_unlock_def resumed_thread_def yieldpoint_end_def)
  have "check_block Xs me sp ?h = Some (check_block_pass Xs me ?k)"
    by (cases t) (simp add: check_block_def check_block_no_save_context_def thread_lock_def
        lock_no_handshake_def mon_held_def)
  also have "check_block_pass Xs me ?k = (if wants_block t then Parked (2, me) (parked_thread me ?t)
      else Returned (thread_unlock (?k \<lparr> exec_status := InManaged, is_blocking := False \<rparr>)))"
    unfolding p [symmetric] w [symmetric] by (rule check_block_pass_held [OF assms(1)]) simp_all
  finally have "map_option yieldpoint_check (check_block Xs me sp ?h) =
      Some (if wants_block t then Parked (2, me) (parked_thread me ?t)
        else Returned (resumed_thread (t \<lparr> at_yieldpoint := False, take_yieldpoint := 0, stack_pointer := sp \<rparr>)))"
    by (simp add: yieldpoint_check_def r [simplified])
  moreover have "t \<lparr> at_yieldpoint := True, yieldpoint_request_pending := True, take_yieldpoint := 0,
        at_yieldpoint := False \<rparr> =
      t \<lparr> at_yieldpoint := False, yieldpoint_request_pending := True, take_yieldpoint := 0 \<rparr>"
    and "yieldpoint_end (t \<lparr> at_yieldpoint := True, monitor := mon_held me 1 (cvar (monitor t)) \<rparr>) =
      t \<lparr> at_yieldpoint := False, monitor := freed (cvar (monitor t)) \<rparr>"
    by (cases t; simp add: yieldpoint_end_def thread_unlock_def)+
  ultimately show ?thesis
    by (simp add: yieldpoint_def lock_free [OF f assms(3)] yieldpoints_enabled_def Let_def)
qed

lemma yieldpoint_wake_free:
  assumes "gc_list Xs" and "mon_free (monitor t)" and "is_blocking t"
  shows "yieldpoint_wake Xs me (2, me) t =
    (if me \<in> set (cvar (monitor t)) then None
     else Some (if wants_block t then Parked (2, me) (parked_thread me t)
       else Returned ((resumed_thread t) \<lparr> at_yieldpoint := False \<rparr>)))"
proof -
  have "yieldpoint_end (thread_unlock (t \<lparr> exec_status := InManaged, is_blocking := False,
      monitor := mon_held me 2 (cvar (monitor t)) \<rparr>)) = (resumed_thread t) \<lparr> at_yieldpoint := False \<rparr>"
    by (cases t) (simp add: yieldpoint_end_def thread_unlock_def resumed_thread_def)
  then show ?thesis
    by (simp add: yieldpoint_wake_def check_block_wake_free [OF assms] yieldpoint_check_def)
qed

lemma parked_thread_simps [simp]:
  "mon_free (monitor (parked_thread me t))"
  "exec_status (parked_thread me t) = exec_status t"
  "is_blocking (parked_thread me t)" "is_blocked_for_gc (parked_thread me t)"
  "is_about_to_terminate (parked_thread me t) = is_about_to_terminate t"
  by (simp_all add: parked_thread_def)

lemma resumed_thread_simps [simp]:
  "mon_free (monitor (resumed_thread t))" "exec_status (resumed_thread t) = InManaged"
  "\<not> is_blocking (resumed_thread t)" "is_blocked_for_gc (resumed_thread t) = is_blocked_for_gc t"
  "should_block_for_gc (resumed_thread t) = should_block_for_gc t"
  "is_about_to_terminate (resumed_thread t) = is_about_to_terminate t"
  by (simp_all add: resumed_thread_def)

lemma requested_thread_simps [simp]:
  "mon_free (monitor (requested_thread t))" "exec_status (requested_thread t) = to_blocked (exec_status t)"
  "is_blocking (requested_thread t) = is_blocking t" "should_block_for_gc (requested_thread t)"
  "is_blocked_for_gc (requested_thread t) = is_blocked_for_gc t"
  "is_about_to_terminate (requested_thread t) = is_about_to_terminate t"
  by (simp_all add: requested_thread_def)

end
