(* ===== verification/Vmkit_StopWorld.thy ===== *)
theory Vmkit_StopWorld
  imports Vmkit_Thread
begin

text \<open>
  The protocol between one mutator and the collector's thread (\<open>threading.rs\<close>, the comments of
  \<open>ThreadState\<close> and of \<open>block_unchecked\<close>): every interleaving of what the mutator does at its
  safepoints with the requests of the collector. Each step is one critical section of the
  thread's monitor or one compare-and-exchange of its state, run by the definitions of
  \<open>Vmkit_Thread\<close>; mutual exclusion of the critical sections is the monitor's
  (\<open>Vmkit_Monitor\<close>). What a step may do is limited only by where the mutator's code is.
\<close>

text \<open>Why a thread is parked inside \<open>check_block\<close>, and so what it does when it goes on.\<close>

datatype parked_at = AtYieldpoint | AtLeaveNative | AtSelfBlock

datatype mutator_pc =
    Running
  | EnteringNative
  | InNativeCode
  | LeavingNative
  | ParkedIn parked_at "usize \<times> slot"
  | Dying

datatype gc_pc = GcIdle | GcWaiting "usize \<times> slot"

text \<open>
  \<^term>\<open>gc_stopped\<close> records that a synchronous block of the mutator has returned and no unblock
  followed: the collector relies on the mutator standing still.
\<close>

record 'b world =
  thr :: "'b thread"
  mutator_at :: mutator_pc
  gc_at :: gc_pc
  gc_stopped :: bool

text \<open>The stack pointer \<^term>\<open>sp\<close> a mutator saves is that of a running thread, and so is not null.\<close>

fun after_check :: "parked_at \<Rightarrow> 'b thread blocking \<Rightarrow> 'b world \<Rightarrow> 'b world" where
  "after_check c (Returned t) W = W \<lparr> thr := t, mutator_at := Running \<rparr>"
| "after_check c (Parked s t) W = W \<lparr> thr := t, mutator_at := ParkedIn c s \<rparr>"

fun after_block :: "bool \<Rightarrow> (thread_state \<times> 'b thread) blocking \<Rightarrow> 'b world \<Rightarrow> 'b world" where
  "after_block asynchronous (Returned (st, t)) W =
     W \<lparr> thr := t, gc_at := GcIdle, gc_stopped := (gc_stopped W \<or> \<not> asynchronous) \<rparr>"
| "after_block asynchronous (Parked s (st, t)) W = W \<lparr> thr := t, gc_at := GcWaiting s \<rparr>"

inductive world_step :: "'b block_adapter list \<Rightarrow> slot \<Rightarrow> slot \<Rightarrow> 'b world \<Rightarrow> 'b world \<Rightarrow> bool"
  for Xs :: "'b block_adapter list" and me :: slot and gc :: slot where
  yield: "mutator_at W = Running \<Longrightarrow> sp \<noteq> 0 \<Longrightarrow> yieldpoint Xs me sp (thr W) = Some r \<Longrightarrow>
    world_step Xs me gc W (after_check AtYieldpoint r W)"
| yield_wake: "mutator_at W = ParkedIn AtYieldpoint s \<Longrightarrow> yieldpoint_wake Xs me s (thr W) = Some r \<Longrightarrow>
    world_step Xs me gc W (after_check AtYieldpoint r W)"
| self_block: "mutator_at W = Running \<Longrightarrow> sp \<noteq> 0 \<Longrightarrow> block_self Xs GCBlockAdapter me sp (thr W) = Some r \<Longrightarrow>
    world_step Xs me gc W (after_check AtSelfBlock r W)"
| self_wake: "mutator_at W = ParkedIn AtSelfBlock s \<Longrightarrow> block_self_wake Xs me s (thr W) = Some r \<Longrightarrow>
    world_step Xs me gc W (after_check AtSelfBlock r W)"
| enter_fast: "mutator_at W = Running \<Longrightarrow> sp \<noteq> 0 \<Longrightarrow> exec_status (thr W) = InManaged \<Longrightarrow>
    enter_native Xs me sp (thr W) = Some t \<Longrightarrow>
    world_step Xs me gc W (W \<lparr> thr := t, mutator_at := InNativeCode \<rparr>)"
| enter_load: "mutator_at W = Running \<Longrightarrow> sp \<noteq> 0 \<Longrightarrow> exec_status (thr W) \<noteq> InManaged \<Longrightarrow>
    world_step Xs me gc W (W \<lparr> thr := (thr W) \<lparr> stack_pointer := sp \<rparr>, mutator_at := EnteringNative \<rparr>)"
| enter_slow: "mutator_at W = EnteringNative \<Longrightarrow> enter_native_blocked Xs me (thr W) = Some t \<Longrightarrow>
    world_step Xs me gc W (W \<lparr> thr := t, mutator_at := InNativeCode \<rparr>)"
| leave_fast: "mutator_at W = InNativeCode \<Longrightarrow> attempt_leave_native_no_block (thr W) = (True, t) \<Longrightarrow>
    world_step Xs me gc W (W \<lparr> thr := t, mutator_at := Running \<rparr>)"
| leave_load: "mutator_at W = InNativeCode \<Longrightarrow> attempt_leave_native_no_block (thr W) = (False, t) \<Longrightarrow>
    world_step Xs me gc W (W \<lparr> thr := t, mutator_at := LeavingNative \<rparr>)"
| leave_slow: "mutator_at W = LeavingNative \<Longrightarrow> leave_native_blocked Xs me (thr W) = Some r \<Longrightarrow>
    world_step Xs me gc W (after_check AtLeaveNative r W)"
| leave_wake: "mutator_at W = ParkedIn AtLeaveNative s \<Longrightarrow> check_block_wake Xs me s (thr W) = Some r \<Longrightarrow>
    world_step Xs me gc W (after_check AtLeaveNative r W)"
| enable: "mutator_at W = Running \<Longrightarrow>
    world_step Xs me gc W (W \<lparr> thr := enable_yieldpoints (thr W) \<rparr>)"
| disable: "mutator_at W = Running \<Longrightarrow>
    world_step Xs me gc W (W \<lparr> thr := disable_yieldpoints (thr W) \<rparr>)"
| die: "mutator_at W = Running \<Longrightarrow> thread_terminate me (thr W) = Some t \<Longrightarrow>
    world_step Xs me gc W (W \<lparr> thr := t, mutator_at := Dying \<rparr>)"
| gc_block: "gc_at W = GcIdle \<Longrightarrow> block_unchecked GCBlockAdapter gc asynchronous (thr W) = Some r \<Longrightarrow>
    world_step Xs me gc W (after_block asynchronous r W)"
| gc_wake: "gc_at W = GcWaiting s \<Longrightarrow> block_wake GCBlockAdapter (TokenBool True) gc s (thr W) = Some r \<Longrightarrow>
    world_step Xs me gc W (after_block False r W)"
| gc_unblock: "gc_at W = GcIdle \<Longrightarrow> unblock GCBlockAdapter gc (thr W) = Some t \<Longrightarrow>
    world_step Xs me gc W (W \<lparr> thr := t, gc_stopped := False \<rparr>)"

text \<open>A mutator starts in managed code, as \<open>start\<close> and \<open>main\<close> leave it.\<close>

definition started :: "'b thread \<Rightarrow> bool" where
  "started t \<longleftrightarrow> exec_status t = InManaged \<and> \<not> is_blocked_for_gc t \<and> \<not> should_block_for_gc t \<and>
     \<not> is_about_to_terminate t \<and> \<not> is_blocking t \<and> monitor t = mon_new"

inductive world_reachable ::
  "'b block_adapter list \<Rightarrow> slot \<Rightarrow> slot \<Rightarrow> 'b world \<Rightarrow> bool"
  for Xs :: "'b block_adapter list" and me :: slot and gc :: slot where
  initial: "started t \<Longrightarrow> world_reachable Xs me gc
     \<lparr> thr = t, mutator_at = Running, gc_at = GcIdle, gc_stopped = False \<rparr>"
| step: "world_reachable Xs me gc W \<Longrightarrow> world_step Xs me gc W W' \<Longrightarrow> world_reachable Xs me gc W'"

section \<open>The invariant\<close>

text \<open>
  The invariant: what the thread state says, by where the mutator is. The mutator is blocked
  only where it cannot run managed code.
\<close>

definition state_at :: "mutator_pc \<Rightarrow> 'b thread \<Rightarrow> slot \<Rightarrow> bool" where
  "state_at p t me = (case p of
     Running \<Rightarrow> exec_status t \<in> {InManaged, InManagedToBlock} \<and> \<not> is_blocked_for_gc t \<and> \<not> is_blocking t
   | EnteringNative \<Rightarrow> exec_status t = InManagedToBlock \<and> \<not> is_blocked_for_gc t \<and> \<not> is_blocking t
   | InNativeCode \<Rightarrow> \<not> is_blocking t \<and>
       (exec_status t = BlockedInNative \<or> exec_status t = InNative \<and> \<not> is_blocked_for_gc t)
   | LeavingNative \<Rightarrow> exec_status t = BlockedInNative \<and> \<not> is_blocking t
   | ParkedIn c s \<Rightarrow> exec_status t \<in> {InManagedToBlock, BlockedInNative, InManaged} \<and> is_blocking t \<and>
       s = (if c = AtLeaveNative then 1 else 2, me)
   | Dying \<Rightarrow> is_about_to_terminate t \<and> exec_status t \<noteq> Terminated)"

definition world_inv :: "slot \<Rightarrow> slot \<Rightarrow> 'b world \<Rightarrow> bool" where
  "world_inv me gc W \<longleftrightarrow> mon_free (monitor (thr W)) \<and>
     state_at (mutator_at W) (thr W) me \<and>
     (mutator_at W \<noteq> Dying \<longrightarrow> \<not> is_about_to_terminate (thr W)) \<and>
     (\<forall>s. gc_at W = GcWaiting s \<longrightarrow> s = (1, gc) \<and>
        (should_block_for_gc (thr W) \<or> is_blocked_for_gc (thr W) \<or> is_about_to_terminate (thr W))) \<and>
     (gc_stopped W \<longrightarrow> is_about_to_terminate (thr W) \<or> is_blocked_for_gc (thr W))"


lemma block_self_free:
  assumes "gc_list Xs" and "mon_free (monitor t)" and "me \<noteq> 0"
  shows "block_self Xs GCBlockAdapter me sp t =
    Some (Parked (2, me) (parked_thread me (t \<lparr> should_block_for_gc := True, stack_pointer := sp \<rparr>)))"
proof -
  let ?k = "t \<lparr> should_block_for_gc := True, stack_pointer := sp, is_blocking := True,
    monitor := mon_held me 2 (cvar (monitor t)) \<rparr>"
  have p: "parked_thread me ?k = parked_thread me (t \<lparr> should_block_for_gc := True, stack_pointer := sp \<rparr>)"
    by (cases t) (simp add: parked_thread_def mon_held_def)
  have w: "wants_block ?k" by (simp add: wants_block_def)
  have "check_block Xs me sp (t \<lparr> monitor := mon_held me 1 (cvar (monitor t)), should_block_for_gc := True \<rparr>) =
      Some (check_block_pass Xs me ?k)"
    by (cases t) (simp add: check_block_def check_block_no_save_context_def thread_lock_def
        lock_no_handshake_def mon_held_def)
  also have "check_block_pass Xs me ?k = Parked (2, me) (parked_thread me ?k)"
    using w check_block_pass_held [OF assms(1), of ?k me 2 "cvar (monitor t)"] by simp
  finally show ?thesis
    unfolding p by (simp add: block_self_def lock_free [OF assms(2,3)])
qed

lemma block_self_wake_free:
  assumes "gc_list Xs" and "mon_free (monitor t)" and "is_blocking t"
  shows "block_self_wake Xs me (2, me) t =
    (if me \<in> set (cvar (monitor t)) then None
     else Some (if wants_block t then Parked (2, me) (parked_thread me t) else Returned (resumed_thread t)))"
proof -
  have "thread_unlock (thread_unlock (t \<lparr> exec_status := InManaged, is_blocking := False,
      monitor := mon_held me 2 (cvar (monitor t)) \<rparr>)) = resumed_thread t"
    by (cases t) (simp add: thread_unlock_def resumed_thread_def)
  then show ?thesis
    by (simp add: block_self_wake_def check_block_wake_free [OF assms])
qed

lemma thread_terminate_free:
  assumes "mon_free (monitor t)" and "me \<noteq> 0"
  shows "thread_terminate me t = (if mutator_bound t then Some (t \<lparr> is_joinable := True, is_about_to_terminate := True,
    active_mutator_context := False, mutator_bound := False, monitor := freed [] \<rparr>) else None)"
proof -
  have "mon_free (monitor (thread_notify_all (t \<lparr> is_joinable := True \<rparr>)))"
    using assms(1) by (simp add: thread_notify_all_def mon_notify_all_def mon_free_def)
  from lock_free [OF this assms(2)] show ?thesis
    by (cases t) (simp add: thread_terminate_def add_about_to_terminate_def thread_unlock_def thread_notify_all_def)
qed

text \<open>After a pass of \<open>check_block\<close> the mutator is parked and blocked, or it runs and is not.\<close>

definition checked :: "slot \<Rightarrow> parked_at \<Rightarrow> 'b thread \<Rightarrow> 'b thread blocking \<Rightarrow> bool" where
  "checked me c t0 r = (case r of
     Parked s t \<Rightarrow> s = (if c = AtLeaveNative then 1 else 2, me) \<and> mon_free (monitor t) \<and> is_blocking t \<and>
       is_blocked_for_gc t \<and> exec_status t \<in> {InManagedToBlock, BlockedInNative, InManaged} \<and>
       \<not> is_about_to_terminate t
   | Returned t \<Rightarrow> \<not> is_blocked_for_gc t0 \<and> (should_block_for_gc t0 \<longrightarrow> should_block_for_gc t) \<and>
       mon_free (monitor t) \<and> \<not> is_blocked_for_gc t \<and> exec_status t \<in> {InManagedToBlock, InManaged} \<and>
       \<not> is_blocking t \<and> \<not> is_about_to_terminate t)"

lemma after_check_inv:
  assumes "world_inv me gc W" and "\<not> is_about_to_terminate (thr W)" and "checked me c (thr W) r"
  shows "world_inv me gc (after_check c r W)"
  using assms by (cases r) (auto simp: world_inv_def state_at_def checked_def)

lemma checked_if: "checked me c t0 (if b then r else r') \<longleftrightarrow> (if b then checked me c t0 r else checked me c t0 r')"
  by simp

lemmas checked_simps = checked_if checked_def [of _ _ _ "Returned _"] checked_def [of _ _ _ "Parked _ _"]


lemma yieldpoint_checked:
  assumes "gc_list Xs" and "mon_free (monitor t)" and "me \<noteq> 0" and "state_at Running t me"
    and "\<not> is_about_to_terminate t" and "yieldpoint Xs me sp t = Some r"
  shows "checked me AtYieldpoint t r"
proof -
  note r = assms(6) [unfolded yieldpoint_free [OF assms(1-3)] option.inject, symmetric]
  show ?thesis
    unfolding r using assms(2,4,5) by (auto simp: checked_simps state_at_def wants_block_def yieldpoints_enabled_def)
qed

lemma block_self_checked:
  assumes "gc_list Xs" and "mon_free (monitor t)" and "me \<noteq> 0" and "state_at Running t me"
    and "\<not> is_about_to_terminate t" and "block_self Xs GCBlockAdapter me sp t = Some r"
  shows "checked me AtSelfBlock t r"
proof -
  note r = assms(6) [unfolded block_self_free [OF assms(1-3)] option.inject, symmetric]
  show ?thesis unfolding r using assms(4,5) by (auto simp: checked_simps state_at_def)
qed

lemma check_block_checked:
  assumes "gc_list Xs" and "mon_free (monitor t)" and "me \<noteq> 0" and "state_at LeavingNative t me"
    and "\<not> is_about_to_terminate t" and "check_block_no_save_context Xs me t = Some r"
  shows "checked me AtLeaveNative t r"
proof -
  note r = assms(6) [unfolded check_block_free [OF assms(1-3)] option.inject, symmetric]
  show ?thesis unfolding r using assms(4,5) by (simp add: checked_simps state_at_def wants_block_def)
qed

lemma wake_checked:
  assumes "gc_list Xs" and "mon_free (monitor t)" and "state_at (ParkedIn c s) t me"
    and "\<not> is_about_to_terminate t"
    and "(case c of AtYieldpoint \<Rightarrow> yieldpoint_wake Xs me s t | AtLeaveNative \<Rightarrow> check_block_wake Xs me s t
          | AtSelfBlock \<Rightarrow> block_self_wake Xs me s t) = Some r"
  shows "checked me c t r"
proof -
  have b: "is_blocking t" and s: "s = (if c = AtLeaveNative then 1 else 2, me)"
    and e: "exec_status t \<in> {InManagedToBlock, BlockedInNative, InManaged}"
    using assms(3) by (simp_all add: state_at_def)
  have u: "thread_unlock (t \<lparr> exec_status := InManaged, is_blocking := False,
      monitor := mon_held me 1 (cvar (monitor t)) \<rparr>) = resumed_thread t"
    by (cases t) (simp add: thread_unlock_def resumed_thread_def)
  have "me \<notin> set (cvar (monitor t)) \<and> (r = Parked s (parked_thread me t) \<or>
      \<not> wants_block t \<and> (r = Returned (resumed_thread t) \<or> r = Returned ((resumed_thread t) \<lparr> at_yieldpoint := False \<rparr>)))"
    using assms(5) s
    by (cases c)
      (auto simp: yieldpoint_wake_free [OF assms(1,2) b] check_block_wake_free [OF assms(1,2) b]
         block_self_wake_free [OF assms(1,2) b] u split: if_splits)
  then show ?thesis
    using assms(4) e s by (auto simp: checked_simps wants_block_def)
qed

lemma state_at_monitor: "state_at p (t \<lparr> monitor := M \<rparr>) me = state_at p t me"
  by (simp add: state_at_def split: mutator_pc.split)

lemma state_at_unblocked:
  "state_at p t me \<Longrightarrow> state_at p (t \<lparr> is_blocked_for_gc := False, should_block_for_gc := v \<rparr>) me"
  by (auto simp: state_at_def split: mutator_pc.splits)

text \<open>A request changes the state of the target only along the permitted transitions.\<close>

lemma requested_state_at:
  assumes "state_at p t me"
  shows "state_at p (requested_thread t) me"
    and "to_blocked (exec_status t) = BlockedInNative \<Longrightarrow> p \<noteq> Dying \<Longrightarrow>
      state_at p ((requested_thread t) \<lparr> should_block_for_gc := v, is_blocked_for_gc := True \<rparr>) me"
  using assms
  by (cases p; auto simp: state_at_def to_blocked_def split: thread_state.splits)+

lemma requested_state_status:
  "state_at p t me \<Longrightarrow> \<not> is_about_to_terminate t \<Longrightarrow>
     to_blocked (exec_status t) = InManagedToBlock \<or> to_blocked (exec_status t) = BlockedInNative"
  by (cases p) (auto simp: state_at_def to_blocked_def)

lemma world_step_inv:
  assumes "gc_list Xs" and "me \<noteq> 0" and "gc \<noteq> 0"
    and "world_step Xs me gc W W'" and "world_inv me gc W"
  shows "world_inv me gc W'"
proof -
  have f: "mon_free (monitor (thr W))" and st: "state_at (mutator_at W) (thr W) me"
    and alive: "mutator_at W \<noteq> Dying \<Longrightarrow> \<not> is_about_to_terminate (thr W)"
    using assms(5) by (simp_all add: world_inv_def)
  note wake = wake_checked [OF assms(1) f]
  from assms(4) show ?thesis
  proof cases
    case (yield sp r)
    with st alive show ?thesis
      using yieldpoint_checked [OF assms(1) f assms(2)] after_check_inv [OF assms(5)] by simp
  next
    case (yield_wake s r)
    with st alive show ?thesis
      using wake [of AtYieldpoint s me r] after_check_inv [OF assms(5)] by simp
  next
    case (self_block sp r)
    with st alive show ?thesis
      using block_self_checked [OF assms(1) f assms(2)] after_check_inv [OF assms(5)] by simp
  next
    case (self_wake s r)
    with st alive show ?thesis
      using wake [of AtSelfBlock s me r] after_check_inv [OF assms(5)] by simp
  next
    case (enter_fast sp t)
    then show ?thesis using assms(5)
      by (auto simp: world_inv_def state_at_def enter_native_def attempt_fast_exec_status_transition_def Let_def)
  next
    case (enter_load sp)
    then show ?thesis using assms(5) by (auto simp: world_inv_def state_at_def)
  next
    case (enter_slow t)
    then show ?thesis using assms(5)
      by (auto simp: enter_native_blocked_free [OF assms(1) f assms(2)] world_inv_def state_at_def wants_block_def)
  next
    case (leave_fast t)
    then show ?thesis using assms(5)
      by (auto simp: world_inv_def state_at_def attempt_leave_native_no_block_def
          attempt_fast_exec_status_transition_def split: if_splits)
  next
    case (leave_load t)
    then show ?thesis using assms(5)
      by (auto simp: world_inv_def state_at_def attempt_leave_native_no_block_def
          attempt_fast_exec_status_transition_def split: if_splits)
  next
    case (leave_slow r)
    with st alive show ?thesis
      using check_block_checked [OF assms(1) f assms(2)] after_check_inv [OF assms(5)]
      by (simp add: leave_native_blocked_def)
  next
    case (leave_wake s r)
    with st alive show ?thesis
      using wake [of AtLeaveNative s me r] after_check_inv [OF assms(5)] by simp
  next
    case enable
    then show ?thesis using assms(5)
      by (auto simp: world_inv_def state_at_def enable_yieldpoints_def Let_def)
  next
    case disable
    then show ?thesis using assms(5)
      by (auto simp: world_inv_def state_at_def disable_yieldpoints_def)
  next
    case (die t)
    then show ?thesis using assms(5)
      by (auto simp: thread_terminate_free [OF f assms(2)] world_inv_def state_at_def split: if_splits)
  next
    case (gc_block asynchronous r)
    note r = gc_block(3) [unfolded block_unchecked_free [OF f assms(3)] option.inject, symmetric]
    show ?thesis
    proof (cases "is_about_to_terminate (thr W)")
      case True
      then show ?thesis
        unfolding gc_block(1) r using assms(5) alive gc_block(2)
        by (simp add: world_inv_def) (auto simp: state_at_def)
    next
      case False
      have rt: "state_at (mutator_at W) (requested_thread (thr W)) me"
        and not_dying: "mutator_at W \<noteq> Dying"
        using requested_state_at [OF st] st False by (auto simp: state_at_def)
      then show ?thesis
        unfolding gc_block(1) r using False assms(5) requested_state_at [OF st] gc_block(2)
          requested_state_status [OF st]
        by (simp add: world_inv_def state_at_monitor) argo
    qed
  next
    case (gc_wake s r)
    then have s: "s = (1, gc)" and w: "should_block_for_gc (thr W) \<or> is_blocked_for_gc (thr W) \<or> is_about_to_terminate (thr W)"
      using assms(5) by (simp_all add: world_inv_def)
    then show ?thesis
      using gc_wake assms(5)
      by (auto simp: block_wake_free [OF f] world_inv_def state_at_monitor split: if_splits)
  next
    case (gc_unblock t)
    then show ?thesis using assms(5) state_at_unblocked [OF st]
      by (auto simp: unblock_free [OF f assms(3)] world_inv_def state_at_monitor)
  qed
qed


lemma world_reachable_inv:
  assumes "gc_list Xs" and "me \<noteq> 0" and "gc \<noteq> 0" and "world_reachable Xs me gc W"
  shows "world_inv me gc W"
  using assms(4)
proof (induction rule: world_reachable.induct)
  case (initial t)
  then show ?case by (simp add: world_inv_def state_at_def started_def)
next
  case (step W W')
  then show ?case using world_step_inv [OF assms(1-3)] by blast
qed

lemma request_answered:
  assumes "gc_list Xs" and "me \<noteq> 0" and "gc \<noteq> 0" and "me \<noteq> gc" and "world_reachable Xs me gc W"
    and "gc_at W = GcWaiting s"
    and "mutator_at W = Running \<and> yieldpoints_enabled (thr W) \<and> take_yieldpoint (thr W) \<noteq> 0 \<or>
      mutator_at W = EnteringNative"
  shows "\<exists>W1 W2. world_step Xs me gc W W1 \<and> world_step Xs me gc W1 W2 \<and>
    is_blocked_for_gc (thr W1) \<and> gc_at W2 = GcIdle \<and> gc_stopped W2"
proof -
  have i: "world_inv me gc W" using assms(1-3,5) by (rule world_reachable_inv)
  then have f: "mon_free (monitor (thr W))" and s: "s = (1, gc)"
    using assms(6) by (simp_all add: world_inv_def)
  have req: "should_block_for_gc (thr W)" and live: "\<not> is_about_to_terminate (thr W)"
    using i assms(6,7) by (auto simp: world_inv_def state_at_def)
  have wake: "\<exists>W2. world_step Xs me gc W1 W2 \<and> gc_at W2 = GcIdle \<and> gc_stopped W2"
    if w: "gc_at W1 = GcWaiting (1, gc)" "mon_free (monitor (thr W1))" "gc \<notin> set (cvar (monitor (thr W1)))"
      "is_blocked_for_gc (thr W1)" for W1 :: "'a world"
  proof -
    obtain st t where "block_wake GCBlockAdapter (TokenBool True) gc (1, gc) (thr W1) = Some (Returned (st, t))"
      using w(2-4) by (simp add: block_wake_free)
    from world_step.gc_wake [OF w(1) this, of Xs me] show ?thesis
      by (intro exI [of _ "after_block False (Returned (st, t)) W1"]) simp
  qed
  from assms(7) show ?thesis
  proof
    assume y: "mutator_at W = Running \<and> yieldpoints_enabled (thr W) \<and> take_yieldpoint (thr W) \<noteq> 0"
    define t where "t = parked_thread me ((thr W) \<lparr> at_yieldpoint := True, take_yieldpoint := 0, stack_pointer := 8 \<rparr>)"
    define W1 where "W1 = after_check AtYieldpoint (Parked (2, me) t) W"
    have "yieldpoint Xs me 8 (thr W) = Some (Parked (2, me) t)"
      using y req by (simp add: yieldpoint_free [OF assms(1) f assms(2)] t_def wants_block_def)
    then have "world_step Xs me gc W W1"
      using y unfolding W1_def by (intro world_step.yield) auto
    moreover have "is_blocked_for_gc (thr W1)" by (simp add: W1_def t_def)
    moreover have "\<exists>W2. world_step Xs me gc W1 W2 \<and> gc_at W2 = GcIdle \<and> gc_stopped W2"
      using assms(4,6) s req by (intro wake) (auto simp: W1_def t_def parked_thread_def)
    ultimately show ?thesis by blast
  next
    assume e: "mutator_at W = EnteringNative"
    obtain t where t: "enter_native_blocked Xs me (thr W) = Some t" "is_blocked_for_gc t"
      "monitor t = freed []"
      using req by (simp add: enter_native_blocked_free [OF assms(1) f assms(2)] wants_block_def)
    define W1 where "W1 = W \<lparr> thr := t, mutator_at := InNativeCode \<rparr>"
    have "world_step Xs me gc W W1"
      unfolding W1_def using e t(1) by (rule world_step.enter_slow)
    moreover have "is_blocked_for_gc (thr W1)" by (simp add: W1_def t)
    moreover have "\<exists>W2. world_step Xs me gc W1 W2 \<and> gc_at W2 = GcIdle \<and> gc_stopped W2"
      using assms(6) s t by (intro wake) (auto simp: W1_def)
    ultimately show ?thesis by blast
  qed
qed


text \<open>A concrete run, for the witnesses: a mutator in managed code, asked to block.\<close>

definition example_thread :: "unit thread" where
  "example_thread = (the (for_mutator () 1 False)) \<lparr> exec_status := InManaged, yieldpoints_enabled_count := 1 \<rparr>"

definition example_world :: "unit world" where
  "example_world = \<lparr> thr = (requested_thread example_thread) \<lparr> monitor := freed [2] \<rparr>,
     mutator_at = Running, gc_at = GcWaiting (1, 2), gc_stopped = False \<rparr>"

lemmas example_defs = example_thread_def for_mutator_def new_unchecked_def

lemma example_reachable: "world_reachable [GCBlockAdapter, UnitBlockAdapter] 1 2 example_world"
proof -
  let ?W0 = "\<lparr> thr = example_thread, mutator_at = Running, gc_at = GcIdle, gc_stopped = False \<rparr>"
  let ?Xs = "[GCBlockAdapter, UnitBlockAdapter] :: unit block_adapter list"
  have "mon_free (monitor example_thread)" and "exec_status example_thread = InManaged"
    and "\<not> is_about_to_terminate example_thread" and "\<not> is_blocked_for_gc example_thread"
    by (simp_all add: example_defs)
  then have block: "block_unchecked GCBlockAdapter 2 False example_thread =
      Some (Parked (1, 2) (InManagedToBlock, (requested_thread example_thread) \<lparr> monitor := freed [2] \<rparr>))"
    by (simp add: block_unchecked_free to_blocked_def)
  have "started example_thread" by (simp add: started_def example_defs)
  then have "world_reachable ?Xs 1 2 ?W0" by (rule world_reachable.initial)
  moreover have "world_step ?Xs 1 2 ?W0
      (after_block False (Parked (1, 2) (InManagedToBlock, (requested_thread example_thread) \<lparr> monitor := freed [2] \<rparr>)) ?W0)"
    using block
    by (intro world_step.gc_block) simp_all
  ultimately have "world_reachable ?Xs 1 2
      (after_block False (Parked (1, 2) (InManagedToBlock, (requested_thread example_thread) \<lparr> monitor := freed [2] \<rparr>)) ?W0)"
    by (rule world_reachable.step)
  then show ?thesis by (simp add: example_world_def)
qed

lemma example_gc_list: "gc_list [GCBlockAdapter, UnitBlockAdapter]"
  by (auto simp: gc_list_def)

lemma example_running:
  "mutator_at example_world = Running \<and> yieldpoints_enabled (thr example_world) \<and> take_yieldpoint (thr example_world) \<noteq> 0"
  by (simp add: example_world_def requested_thread_def example_defs yieldpoints_enabled_def)

lemma example_stopped:
  "\<exists>W. world_reachable [GCBlockAdapter, UnitBlockAdapter] 1 2 (W :: unit world) \<and> gc_stopped W"
proof -
  have "gc_at example_world = GcWaiting (1, 2)" by (simp add: example_world_def)
  then obtain W1 W2 where "world_step [GCBlockAdapter, UnitBlockAdapter] 1 2 example_world W1"
      and "world_step [GCBlockAdapter, UnitBlockAdapter] 1 2 W1 W2" and "gc_stopped W2"
    using request_answered [OF example_gc_list _ _ _ example_reachable] example_running by fastforce
  then show ?thesis
    using world_reachable.step [OF example_reachable] world_reachable.step by blast
qed

section \<open>Properties\<close>

text \<open>
  C1: stop-the-world is safe. In every interleaving of the mutator's safepoints with the
  collector's requests, a mutator that is marked as blocked for the collector does not run
  managed code, and neither does one for which a synchronous block request has returned: until
  the collector unblocks it, it is marked as blocked, or it is terminating.
\<close>

theorem blocked_mutator_not_running:
  assumes "gc_list Xs" and "me \<noteq> 0" and "gc \<noteq> 0" and "world_reachable Xs me gc W"
    and "is_blocked_for_gc (thr W) \<or> gc_stopped W"
  shows "mutator_at W \<noteq> Running \<and> mutator_at W \<noteq> EnteringNative \<and>
    (gc_stopped W \<longrightarrow> mutator_at W = Dying \<or> is_blocked_for_gc (thr W))"
proof -
  have i: "world_inv me gc W" using assms(1-4) by (rule world_reachable_inv)
  then have "mutator_at W = Dying \<or> is_blocked_for_gc (thr W)"
    using assms(5) by (auto simp: world_inv_def)
  then show ?thesis using i by (auto simp: world_inv_def state_at_def)
qed

theorem blocked_mutator_not_running_witness:
  "\<exists>W. world_reachable [GCBlockAdapter, UnitBlockAdapter] 1 2 (W :: unit world) \<and> gc_stopped W \<and>
     mutator_at W \<noteq> Running \<and> mutator_at W \<noteq> EnteringNative"
proof -
  obtain W :: "unit world" where "world_reachable [GCBlockAdapter, UnitBlockAdapter] 1 2 W" "gc_stopped W"
    using example_stopped by blast
  then show ?thesis
    using blocked_mutator_not_running [OF example_gc_list, of 1 2 W] by auto
qed



end
