(* ===== verification/Vmkit_Parking.thy ===== *)
theory Vmkit_Parking
  imports Vmkit_Thread
begin

text \<open>
  Where monitors and thread states meet: \<open>parked_scope\<close> of \<open>threading.rs\<close>, which runs code that
  may wait outside managed code, and the \<open>with_handshake\<close> operations of \<open>sync/monitor.rs\<close>,
  which let the collector stop the thread while it waits for a lock or a condition.
\<close>

section \<open>Parked scopes\<close>

definition parked_enter ::
  "'b block_adapter list \<Rightarrow> slot \<Rightarrow> address \<Rightarrow> 'b thread \<Rightarrow> (bool \<times> 'b thread) option" where
  "parked_enter Xs me sp t =
     (if exec_status t = InNative \<or> exec_status t = New then Some (False, t)
      else map_option (Pair True) (enter_native Xs me sp t))"

definition parked_leave ::
  "'b block_adapter list \<Rightarrow> slot \<Rightarrow> bool \<Rightarrow> 'b thread \<Rightarrow> 'b thread blocking option" where
  "parked_leave Xs me entered t = (if entered then leave_native Xs me t else Some (Returned t))"

text \<open>\<open>parked_scope\<close> around code that neither parks nor changes the thread.\<close>

definition parked_scope :: "'b block_adapter list \<Rightarrow> slot \<Rightarrow> address \<Rightarrow> 'b thread \<Rightarrow> 'b thread blocking option" where
  "parked_scope Xs me sp t = do {
     (entered, t) \<leftarrow> parked_enter Xs me sp t;
     parked_leave Xs me entered t
   }"

section \<open>Locking with a handshake\<close>

text \<open>
  One round of the loop shared by \<open>lock_with_handshake_no_rec\<close> and \<open>relock_with_handshake\<close>. The
  round ends with the mutex, or goes through \<open>leave_native\<close> without it, where the thread may
  be parked; then the next round starts. It is \<^const>\<open>None\<close> while the mutex is taken.
\<close>

datatype 'b handshake_round =
    Acquired Vmkit_Monitor.monitor "'b thread"
  | GoAgain Vmkit_Monitor.monitor "'b thread"
  | ParkedFor "usize \<times> slot" Vmkit_Monitor.monitor "'b thread"

definition handshake_round ::
  "'b block_adapter list \<Rightarrow> slot \<Rightarrow> address \<Rightarrow> Vmkit_Monitor.monitor \<Rightarrow> 'b thread \<Rightarrow> 'b handshake_round option" where
  "handshake_round Xs me sp M t = do {
     t \<leftarrow> enter_native Xs me sp t;
     M \<leftarrow> mutex_lock me M;
     (case attempt_leave_native_no_block t of
        (True, t) \<Rightarrow> Some (Acquired M t)
      | (False, t) \<Rightarrow> do {
          let M = M \<lparr> mutex := None \<rparr>;
          r \<leftarrow> leave_native Xs me t;
          Some (case r of Returned t \<Rightarrow> GoAgain M t | Parked s t \<Rightarrow> ParkedFor s M t)
        })
   }"

text \<open>
  The thread between \<open>enter_native\<close> and the attempt to leave is in native code: the collector
  may block it there. This is the round with such a request in between.
\<close>

definition handshake_round_interrupted ::
  "'b block_adapter list \<Rightarrow> slot \<Rightarrow> slot \<Rightarrow> address \<Rightarrow> Vmkit_Monitor.monitor \<Rightarrow> 'b thread \<Rightarrow> 'b handshake_round option" where
  "handshake_round_interrupted Xs me gc sp M t = do {
     t \<leftarrow> enter_native Xs me sp t;
     r \<leftarrow> block_unchecked GCBlockAdapter gc False t;
     (case r of
        Parked _ _ \<Rightarrow> None
      | Returned (_, t) \<Rightarrow> do {
          M \<leftarrow> mutex_lock me M;
          (case attempt_leave_native_no_block t of
             (True, t) \<Rightarrow> Some (Acquired M t)
           | (False, t) \<Rightarrow> do {
               let M = M \<lparr> mutex := None \<rparr>;
               r \<leftarrow> leave_native Xs me t;
               Some (case r of Returned t \<Rightarrow> GoAgain M t | Parked s t \<Rightarrow> ParkedFor s M t)
             })
        })
   }"

definition lock_with_handshake ::
  "'b block_adapter list \<Rightarrow> slot \<Rightarrow> address \<Rightarrow> Vmkit_Monitor.monitor \<Rightarrow> 'b thread \<Rightarrow> 'b handshake_round option" where
  "lock_with_handshake Xs me sp M t =
     (if holder M = me then Some (Acquired (M \<lparr> rec_count := rec_count M + 1 \<rparr>) t)
      else map_option (\<lambda>r. case r of
             Acquired M t \<Rightarrow> Acquired (M \<lparr> holder := me, rec_count := rec_count M + 1 \<rparr>) t
           | r \<Rightarrow> r) (handshake_round Xs me sp M t))"

definition relock_with_handshake ::
  "'b block_adapter list \<Rightarrow> slot \<Rightarrow> address \<Rightarrow> usize \<Rightarrow> Vmkit_Monitor.monitor \<Rightarrow> 'b thread
     \<Rightarrow> 'b handshake_round option" where
  "relock_with_handshake Xs me sp count M t =
     map_option (\<lambda>r. case r of
         Acquired M t \<Rightarrow> Acquired (M \<lparr> holder := me, rec_count := count \<rparr>) t
       | r \<Rightarrow> r) (handshake_round Xs me sp M t)"

section \<open>Waiting with a handshake\<close>

text \<open>
  \<open>wait_with_handshake\<close> takes the guard by value. Its steps: enter the parked scope and park on
  the condition variable; once woken, release the monitor completely and leave the scope;
  acquire it again; and return a new guard, which drops the old one, the receiver \<open>self\<close>.
\<close>

definition wait_with_handshake_begin ::
  "'b block_adapter list \<Rightarrow> slot \<Rightarrow> address \<Rightarrow> Vmkit_Monitor.monitor \<Rightarrow> 'b thread
     \<Rightarrow> (bool \<times> (usize \<times> slot) \<times> Vmkit_Monitor.monitor \<times> 'b thread) option" where
  "wait_with_handshake_begin Xs me sp M t = do {
     (entered, t) \<leftarrow> parked_enter Xs me sp t;
     let (s, M) = wait_begin me M;
     Some (entered, s, M, t)
   }"

definition wait_with_handshake_woken ::
  "'b block_adapter list \<Rightarrow> slot \<Rightarrow> bool \<Rightarrow> usize \<times> slot \<Rightarrow> Vmkit_Monitor.monitor \<Rightarrow> 'b thread
     \<Rightarrow> (usize \<times> Vmkit_Monitor.monitor \<times> 'b thread blocking) option" where
  "wait_with_handshake_woken Xs me entered s M t = do {
     M \<leftarrow> wait_end me s M;
     let (count, M) = unlock_completely M;
     r \<leftarrow> parked_leave Xs me entered t;
     Some (count, M, r)
   }"

definition wait_with_handshake_finish ::
  "'b block_adapter list \<Rightarrow> slot \<Rightarrow> address \<Rightarrow> usize \<Rightarrow> Vmkit_Monitor.monitor \<Rightarrow> 'b thread
     \<Rightarrow> 'b handshake_round option" where
  "wait_with_handshake_finish Xs me sp count M t =
     map_option (\<lambda>r. case r of Acquired M t \<Rightarrow> Acquired (guard_drop M) t | r \<Rightarrow> r)
       (relock_with_handshake Xs me sp count M t)"

lemma enter_native_managed:
  "exec_status t = InManaged \<Longrightarrow> enter_native Xs me sp t = Some (t \<lparr> stack_pointer := sp, exec_status := InNative \<rparr>)"
  by (simp add: enter_native_def attempt_fast_exec_status_transition_def)

lemma attempt_leave_simps:
  "exec_status t = InNative \<Longrightarrow> attempt_leave_native_no_block t = (True, t \<lparr> exec_status := InManaged \<rparr>)"
  "exec_status t \<noteq> InNative \<Longrightarrow> attempt_leave_native_no_block t = (False, t)"
  by (simp_all add: attempt_leave_native_no_block_def attempt_fast_exec_status_transition_def)

lemma handshake_round_managed:
  assumes "exec_status t = InManaged" and "mutex M = None"
  shows "handshake_round Xs me sp M t = Some (Acquired (M \<lparr> mutex := Some me \<rparr>) (t \<lparr> stack_pointer := sp \<rparr>))"
proof -
  have "t \<lparr> stack_pointer := sp, exec_status := InManaged \<rparr> = t \<lparr> stack_pointer := sp \<rparr>"
    using assms(1) by (cases t) simp
  then show ?thesis
    using assms by (simp add: handshake_round_def enter_native_managed attempt_leave_simps mutex_lock_def)
qed

definition managed_thread :: "unit thread" where
  "managed_thread = (the (for_mutator () 1 False)) \<lparr> exec_status := InManaged \<rparr>"

lemma managed_thread_simps [simp]:
  "exec_status managed_thread = InManaged" "monitor managed_thread = mon_new"
  "\<not> is_about_to_terminate managed_thread" "\<not> is_blocked_for_gc managed_thread"
  "\<not> should_block_for_gc managed_thread"
  by (simp_all add: managed_thread_def for_mutator_def new_unchecked_def)

section \<open>Properties\<close>

text \<open>
  Locking with a handshake never keeps the collector waiting. When the collector blocks the
  thread while it waits for a lock, the thread gives the lock up again before it parks: it is
  parked and blocked, and the mutex is free for others.
\<close>

theorem handshake_lock_released_when_parked:
  assumes "gc_list Xs" and "me \<noteq> 0" and "gc \<noteq> 0" and "mon_free (monitor t)"
    and "exec_status t = InManaged" and "\<not> is_about_to_terminate t" and "mutex M = None"
  shows "\<exists>s M' t'. handshake_round_interrupted Xs me gc sp M t = Some (ParkedFor s M' t') \<and>
    mutex M' = None \<and> is_blocked_for_gc t' \<and> is_blocking t' \<and> mon_free (monitor t')"
proof -
  let ?n = "t \<lparr> stack_pointer := sp, exec_status := InNative \<rparr>"
  let ?b = "(requested_thread ?n) \<lparr> should_block_for_gc := False, is_blocked_for_gc := True \<rparr>"
  have f: "mon_free (monitor ?n)" and fb: "mon_free (monitor ?b)" using assms(4) by (simp_all add: requested_thread_def)
  have "M \<lparr> mutex := None \<rparr> = M" using assms(7) by (cases M) simp
  moreover have "block_unchecked GCBlockAdapter gc False ?n = Some (Returned (BlockedInNative, ?b))"
    using block_unchecked_free [OF f assms(3), of False] assms(6) by (simp add: to_blocked_def)
  moreover have "exec_status ?b \<noteq> InNative" by (simp add: requested_thread_def to_blocked_def)
  moreover have "check_block_no_save_context Xs me ?b = Some (Parked (1, me) (parked_thread me ?b))"
    using check_block_free [OF assms(1) fb assms(2)] by (simp add: wants_block_def)
  ultimately have "handshake_round_interrupted Xs me gc sp M t = Some (ParkedFor (1, me) M (parked_thread me ?b))"
    using assms(7)
    by (simp add: handshake_round_interrupted_def enter_native_managed [OF assms(5)] mutex_lock_def
        attempt_leave_simps leave_native_def leave_native_blocked_def del: parked_thread_def)
  then show ?thesis using assms(7) by (auto simp: parked_thread_def)
qed

theorem handshake_lock_released_when_parked_witness:
  "\<exists>s M' t'. handshake_round_interrupted [GCBlockAdapter] 1 2 4096 mon_new managed_thread = Some (ParkedFor s M' t') \<and>
     mutex M' = None"
  using handshake_lock_released_when_parked [of "[GCBlockAdapter]" 1 2 managed_thread mon_new 4096]
  by (auto simp: gc_list_def mon_new_def)

text \<open>
  \<open>wait_with_handshake\<close> on a monitor that was locked once returns a guard for a monitor that
  is not locked: the old guard is dropped after the new one has been acquired and takes the
  lock with it. Another thread can lock the monitor while the returned guard is still in use,
  and once that guard is dropped too the count has wrapped around, so that the next thread to
  lock the monitor and drop its guard does not release it, and no other thread ever gets it.
\<close>

theorem wait_with_handshake_loses_lock:
  assumes "exec_status t = InManaged" and "distinct [0, me, u, v]"
  shows "\<exists>s M0 t0 M1 t1 M2 t2 M3.
    wait_with_handshake_begin Xs me sp (mon_held me 1 []) t = Some (True, s, M0, t0) \<and>
    wait_with_handshake_woken Xs me True s (mon_notify_all M0) t0 = Some (1, M1, Returned t1) \<and>
    wait_with_handshake_finish Xs me sp 1 M1 t1 = Some (Acquired M2 t2) \<and>
    lock_no_handshake u M2 \<noteq> None \<and>
    lock_no_handshake u (guard_drop M2) = Some M3 \<and>
    holder (guard_drop M3) = u \<and> lock_no_handshake v (guard_drop M3) = None"
  using assms
  by (simp add: wait_with_handshake_begin_def parked_enter_def enter_native_managed
      wait_with_handshake_woken_def mon_notify_all_def wait_end_def mutex_lock_def unlock_completely_def
      parked_leave_def leave_native_def attempt_leave_simps
      wait_with_handshake_finish_def relock_with_handshake_def handshake_round_managed
      guard_drop_def lock_no_handshake_def Let_def)

theorem wait_with_handshake_loses_lock_witness:
  "\<exists>M1 t1 M2 t2. wait_with_handshake_finish [] 1 4096 1 M1 (t1 :: unit thread) = Some (Acquired M2 t2) \<and>
    lock_no_handshake 2 M2 \<noteq> None"
  using wait_with_handshake_loses_lock [of managed_thread 1 2 3 "[]" 4096] by auto

text \<open>
  A parked scope inside a parked scope. If the collector blocked and unblocked the thread
  since it entered the outer scope, the thread's state is \<open>BlockedInNative\<close>, the inner scope does
  not recognise it as native, and leaving the inner scope puts the thread back into managed
  state although it is still inside the outer scope.
\<close>

theorem nested_parked_scope_leaves_native:
  assumes "gc_list Xs" and "me \<noteq> 0" and "mon_free (monitor t)"
    and "exec_status t = BlockedInNative" and "\<not> wants_block t"
  shows "\<exists>t'. parked_scope Xs me sp t = Some (Returned t') \<and> exec_status t' = InManaged"
proof -
  let ?t = "t \<lparr> stack_pointer := sp \<rparr>"
  have f: "mon_free (monitor ?t)" and w: "\<not> wants_block ?t" using assms(3,5) by (simp_all add: wants_block_def)
  let ?e = "?t \<lparr> exec_status := BlockedInNative, is_blocked_for_gc := wants_block ?t, should_block_for_gc := False,
    monitor := freed (if should_block_for_gc ?t then [] else cvar (monitor ?t)) \<rparr>"
  have "enter_native Xs me sp t = Some ?e"
    using enter_native_blocked_free [OF assms(1) f assms(2)] assms(4) by (simp add: enter_native_def Let_def)
  moreover have "leave_native Xs me ?e = Some (Returned (resumed_thread ?e))"
    using check_block_free [OF assms(1) _ assms(2), of ?e] w
    by (simp add: leave_native_def attempt_leave_simps leave_native_blocked_def wants_block_def)
  ultimately have "parked_scope Xs me sp t = Some (Returned (resumed_thread ?e))"
    using assms(4) by (simp add: parked_scope_def parked_enter_def parked_leave_def)
  then show ?thesis by (simp add: resumed_thread_def)
qed

theorem nested_parked_scope_leaves_native_witness:
  "\<exists>t'. parked_scope [GCBlockAdapter] 1 4096 (managed_thread \<lparr> exec_status := BlockedInNative \<rparr>) = Some (Returned t') \<and>
     exec_status t' = InManaged"
  by (rule nested_parked_scope_leaves_native) (simp_all add: gc_list_def wants_block_def)

section \<open>Yieldpoints and requests\<close>

lemma request_survives_deferral:
  assumes "\<not> yieldpoints_enabled t" and "yieldpoint Xs me sp t = Some r"
  shows "\<exists>t'. r = Returned t' \<and> yieldpoint_request_pending t' \<and> take_yieldpoint t' = 0 \<and>
    should_block_for_gc t' = should_block_for_gc t \<and>
    yieldpoints_enabled_count t' = yieldpoints_enabled_count t"
  using assms by (auto simp: yieldpoint_def yieldpoints_enabled_def Let_def)

text \<open>
  No request is lost while yieldpoints are disabled. A yieldpoint that is reached in a
  section entered by \<open>disable_yieldpoints\<close> does nothing but note that it was reached, and the
  \<open>enable_yieldpoints\<close> that ends the section makes the next yieldpoint taken; that yieldpoint
  then blocks the thread if a block request is pending.
\<close>

theorem deferred_yieldpoint_is_retaken:
  assumes "gc_list Xs" and "me \<noteq> 0" and "mon_free (monitor t)" and "yieldpoints_enabled t"
    and "should_block_for_gc t"
  shows "\<exists>t1 t2. yieldpoint Xs me sp (disable_yieldpoints t) = Some (Returned t1) \<and>
    is_blocked_for_gc t1 = is_blocked_for_gc t \<and> take_yieldpoint t1 = 0 \<and>
    take_yieldpoint (enable_yieldpoints t1) = 1 \<and>
    yieldpoint Xs me sp (enable_yieldpoints t1) = Some (Parked (2, me) t2) \<and> is_blocked_for_gc t2"
proof -
  have d: "\<not> yieldpoints_enabled (disable_yieldpoints t)" and f: "mon_free (monitor (disable_yieldpoints t))"
    using assms(3,4) by (simp_all add: yieldpoints_enabled_def disable_yieldpoints_def)
  define t1 where "t1 = (disable_yieldpoints t)
    \<lparr> at_yieldpoint := False, yieldpoint_request_pending := True, take_yieldpoint := 0 \<rparr>"
  have t1: "yieldpoint Xs me sp (disable_yieldpoints t) = Some (Returned t1)"
    using yieldpoint_free [OF assms(1) f assms(2)] d by (simp add: t1_def)
  have e: "yieldpoints_enabled (enable_yieldpoints t1)" "take_yieldpoint (enable_yieldpoints t1) = 1"
    "should_block_for_gc (enable_yieldpoints t1)" "monitor (enable_yieldpoints t1) = monitor t"
    using assms(4,5) by (simp_all add: t1_def enable_yieldpoints_def disable_yieldpoints_def yieldpoints_enabled_def Let_def)
  have "\<exists>t2. yieldpoint Xs me sp (enable_yieldpoints t1) = Some (Parked (2, me) t2) \<and> is_blocked_for_gc t2"
    using yieldpoint_free [OF assms(1) _ assms(2), of "enable_yieldpoints t1" sp] e assms(3)
    by (simp add: wants_block_def)
  moreover have "is_blocked_for_gc t1 = is_blocked_for_gc t" "take_yieldpoint t1 = 0"
    by (simp_all add: t1_def disable_yieldpoints_def)
  ultimately show ?thesis using t1 e(2) by blast
qed

theorem deferred_yieldpoint_is_retaken_witness:
  "\<exists>t1. yieldpoint [GCBlockAdapter] 1 4096
      (disable_yieldpoints (managed_thread \<lparr> yieldpoints_enabled_count := 1, should_block_for_gc := True \<rparr>)) = Some (Returned t1) \<and>
    take_yieldpoint (enable_yieldpoints t1) = 1"
  using deferred_yieldpoint_is_retaken [of "[GCBlockAdapter]" 1
      "managed_thread \<lparr> yieldpoints_enabled_count := 1, should_block_for_gc := True \<rparr>" 4096]
  by (auto simp: gc_list_def yieldpoints_enabled_def)

text \<open>
  Nesting the sections the other way round loses the request. Yieldpoints that are enabled
  twice are not enabled, a yieldpoint in that state is deferred, and the \<open>disable_yieldpoints\<close>
  that takes the count back to one enables them without looking at the deferred request: the
  flag stays clear, the request stays pending, and the thread does not block.
\<close>

theorem doubly_enabled_yieldpoint_is_lost:
  assumes "yieldpoints_enabled t"
  shows "\<exists>t1. yieldpoint Xs me sp (enable_yieldpoints t) = Some (Returned t1) \<and>
    yieldpoints_enabled (disable_yieldpoints t1) \<and> take_yieldpoint (disable_yieldpoints t1) = 0 \<and>
    yieldpoint_request_pending (disable_yieldpoints t1) \<and>
    should_block_for_gc (disable_yieldpoints t1) = should_block_for_gc t"
  using assms
  by (simp add: yieldpoint_def enable_yieldpoints_def disable_yieldpoints_def yieldpoints_enabled_def Let_def)

theorem doubly_enabled_yieldpoint_is_lost_witness:
  "\<exists>t1. yieldpoint [] 1 4096 (enable_yieldpoints (managed_thread \<lparr> yieldpoints_enabled_count := 1 \<rparr>)) = Some (Returned t1) \<and>
     take_yieldpoint (disable_yieldpoints t1) = 0"
  using doubly_enabled_yieldpoint_is_lost [of "managed_thread \<lparr> yieldpoints_enabled_count := 1 \<rparr>" "[]" 1 4096]
  by (auto simp: yieldpoints_enabled_def)

text \<open>
  The collector does not stop a thread in state \<open>New\<close>: blocking it returns at once with a
  state that counts as not running, and the thread is not marked as blocked.
\<close>

theorem new_thread_is_not_stopped:
  assumes "mon_free (monitor t)" and "gc \<noteq> 0" and "exec_status t = New"
    and "\<not> is_about_to_terminate t" and "\<not> is_blocked_for_gc t"
  shows "\<exists>t'. block_unchecked GCBlockAdapter gc asynchronous t = Some (Returned (New, t')) \<and>
    not_running New \<and> \<not> is_blocked_for_gc t'"
  using assms by (simp add: block_unchecked_free to_blocked_def not_running_def)

theorem new_thread_is_not_stopped_witness:
  "\<exists>t'. block_unchecked GCBlockAdapter 2 False (managed_thread \<lparr> exec_status := New \<rparr>) = Some (Returned (New, t')) \<and>
     \<not> is_blocked_for_gc t'"
  using new_thread_is_not_stopped [of "managed_thread \<lparr> exec_status := New \<rparr>" 2 False] by auto

end
