(* ===== verification/Vmkit_Header.thy ===== *)
theory Vmkit_Header
  imports Vmkit_Align
begin

text \<open>
  \<open>object_model/header.rs\<close> and \<open>object_model/metadata.rs\<close>: the one-word object header that
  holds the runtime's metadata and the state of the address-based hash, and the metadata
  interface. The trait \<open>Metadata\<close> is a record of its functions; the interface the object
  model uses of a header is the locale \<open>object_header\<close>, interpreted on the code's header.
\<close>

section \<open>Metadata\<close>

type_synonym vmkit_object = address

text \<open>
  The trace callbacks are functions of the runtime. The state \<^typ>\<open>'s\<close> is whatever a collection
  changes: a callback visits slots, or traces objects, through the visitor it is given.
\<close>

datatype 's trace_callback =
    ScanSlots "vmkit_object \<Rightarrow> ('s \<Rightarrow> address \<Rightarrow> 's) \<Rightarrow> 's \<Rightarrow> 's"
  | TraceObject "vmkit_object \<Rightarrow> ('s \<Rightarrow> address \<Rightarrow> address \<times> 's) \<Rightarrow> 's \<Rightarrow> 's"
  | TraceNone

record 's gc_metadata =
  trace :: "'s trace_callback"
  instance_size :: usize
  compute_size :: "(memory \<Rightarrow> vmkit_object \<Rightarrow> usize option) option"
  md_alignment :: usize
  compute_alignment :: "(memory \<Rightarrow> vmkit_object \<Rightarrow> usize) option"

record ('m, 's) metadata_trait =
  to_bitfield :: "'m \<Rightarrow> usize"
  from_bitfield :: "usize \<Rightarrow> 'm"
  METADATA_BIT_SIZE :: nat
  gc_metadata_of :: "'m \<Rightarrow> 's gc_metadata"
  is_object :: "'m \<Rightarrow> bool"
  to_object_reference :: "'m \<Rightarrow> address option"
  from_object_reference :: "address \<Rightarrow> 'm option"
  to_slot :: "'m \<Rightarrow> address option"

text \<open>The type parameter \<open>VM\<close> of the sources: its constants, the libraries, its metadata type.\<close>

record ('m, 's) vm =
  conf :: vm_config
  lib :: ext_lib
  meta :: "('m, 's) metadata_trait"

definition MAX_UNCOOPERATIVE_OBJECT_SIZE :: usize where
  "MAX_UNCOOPERATIVE_OBJECT_SIZE = 2 ^ 36"

section \<open>Hash state\<close>

datatype hash_state = Unhashed | Hashed | HashedAndMoved

fun hash_state_from_bitfield :: "usize \<Rightarrow> hash_state option" where
  "hash_state_from_bitfield v =
     (if v = 0 then Some Unhashed else if v = 1 then Some Hashed
      else if v = 2 then Some HashedAndMoved else None)"

fun hash_state_to_bitfield :: "hash_state \<Rightarrow> usize" where
  "hash_state_to_bitfield Unhashed = 0"
| "hash_state_to_bitfield Hashed = 1"
| "hash_state_to_bitfield HashedAndMoved = 2"

lemma hash_state_roundtrip [simp]:
  "hash_state_from_bitfield (hash_state_to_bitfield st) = Some st"
  by (cases st) simp_all

lemma hash_state_bound [simp]: "unat (hash_state_to_bitfield st) < 4"
  by (cases st) simp_all

section \<open>The header\<close>

definition OBJECT_REF_OFFSET :: usize where
  "OBJECT_REF_OFFSET = 8"

definition OBJECT_HEADER_OFFSET :: usize where
  "OBJECT_HEADER_OFFSET = - OBJECT_REF_OFFSET"

definition HASHCODE_OFFSET :: usize where
  "HASHCODE_OFFSET = - (OBJECT_REF_OFFSET + 8)"

definition METADATA_BIT_LIMIT :: "vm_config \<Rightarrow> nat" where
  "METADATA_BIT_LIMIT C = (if ADDRESS_BASED_HASHING C then 64 - 2 else 64 - 1)"

type_synonym header = usize

definition header_new :: "('m, 's) vm \<Rightarrow> 'm \<Rightarrow> header" where
  "header_new V md = to_bitfield (meta V) md"

definition header_hash_state :: "('m, 's) vm \<Rightarrow> header \<Rightarrow> hash_state option" where
  "header_hash_state V h =
     (if \<not> ADDRESS_BASED_HASHING (conf V) then Some Unhashed
      else hash_state_from_bitfield (bf_decode (lib V) (METADATA_BIT_LIMIT (conf V)) 2 h))"

definition header_set_hash_state :: "('m, 's) vm \<Rightarrow> header \<Rightarrow> hash_state \<Rightarrow> header" where
  "header_set_hash_state V h st =
     bf_update (lib V) (METADATA_BIT_LIMIT (conf V)) 2 (hash_state_to_bitfield st) h"

definition header_metadata :: "('m, 's) vm \<Rightarrow> header \<Rightarrow> 'm" where
  "header_metadata V h =
     from_bitfield (meta V) (bf_decode (lib V) 0 (METADATA_BIT_LIMIT (conf V)) h)"

definition header_set_metadata :: "('m, 's) vm \<Rightarrow> header \<Rightarrow> 'm \<Rightarrow> header" where
  "header_set_metadata V h md =
     bf_update (lib V) 0 (METADATA_BIT_LIMIT (conf V)) (to_bitfield (meta V) md) h"

text \<open>The metadata values a header can hold: they fit the field and convert back.\<close>

definition storable :: "('m, 's) vm \<Rightarrow> 'm \<Rightarrow> bool" where
  "storable V md \<longleftrightarrow> unat (to_bitfield (meta V) md) < 2 ^ METADATA_BIT_LIMIT (conf V) \<and>
     from_bitfield (meta V) (to_bitfield (meta V) md) = md"

section \<open>The contract of a header\<close>

locale object_header =
  fixes new :: "'md \<Rightarrow> 'h"
    and hash_state :: "'h \<Rightarrow> hash_state option"
    and set_hash_state :: "'h \<Rightarrow> hash_state \<Rightarrow> 'h"
    and metadata :: "'h \<Rightarrow> 'md"
    and set_metadata :: "'h \<Rightarrow> 'md \<Rightarrow> 'h"
    and ok :: "'md \<Rightarrow> bool"
    and valid :: "'h \<Rightarrow> bool"
  assumes new_valid: "ok md \<Longrightarrow> valid (new md)"
    and new_metadata: "ok md \<Longrightarrow> metadata (new md) = md"
    and new_hash_state: "ok md \<Longrightarrow> hash_state (new md) = Some Unhashed"
    and set_hash_state_valid: "valid h \<Longrightarrow> valid (set_hash_state h st)"
    and set_get_hash_state: "valid h \<Longrightarrow> hash_state (set_hash_state h st) = Some st"
    and set_hash_state_metadata: "valid h \<Longrightarrow> metadata (set_hash_state h st) = metadata h"
    and set_metadata_valid: "valid h \<Longrightarrow> ok md \<Longrightarrow> valid (set_metadata h md)"
    and set_get_metadata: "valid h \<Longrightarrow> ok md \<Longrightarrow> metadata (set_metadata h md) = md"
    and set_metadata_hash_state:
      "valid h \<Longrightarrow> ok md \<Longrightarrow> hash_state (set_metadata h md) = hash_state h"
begin

lemmas header_laws = new_valid new_metadata new_hash_state set_hash_state_valid set_get_hash_state
  set_hash_state_metadata set_metadata_valid set_get_metadata set_metadata_hash_state

text \<open>Any sequence of updates: the last state and the last metadata written are the ones read.\<close>

lemma hash_states_last:
  assumes "valid h" and "sts \<noteq> []"
  shows "hash_state (foldl set_hash_state h sts) = Some (last sts) \<and>
    metadata (foldl set_hash_state h sts) = metadata h \<and> valid (foldl set_hash_state h sts)"
  using assms(2)
proof (induction sts rule: rev_nonempty_induct)
  case (single x)
  then show ?case using assms(1) by (simp add: header_laws)
next
  case (snoc x xs)
  then show ?case by (simp add: header_laws)
qed

lemma updates_commute:
  assumes "valid h" and "ok md"
  shows "hash_state (set_metadata (set_hash_state h st) md) = Some st"
    and "hash_state (set_hash_state (set_metadata h md) st) = Some st"
    and "metadata (set_metadata (set_hash_state h st) md) = md"
    and "metadata (set_hash_state (set_metadata h md) st) = md"
  using assms by (simp_all add: header_laws)

end

text \<open>The hypothesis under which the code's header keeps the contract: hashing is enabled.\<close>

definition hashing_vm :: "('m, 's) vm \<Rightarrow> bool" where
  "hashing_vm V \<longleftrightarrow> lib_ok (lib V) \<and> ADDRESS_BASED_HASHING (conf V)"

lemma hashing_vm_simps [simp]:
  "hashing_vm V \<Longrightarrow> lib_ok (lib V)"
  "hashing_vm V \<Longrightarrow> ADDRESS_BASED_HASHING (conf V)"
  "hashing_vm V \<Longrightarrow> METADATA_BIT_LIMIT (conf V) = 62"
  by (simp_all add: hashing_vm_def METADATA_BIT_LIMIT_def)

lemma header_set_get_hash_state:
  "hashing_vm V \<Longrightarrow> header_hash_state V (header_set_hash_state V h st) = Some st"
  by (simp add: header_hash_state_def header_set_hash_state_def decode_update_same hash_state_bound
      del: hash_state_from_bitfield.simps)

lemma header_set_hash_state_metadata:
  "hashing_vm V \<Longrightarrow> header_metadata V (header_set_hash_state V h st) = header_metadata V h"
  by (simp add: header_metadata_def header_set_hash_state_def decode_update_other hash_state_bound)

lemma header_new_hash_state:
  assumes "hashing_vm V" and "storable V md"
  shows "header_hash_state V (header_new V md) = Some Unhashed"
proof -
  have "bf_decode (lib V) 62 2 (to_bitfield (meta V) md) = 0"
    using assms field_bit_bound [of "to_bitfield (meta V) md" 62]
    by (auto simp: bf_decode_eq storable_def bit_eq_iff bit_simps)
  then show ?thesis using assms by (simp add: header_hash_state_def header_new_def)
qed

lemma header_new_metadata:
  assumes "hashing_vm V" and "storable V md"
  shows "header_metadata V (header_new V md) = md"
  using assms by (simp add: header_metadata_def header_new_def bf_decode_eq storable_def take_bit_small)

lemma header_set_get_metadata:
  "hashing_vm V \<Longrightarrow> storable V md \<Longrightarrow> header_metadata V (header_set_metadata V h md) = md"
  by (simp add: header_metadata_def header_set_metadata_def decode_update_same storable_def)

lemma header_set_metadata_hash_state:
  "hashing_vm V \<Longrightarrow> storable V md \<Longrightarrow>
     header_hash_state V (header_set_metadata V h md) = header_hash_state V h"
  by (simp add: header_hash_state_def header_set_metadata_def decode_update_other storable_def)

interpretation vm_header: object_header
  "header_new V" "header_hash_state V" "header_set_hash_state V" "header_metadata V"
  "header_set_metadata V" "\<lambda>md. hashing_vm V \<and> storable V md" "\<lambda>_. hashing_vm V"
  for V :: "('m, 's) vm"
  by unfold_locales
    (simp_all add: header_new_metadata header_new_hash_state header_set_get_hash_state
      header_set_hash_state_metadata header_set_get_metadata header_set_metadata_hash_state)

text \<open>
  A concrete runtime, for the witnesses: the default constants, and as metadata a word that
  says how many payload bytes the object has.
\<close>

definition word_vm :: "(usize, unit) vm" where
  "word_vm = \<lparr> conf = default_vm, lib = std_lib, meta = \<lparr>
     to_bitfield = (\<lambda>w. w), from_bitfield = (\<lambda>w. w), METADATA_BIT_SIZE = 62,
     gc_metadata_of = (\<lambda>w. \<lparr> trace = TraceNone, instance_size = w, compute_size = None,
                              md_alignment = 8, compute_alignment = None \<rparr>),
     is_object = (\<lambda>_. False), to_object_reference = (\<lambda>_. None),
     from_object_reference = (\<lambda>_. None), to_slot = (\<lambda>_. None) \<rparr> \<rparr>"

lemma word_vm_simps [simp]:
  "conf word_vm = default_vm" "lib word_vm = std_lib"
  "ADDRESS_BASED_HASHING default_vm" "MIN_ALIGNMENT default_vm = 8" "MAX_ALIGNMENT default_vm = 32"
  "ALIGNMENT_VALUE default_vm = 0xdeadbeef" "hashing_vm word_vm"
  "METADATA_BIT_LIMIT default_vm = 62"
  by (simp_all add: word_vm_def default_vm_def hashing_vm_def lib_ok_std_lib METADATA_BIT_LIMIT_def)

section \<open>Properties\<close>

text \<open>
  A header keeps its metadata and its hash state apart. After any sequence of hash state
  updates the metadata is the one the header was created with and the hash state is the last
  one written, and replacing the metadata keeps that hash state.
\<close>

theorem header_fields_independent:
  assumes "hashing_vm V" and "storable V md" and "storable V md'" and "sts \<noteq> []"
  shows "header_hash_state V (header_new V md) = Some Unhashed \<and>
    header_metadata V (foldl (header_set_hash_state V) (header_new V md) sts) = md \<and>
    header_hash_state V (foldl (header_set_hash_state V) (header_new V md) sts) = Some (last sts) \<and>
    header_hash_state V
      (header_set_metadata V (foldl (header_set_hash_state V) (header_new V md) sts) md') = Some (last sts) \<and>
    header_metadata V
      (header_set_metadata V (foldl (header_set_hash_state V) (header_new V md) sts) md') = md'"
proof -
  note V = assms(1) and ok = conjI [OF assms(1,2)] and ok' = conjI [OF assms(1,3)]
  note l = vm_header.hash_states_last [OF V assms(4), of "header_new V md"]
  show ?thesis
    using l vm_header.new_hash_state [OF ok] vm_header.new_metadata [OF ok]
      vm_header.set_metadata_hash_state [OF V ok'] vm_header.set_get_metadata [OF V ok']
    by auto
qed

theorem header_fields_independent_witness:
  "header_metadata word_vm (foldl (header_set_hash_state word_vm) (header_new word_vm 40) [Hashed, HashedAndMoved]) = 40 \<and>
   header_hash_state word_vm (foldl (header_set_hash_state word_vm) (header_new word_vm 40) [Hashed, HashedAndMoved]) =
     Some HashedAndMoved"
  using header_fields_independent [of word_vm 40 48 "[Hashed, HashedAndMoved]"]
  by (simp add: storable_def) (simp add: word_vm_def)

end
