(* ===== verification/Vmkit_Object.thy ===== *)
theory Vmkit_Object
  imports Vmkit_Header
begin

text \<open>
  \<open>object_model/object.rs\<close>: object references, sizes, the address-based hash code and the
  typed field accessors. An object is the address of its payload; its header is the word
  before it, and a moved object that was hashed keeps its hash code in the word before that.
  \<open>header()\<close> asserts that the reference is not null, so what reads the header may panic.
\<close>

section \<open>References\<close>

abbreviation NULL :: vmkit_object where
  "NULL \<equiv> 0"

definition obj_is_null :: "vmkit_object \<Rightarrow> bool" where
  "obj_is_null obj \<longleftrightarrow> obj = NULL"

definition obj_is_not_null :: "vmkit_object \<Rightarrow> bool" where
  "obj_is_not_null obj \<longleftrightarrow> obj \<noteq> NULL"

text \<open>An \<open>ObjectReference\<close> of mmtk is a non-null address.\<close>

definition obj_try_into :: "vmkit_object \<Rightarrow> address option" where
  "obj_try_into obj = (if obj = 0 then None else Some obj)"

definition from_objref_nullable :: "address option \<Rightarrow> vmkit_object" where
  "from_objref_nullable r = (case r of Some a \<Rightarrow> a | None \<Rightarrow> NULL)"

definition obj_header :: "memory \<Rightarrow> vmkit_object \<Rightarrow> header option" where
  "obj_header m obj = (if obj_is_null obj then None else Some (load64 m (obj + OBJECT_HEADER_OFFSET)))"

definition obj_store_header :: "memory \<Rightarrow> vmkit_object \<Rightarrow> header \<Rightarrow> memory" where
  "obj_store_header m obj h = store64 m (obj + OBJECT_HEADER_OFFSET) h"

section \<open>Sizes\<close>

definition obj_metadata :: "('m, 's) vm \<Rightarrow> memory \<Rightarrow> vmkit_object \<Rightarrow> 'm option" where
  "obj_metadata V m obj = map_option (header_metadata V) (obj_header m obj)"

definition obj_alignment :: "('m, 's) vm \<Rightarrow> memory \<Rightarrow> vmkit_object \<Rightarrow> usize option" where
  "obj_alignment V m obj = do {
     md \<leftarrow> obj_metadata V m obj;
     let g = gc_metadata_of (meta V) md;
     Some (if md_alignment g = 0
           then (case compute_alignment g of Some f \<Rightarrow> f m obj | None \<Rightarrow> MAX_ALIGNMENT (conf V))
           else md_alignment g)
   }"

definition hashcode_overhead ::
  "('m, 's) vm \<Rightarrow> bool \<Rightarrow> memory \<Rightarrow> vmkit_object \<Rightarrow> usize option" where
  "hashcode_overhead V when_copied m obj =
     (if \<not> ADDRESS_BASED_HASHING (conf V) then Some 0
      else do {
        h \<leftarrow> obj_header m obj;
        hash_state \<leftarrow> header_hash_state V h;
        let has_hashcode = (if when_copied then hash_state \<noteq> Unhashed
                            else hash_state = HashedAndMoved);
        Some (if has_hashcode then 8 else 0)
      })"

definition payload_size :: "('m, 's) vm \<Rightarrow> memory \<Rightarrow> vmkit_object \<Rightarrow> usize option" where
  "payload_size V m obj = do {
     md \<leftarrow> obj_metadata V m obj;
     let g = gc_metadata_of (meta V) md;
     computed \<leftarrow> (case compute_size g of None \<Rightarrow> Some 0 | Some f \<Rightarrow> f m obj);
     Some (instance_size g + computed)
   }"

definition bytes_used :: "('m, 's) vm \<Rightarrow> memory \<Rightarrow> vmkit_object \<Rightarrow> usize option" where
  "bytes_used V m obj = do {
     overhead \<leftarrow> hashcode_overhead V False m obj;
     payload \<leftarrow> payload_size V m obj;
     Some (raw_align_up (lib V) (overhead + payload + 8) 8)
   }"

definition bytes_required_when_copied :: "('m, 's) vm \<Rightarrow> memory \<Rightarrow> vmkit_object \<Rightarrow> usize option" where
  "bytes_required_when_copied V m obj = do {
     overhead \<leftarrow> hashcode_overhead V True m obj;
     payload \<leftarrow> payload_size V m obj;
     Some (raw_align_up (lib V) (overhead + payload + 8) 8)
   }"

definition object_start :: "('m, 's) vm \<Rightarrow> memory \<Rightarrow> vmkit_object \<Rightarrow> address option" where
  "object_start V m obj = do {
     overhead \<leftarrow> hashcode_overhead V False m obj;
     Some (obj + - (OBJECT_REF_OFFSET + overhead))
   }"

definition get_offset_for_alignment :: "('m, 's) vm \<Rightarrow> memory \<Rightarrow> vmkit_object \<Rightarrow> usize option" where
  "get_offset_for_alignment V m obj = do {
     overhead \<leftarrow> hashcode_overhead V True m obj;
     Some (8 + overhead)
   }"

definition get_current_size :: "('m, 's) vm \<Rightarrow> memory \<Rightarrow> vmkit_object \<Rightarrow> usize option" where
  "get_current_size V m obj = bytes_used V m obj"

definition get_size_when_copied :: "('m, 's) vm \<Rightarrow> memory \<Rightarrow> vmkit_object \<Rightarrow> usize option" where
  "get_size_when_copied V m obj = bytes_required_when_copied V m obj"

section \<open>Hash code\<close>

text \<open>
  \<open>compute_hashcode\<close> is the runtime's own hash function, used when address-based hashing is
  off. Otherwise the first call records that the address was used as a hash code.
\<close>

definition obj_hashcode ::
  "('m, 's) vm \<Rightarrow> (vmkit_object \<Rightarrow> usize) \<Rightarrow> memory \<Rightarrow> vmkit_object \<Rightarrow> (usize \<times> memory) option" where
  "obj_hashcode V compute_hashcode m obj =
     (if \<not> ADDRESS_BASED_HASHING (conf V) then Some (compute_hashcode obj, m)
      else do {
        h \<leftarrow> obj_header m obj;
        st \<leftarrow> header_hash_state V h;
        if st = HashedAndMoved then Some (load64 m (obj + HASHCODE_OFFSET), m)
        else Some (drop_bit (LOG_BYTES_IN_ADDRESS (lib V)) obj,
                   obj_store_header m obj (header_set_hash_state V h Hashed))
      })"

lemma obj_header_store [simp]:
  "obj \<noteq> 0 \<Longrightarrow> obj_header (obj_store_header m obj h) obj = Some h"
  by (simp add: obj_header_def obj_store_header_def obj_is_null_def)

lemma obj_header_Some_iff: "obj_header m obj = Some h \<longleftrightarrow> obj \<noteq> 0 \<and> h = load64 m (obj - 8)"
  by (auto simp: obj_header_def obj_is_null_def OBJECT_HEADER_OFFSET_def OBJECT_REF_OFFSET_def)

end
