(* ===== verification/Vmkit_ObjectModel.thy ===== *)
theory Vmkit_ObjectModel
  imports Vmkit_Object
begin

text \<open>
  \<open>object_model.rs\<close>: moving an object, the part of mmtk's \<open>ObjectModel\<close> interface the
  collector calls. The copy context (\<open>alloc_copy\<close>, \<open>post_copy\<close>) belongs to mmtk and is a
  parameter.
\<close>

datatype move_target = ToAddress address | ToObject vmkit_object

definition move_object ::
  "('m, 's) vm \<Rightarrow> memory \<Rightarrow> vmkit_object \<Rightarrow> move_target \<Rightarrow> usize \<Rightarrow> (vmkit_object \<times> memory) option" where
  "move_object V m from_obj to num_bytes = do {
     h \<leftarrow> obj_header m from_obj;
     hash_state \<leftarrow> header_hash_state V h;
     let (n, to, obj_ref_offset) =
       (case hash_state of
          Hashed \<Rightarrow> (num_bytes - 8,
                    (case to of ToAddress addr \<Rightarrow> ToAddress (addr + 8) | ToObject obj \<Rightarrow> ToObject obj),
                    OBJECT_REF_OFFSET)
        | HashedAndMoved \<Rightarrow> (num_bytes, to, OBJECT_REF_OFFSET + 8)
        | Unhashed \<Rightarrow> (num_bytes, to, OBJECT_REF_OFFSET));
     let (to_address, to_obj) =
       (case to of
          ToAddress addr \<Rightarrow> (addr, addr + obj_ref_offset)
        | ToObject obj \<Rightarrow> (obj + - obj_ref_offset, obj));
     let from_address = from_obj + - obj_ref_offset;
     let m = copy_bytes m from_address to_address n;
     if hash_state = Hashed
     then do {
       let hash_code = drop_bit (LOG_BYTES_IN_ADDRESS (lib V)) from_obj;
       let m = store64 m (to_obj + HASHCODE_OFFSET) hash_code;
       h' \<leftarrow> obj_header m to_obj;
       Some (to_obj, obj_store_header m to_obj (header_set_hash_state V h' HashedAndMoved))
     }
     else do {
       h' \<leftarrow> obj_header m to_obj;
       Some (to_obj, obj_store_header m to_obj (header_set_hash_state V h' Hashed))
     }
   }"

text \<open>The copy context of mmtk: its state \<^typ>\<open>'c\<close> and its two operations, which may change memory.\<close>

record ('c, 'sem) copy_context =
  alloc_copy :: "'c \<Rightarrow> memory \<Rightarrow> address \<Rightarrow> usize \<Rightarrow> usize \<Rightarrow> usize \<Rightarrow> 'sem \<Rightarrow> address \<times> 'c \<times> memory"
  post_copy :: "'c \<Rightarrow> memory \<Rightarrow> address \<Rightarrow> usize \<Rightarrow> 'sem \<Rightarrow> 'c \<times> memory"

definition om_copy ::
  "('m, 's) vm \<Rightarrow> ('c, 'sem) copy_context \<Rightarrow> 'c \<Rightarrow> memory \<Rightarrow> address \<Rightarrow> 'sem
     \<Rightarrow> (address \<times> 'c \<times> memory) option" where
  "om_copy V X c m from semantics = do {
     bytes \<leftarrow> bytes_required_when_copied V m from;
     align \<leftarrow> obj_alignment V m from;
     offset \<leftarrow> get_offset_for_alignment V m from;
     let (addr, c, m) = alloc_copy X c m from bytes align offset semantics;
     (to_obj, m) \<leftarrow> move_object V m from (ToAddress addr) bytes;
     to_ref \<leftarrow> obj_try_into to_obj;
     let (c, m) = post_copy X c m to_ref bytes semantics;
     Some (to_ref, c, m)
   }"

definition om_copy_to ::
  "('m, 's) vm \<Rightarrow> memory \<Rightarrow> address \<Rightarrow> address \<Rightarrow> address \<Rightarrow> (address \<times> memory) option" where
  "om_copy_to V m from to region = do {
     (bytes, m) \<leftarrow> (if from \<noteq> to
       then do {
         bytes \<leftarrow> bytes_required_when_copied V m to;
         (_, m) \<leftarrow> move_object V m from (ToObject to) bytes;
         Some (bytes, m)
       }
       else do { bytes \<leftarrow> bytes_used V m from; Some (bytes, m) });
     start \<leftarrow> object_start V m to;
     m \<leftarrow> fill_alignment_gap (conf V) m region start;
     Some (start + bytes, m)
   }"

definition get_reference_when_copied_to ::
  "('m, 's) vm \<Rightarrow> memory \<Rightarrow> address \<Rightarrow> address \<Rightarrow> address option" where
  "get_reference_when_copied_to V m from to = do {
     overhead \<leftarrow> hashcode_overhead V True m from;
     let res_addr = to + OBJECT_REF_OFFSET + overhead;
     if res_addr \<noteq> 0 then Some res_addr else None
   }"

definition get_align_offset_when_copied :: "('m, 's) vm \<Rightarrow> memory \<Rightarrow> address \<Rightarrow> usize option" where
  "get_align_offset_when_copied V m obj = get_offset_for_alignment V m (from_objref_nullable (Some obj))"

definition get_align_when_copied :: "('m, 's) vm \<Rightarrow> memory \<Rightarrow> address \<Rightarrow> usize option" where
  "get_align_when_copied V m obj = obj_alignment V m obj"

definition om_get_current_size :: "('m, 's) vm \<Rightarrow> memory \<Rightarrow> address \<Rightarrow> usize option" where
  "om_get_current_size V m obj = get_current_size V m (from_objref_nullable (Some obj))"

definition om_get_size_when_copied :: "('m, 's) vm \<Rightarrow> memory \<Rightarrow> address \<Rightarrow> usize option" where
  "om_get_size_when_copied V m obj = get_size_when_copied V m (from_objref_nullable (Some obj))"

definition ref_to_object_start :: "('m, 's) vm \<Rightarrow> memory \<Rightarrow> address \<Rightarrow> address option" where
  "ref_to_object_start V m obj = object_start V m (from_objref_nullable (Some obj))"

definition ref_to_header :: "address \<Rightarrow> address" where
  "ref_to_header obj = obj + OBJECT_HEADER_OFFSET"

section \<open>Copying a header and a payload\<close>

lemmas offset_defs = OBJECT_REF_OFFSET_def OBJECT_HEADER_OFFSET_def HASHCODE_OFFSET_def

lemma copied_byte:
  assumes "unat d < unat n"
  shows "copy_bytes m f t n (t + d) = m (f + d)"
  using assms by (simp add: copy_bytes_inside word_less_nat_alt)

text \<open>A word at distance \<^term>\<open>d\<close> from the start of the copied range is copied whole.\<close>

lemma copied_word:
  assumes "unat d + 8 \<le> unat n"
  shows "load64 (copy_bytes m f t n) (t + d) = load64 m (f + d)"
proof (rule load_bytes_cong)
  fix i :: nat
  assume "i < 8"
  have "unat (d + word_of_nat i) = unat d + i"
  proof -
    have "unat d + unat (word_of_nat i :: usize) < 2 ^ 64"
      using \<open>i < 8\<close> assms unat_less_2_64 [of n] by (simp only: unat_word_of_nat)
    then show ?thesis using \<open>i < 8\<close> by (simp add: unat_add_no_overflow unat_word_of_nat)
  qed
  then have "unat (d + word_of_nat i) < unat n"
    using assms \<open>i < 8\<close> by simp
  then show "copy_bytes m f t n (t + d + word_of_nat i) = m (f + d + word_of_nat i)"
    using copied_byte [of "d + word_of_nat i" n m f t] by (simp add: add.assoc)
qed

text \<open>Storing a word does not change a word or a byte elsewhere.\<close>

lemma unat_add_small:
  assumes "unat d + i < 2 ^ 64"
  shows "unat (d + word_of_nat i :: usize) = unat d + i"
proof -
  have "i < 2 ^ 64" using assms by simp
  then have "unat (word_of_nat i :: usize) = i" by (rule unat_word_of_nat)
  with assms show ?thesis by (simp add: unat_add_no_overflow)
qed

lemma load_store_other:
  assumes "8 \<le> unat (b - a)" and "unat (b - a) + 8 \<le> 2 ^ 64"
  shows "load64 (store64 m a v) b = load64 m b"
proof (rule load_bytes_cong)
  fix i :: nat
  assume "i < 8"
  have "b + word_of_nat i - a = (b - a) + word_of_nat i" by simp
  moreover have "unat ((b - a) + word_of_nat i) = unat (b - a) + i"
    by (rule unat_add_small) (use assms \<open>i < 8\<close> in linarith)
  ultimately have "unat (b + word_of_nat i - a) = unat (b - a) + i"
    by (simp only:)
  then have "8 \<le> unat (b + word_of_nat i - a)"
    using assms(1) by linarith
  then show "store64 m a v (b + word_of_nat i) = m (b + word_of_nat i)"
    by (rule store_bytes_outside)
qed

text \<open>Where a moved object ends up, and the state its header is given.\<close>

definition hash_words :: "hash_state \<Rightarrow> nat" where
  "hash_words st = (if st = Unhashed then 0 else 8)"

definition move_dest :: "hash_state \<Rightarrow> move_target \<Rightarrow> vmkit_object" where
  "move_dest st to = (case to of
     ToAddress addr \<Rightarrow> addr + OBJECT_REF_OFFSET + word_of_nat (hash_words st) | ToObject obj \<Rightarrow> obj)"

definition moved_state :: "hash_state \<Rightarrow> hash_state" where
  "moved_state st = (if st = Hashed then HashedAndMoved else Hashed)"

lemma payload_outside_header:
  "i + 8 < 2 ^ 64 \<Longrightarrow> store64 m (t - 8) v (t + word_of_nat i) = m (t + word_of_nat i)"
  "i + 16 < 2 ^ 64 \<Longrightarrow> store64 m (t - 16) v (t + word_of_nat i) = m (t + word_of_nat i)"
proof -
  have d: "unat (8 :: usize) = 8" "unat (16 :: usize) = 16" by simp_all
  show "store64 m (t - 8) v (t + word_of_nat i) = m (t + word_of_nat i)" if "i + 8 < 2 ^ 64"
    using unat_add_small [of 8 i] that unfolding d
    by (intro store_bytes_outside) (simp add: algebra_simps)
  show "store64 m (t - 16) v (t + word_of_nat i) = m (t + word_of_nat i)" if "i + 16 < 2 ^ 64"
    using unat_add_small [of 16 i] that unfolding d
    by (intro store_bytes_outside) (simp add: algebra_simps)
qed

lemma load_beside_header:
  "load64 (store64 m (t - 16) v) (t - 8) = load64 m (t - 8)"
  "load64 (store64 m (t - 8) v) (t - 16) = load64 m (t - 16)"
  by (simp_all add: load_store_other)

lemma copied_header:
  assumes "r = 8 \<or> r = 16" and "unat r \<le> unat n"
  shows "load64 (copy_bytes m (f - r) (t - r) n) (t - 8) = load64 m (f - 8)"
  using copied_word [of "r - 8" n m "f - r" "t - r"] assms by auto

lemma copied_payload:
  assumes "r = 8 \<or> r = 16" and "unat r + i < unat n"
  shows "copy_bytes m (f - r) (t - r) n (t + word_of_nat i) = m (f + word_of_nat i)"
proof -
  have "unat r + i < 2 ^ 64" using assms(2) unat_less_2_64 [of n] by linarith
  then have "unat (r + word_of_nat i) < unat n"
    using assms(2) by (simp add: unat_add_small)
  from copied_byte [OF this, of m "f - r" "t - r"] show ?thesis by (simp add: algebra_simps)
qed
lemma unat_minus_8: "8 \<le> unat n \<Longrightarrow> unat (n - 8 :: usize) = unat n - 8"
  by (simp add: unat_sub_if' word_le_nat_alt)


lemma move_target_cases:
  assumes "move_dest st to = t"
  shows "to = ToObject t \<or> to = ToAddress (t - 8 - word_of_nat (hash_words st))"
  using assms by (cases to) (auto simp: move_dest_def offset_defs)

lemmas move_defs = move_object_def offset_defs obj_store_header_def Let_def hash_words_def

lemma move_object_Hashed:
  assumes "hashing_vm V" and "obj_header m from = Some h"
    and "header_hash_state V h = Some Hashed" and t: "move_dest Hashed to = t" and "t \<noteq> 0"
    and n: "16 \<le> unat n"
  shows "move_object V m from to n =
    Some (t, store64 (store64 (copy_bytes m (from - 8) (t - 8) (n - 8)) (t - 16) (drop_bit 3 from))
               (t - 8) (header_set_hash_state V h HashedAndMoved))"
proof -
  have hw: "h = load64 m (from - 8)"
    using assms(2) by (auto simp: obj_header_def offset_defs split: if_splits)
  have "load64 (copy_bytes m (from - 8) (t - 8) (n - 8)) (t - 8) = h"
    using n by (simp add: hw copied_header unat_minus_8)
  then have "obj_header (store64 (copy_bytes m (from - 8) (t - 8) (n - 8)) (t - 16) (drop_bit 3 from)) t = Some h"
    using \<open>t \<noteq> 0\<close> by (simp add: obj_header_def obj_is_null_def offset_defs load_beside_header)
  then show ?thesis
    using move_target_cases [OF t] assms(1-3) by (auto simp: move_defs)
qed

lemma move_object_not_Hashed:
  assumes "hashing_vm V" and "obj_header m from = Some h"
    and "header_hash_state V h = Some st" and "st \<noteq> Hashed"
    and t: "move_dest st to = t" and "t \<noteq> 0"
    and r: "r = 8 + word_of_nat (hash_words st)" and n: "unat r \<le> unat n"
  shows "move_object V m from to n =
    Some (t, store64 (copy_bytes m (from - r) (t - r) n) (t - 8) (header_set_hash_state V h Hashed))"
proof -
  have hw: "h = load64 m (from - 8)"
    using assms(2) by (auto simp: obj_header_def offset_defs split: if_splits)
  have "r = 8 \<or> r = 16" using r by (simp add: hash_words_def)
  then have "load64 (copy_bytes m (from - r) (t - r) n) (t - 8) = h"
    using n by (simp add: hw copied_header)
  then have "obj_header (copy_bytes m (from - r) (t - r) n) t = Some h"
    using \<open>t \<noteq> 0\<close> by (simp add: obj_header_def obj_is_null_def offset_defs)
  then show ?thesis
    using move_target_cases [OF t] assms(1-4) r
    by (cases st) (auto simp: move_defs)
qed

text \<open>
  What a move does, for every state and target: the object is at the place computed from the
  target, its header is the old one with the new hash state, the hash word is the old address
  or the old hash word, and the payload is the old payload.
\<close>

lemma move_object_moves:
  assumes V: "hashing_vm V" and h: "obj_header m from = Some h"
    and st: "header_hash_state V h = Some st" and t: "move_dest st to = t" and "t \<noteq> 0"
    and n: "8 + hash_words st \<le> unat n"
  shows "\<exists>m'. move_object V m from to n = Some (t, m') \<and>
    load64 m' (t - 8) = header_set_hash_state V h (moved_state st) \<and>
    (st = Hashed \<longrightarrow> load64 m' (t - 16) = drop_bit 3 from) \<and>
    (\<forall>i < unat n - (8 + hash_words st). m' (t + word_of_nat i) = m (from + word_of_nat i))"
proof (cases "st = Hashed")
  case True
  have n16: "16 \<le> unat n" using n True by (simp add: hash_words_def)
  have i: "i + 16 < 2 ^ 64 \<and> i + 8 < 2 ^ 64 \<and> unat (8 :: usize) + i < unat (n - 8)" if "i < unat n - 16" for i
    using that unat_less_2_64 [of n] n16 by (simp add: unat_minus_8) arith
  show ?thesis
    using move_object_Hashed [OF V h st [unfolded True] t [unfolded True] \<open>t \<noteq> 0\<close> n16] i True
    by (auto simp: load_beside_header payload_outside_header copied_payload moved_state_def hash_words_def)
next
  case False
  let ?r = "8 + word_of_nat (hash_words st) :: usize"
  have r: "?r = 8 \<or> ?r = 16" and ur: "unat ?r = 8 + hash_words st"
    by (auto simp: hash_words_def)
  then have rn: "unat ?r \<le> unat n" using n by simp
  have i: "i + 8 < 2 ^ 64 \<and> unat ?r + i < unat n" if "i < unat n - (8 + hash_words st)" for i
    using that unat_less_2_64 [of n] n ur by (auto simp: hash_words_def)
  show ?thesis
    using move_object_not_Hashed [OF V h st False t \<open>t \<noteq> 0\<close> refl rn] i False
    by (auto simp: payload_outside_header copied_payload [OF r] moved_state_def)
qed

section \<open>Properties\<close>

lemma hashcode_overhead_state:
  assumes "hashing_vm V" and "obj_header m obj = Some h" and "header_hash_state V h = Some st"
  shows "hashcode_overhead V True m obj = Some (word_of_nat (hash_words st))"
    and "hashcode_overhead V False m obj = Some (if st = HashedAndMoved then 8 else 0)"
  using assms by (cases st; simp add: hashcode_overhead_def hash_words_def)+

text \<open>
  C19: an object moved into freshly allocated space is at the address that
  \<open>get_reference_when_copied_to\<close> announced for it, whatever its hash state.
\<close>

theorem move_object_at_announced_reference:
  assumes "hashing_vm V" and "obj_header m from = Some h" and "header_hash_state V h = Some st"
    and "8 + hash_words st \<le> unat n"
    and "get_reference_when_copied_to V m from addr = Some t" and "t \<noteq> 0"
  shows "\<exists>m'. move_object V m from (ToAddress addr) n = Some (t, m')"
proof -
  have "move_dest st (ToAddress addr) = t"
    using assms(5) hashcode_overhead_state [OF assms(1-3)]
    by (auto simp: get_reference_when_copied_to_def move_dest_def Let_def split: if_splits)
  then show ?thesis
    using move_object_moves [OF assms(1-3) _ assms(6,4)] by blast
qed

definition hashed_memory :: memory where
  "hashed_memory = store64 (\<lambda>_. 0) 8184 (0x4000000000000010)"

lemma hashed_memory_header [simp]:
  "obj_header hashed_memory 8192 = Some 0x4000000000000010"
  "header_hash_state word_vm 0x4000000000000010 = Some Hashed"
  by (simp_all add: obj_header_def obj_is_null_def hashed_memory_def offset_defs
    header_hash_state_def) (simp_all add: std_lib_def)

theorem move_object_at_announced_reference_witness:
  "\<exists>m'. move_object word_vm hashed_memory 8192 (ToAddress 40960) 32 = Some (40976, m')"
proof -
  have "get_reference_when_copied_to word_vm hashed_memory 8192 40960 = Some 40976"
    by (simp add: get_reference_when_copied_to_def hashcode_overhead_def offset_defs)
  then show ?thesis
    using move_object_at_announced_reference [of word_vm hashed_memory 8192 "0x4000000000000010" Hashed 32 40960 40976]
    by (simp add: hash_words_def)
qed

text \<open>
  C18: a move preserves the object: the payload bytes and the metadata of the copy are those of
  the original.
\<close>

theorem move_object_preserves_object:
  assumes "hashing_vm V" and "obj_header m from = Some h" and "header_hash_state V h = Some st"
    and "8 + hash_words st \<le> unat n" and "move_object V m from to n = Some (t, m')"
    and "move_dest st to \<noteq> 0"
  shows "obj_metadata V m' t = obj_metadata V m from \<and>
    (\<forall>i < unat n - (8 + hash_words st). m' (t + word_of_nat i) = m (from + word_of_nat i))"
proof -
  have t: "move_dest st to = t" and hd: "load64 m' (t - 8) = header_set_hash_state V h (moved_state st)"
    and pl: "\<forall>i < unat n - (8 + hash_words st). m' (t + word_of_nat i) = m (from + word_of_nat i)"
    using move_object_moves [OF assms(1-3) refl assms(6,4)] assms(5) by auto
  have "obj_header m' t = Some (header_set_hash_state V h (moved_state st))"
    using hd t assms(6) by (simp add: obj_header_def obj_is_null_def offset_defs)
  then show ?thesis
    using pl assms(1,2) by (simp add: obj_metadata_def vm_header.set_hash_state_metadata)
qed

theorem move_object_preserves_object_witness:
  "\<exists>m'. move_object word_vm hashed_memory 8192 (ToAddress 40960) 32 = Some (40976, m') \<and>
     obj_metadata word_vm m' 40976 = obj_metadata word_vm hashed_memory 8192"
proof -
  have "move_dest Hashed (ToAddress 40960) = 40976"
    by (simp add: move_dest_def offset_defs hash_words_def)
  then obtain m' where "move_object word_vm hashed_memory 8192 (ToAddress 40960) 32 = Some (40976, m')"
    using move_object_moves [of word_vm hashed_memory 8192 "0x4000000000000010" Hashed "ToAddress 40960" 40976 32]
    by (auto simp: hash_words_def)
  then show ?thesis
    using move_object_preserves_object
        [of word_vm hashed_memory 8192 "0x4000000000000010" Hashed 32 "ToAddress 40960" 40976 m']
    by (simp add: hash_words_def move_dest_def offset_defs)
qed

lemma obj_hashcode_Hashed:
  assumes "hashing_vm V" and "obj_header m obj = Some h" and "header_hash_state V h = Some st"
    and "st \<noteq> HashedAndMoved"
  shows "obj_hashcode V f m obj =
    Some (drop_bit 3 obj, obj_store_header m obj (header_set_hash_state V h Hashed))"
  using assms by (simp add: obj_hashcode_def)

text \<open>
  C20: the hash code of an object survives its first move: once \<open>hashcode()\<close> has been asked
  for, the moved object answers with the same value, from the word stored before its header.
\<close>

theorem hashcode_stable_across_move:
  assumes "hashing_vm V" and "obj_header m from = Some h" and "header_hash_state V h = Some st"
    and "st \<noteq> HashedAndMoved" and "16 \<le> unat n" and "move_dest Hashed to \<noteq> 0"
    and "obj_hashcode V f m from = Some (hc, m1)"
    and "move_object V m1 from to n = Some (t, m2)"
  shows "obj_hashcode V f m2 t = Some (hc, m2)"
proof -
  have hc: "hc = drop_bit 3 from" and m1: "m1 = obj_store_header m from (header_set_hash_state V h Hashed)"
    using obj_hashcode_Hashed [OF assms(1-4)] assms(7) by auto
  have from0: "from \<noteq> 0" using assms(2) by (simp add: obj_header_Some_iff)
  have h1: "obj_header m1 from = Some (header_set_hash_state V h Hashed)"
    using from0 m1 by simp
  have st1: "header_hash_state V (header_set_hash_state V h Hashed) = Some Hashed"
    using assms(1) by (rule vm_header.set_get_hash_state)
  have n: "8 + hash_words Hashed \<le> unat n" using assms(5) by (simp add: hash_words_def)
  have t: "t \<noteq> 0" "load64 m2 (t - 16) = drop_bit 3 from"
    and hd: "load64 m2 (t - 8) = header_set_hash_state V (header_set_hash_state V h Hashed) HashedAndMoved"
    using move_object_moves [OF assms(1) h1 st1 refl assms(6) n] assms(6,8)
    by (auto simp: moved_state_def)
  then have "obj_header m2 t = Some (header_set_hash_state V (header_set_hash_state V h Hashed) HashedAndMoved)"
    by (simp add: obj_header_Some_iff)
  then show ?thesis
    using t assms(1) hc by (simp add: obj_hashcode_def vm_header.set_get_hash_state offset_defs)
qed

definition unhashed_memory :: memory where
  "unhashed_memory = store64 (\<lambda>_. 0) 8184 16"

lemma unhashed_memory_header [simp]:
  "obj_header unhashed_memory 8192 = Some 16"
  "header_hash_state word_vm 16 = Some Unhashed"
  by (simp_all add: obj_header_def obj_is_null_def unhashed_memory_def offset_defs
    header_hash_state_def) (simp_all add: std_lib_def)

theorem hashcode_stable_across_move_witness:
  "\<exists>m1 m2. obj_hashcode word_vm id unhashed_memory 8192 = Some (1024, m1) \<and>
     move_object word_vm m1 8192 (ToAddress 40960) 32 = Some (40976, m2) \<and>
     obj_hashcode word_vm id m2 40976 = Some (1024, m2)"
proof -
  let ?h = "header_set_hash_state word_vm 16 Hashed"
  let ?m1 = "obj_store_header unhashed_memory 8192 ?h"
  have hc: "obj_hashcode word_vm id unhashed_memory 8192 = Some (1024, ?m1)"
    using obj_hashcode_Hashed [of word_vm unhashed_memory 8192 16 Unhashed id] by simp
  have d: "move_dest Hashed (ToAddress 40960) = 40976"
    by (simp add: move_dest_def offset_defs hash_words_def)
  have "header_hash_state word_vm ?h = Some Hashed"
    by (simp add: vm_header.set_get_hash_state)
  then obtain m2 where mv: "move_object word_vm ?m1 8192 (ToAddress 40960) 32 = Some (40976, m2)"
    using move_object_moves [of word_vm ?m1 8192 ?h Hashed "ToAddress 40960" 40976 32] d
    by (auto simp: hash_words_def)
  from hashcode_stable_across_move [OF _ _ _ _ _ _ hc mv, of 16 Unhashed] d
  have "obj_hashcode word_vm id m2 40976 = Some (1024, m2)" by simp
  then show ?thesis using hc mv by blast
qed

text \<open>
  A second move forgets the hash code. An object whose header says \<open>HashedAndMoved\<close> is
  given the state \<open>Hashed\<close> by the move, so that its hash code is computed from its new
  address again and the stored hash code is no longer read.
\<close>

theorem second_move_resets_hashcode:
  assumes "hashing_vm V" and "obj_header m from = Some h"
    and "header_hash_state V h = Some HashedAndMoved" and "16 \<le> unat n"
    and "move_dest HashedAndMoved to \<noteq> 0" and "move_object V m from to n = Some (t, m')"
  shows "obj_hashcode V f m from = Some (load64 m (from - 16), m) \<and>
    (\<exists>m''. obj_hashcode V f m' t = Some (drop_bit 3 t, m''))"
proof -
  have n: "8 + hash_words HashedAndMoved \<le> unat n" using assms(4) by (simp add: hash_words_def)
  have t: "t \<noteq> 0" and hd: "load64 m' (t - 8) = header_set_hash_state V h Hashed"
    using move_object_moves [OF assms(1-3) refl assms(5) n] assms(5,6)
    by (auto simp: moved_state_def)
  then have h': "obj_header m' t = Some (header_set_hash_state V h Hashed)"
    by (simp add: obj_header_Some_iff)
  show ?thesis
    using obj_hashcode_Hashed [OF assms(1) h' vm_header.set_get_hash_state [OF assms(1)]] assms(1-3)
    by (simp add: obj_hashcode_def offset_defs)
qed

definition moved_memory :: memory where
  "moved_memory = store64 (store64 (\<lambda>_. 0) 8184 0x8000000000000010) 8176 77"

lemma moved_memory_header [simp]:
  "obj_header moved_memory 8192 = Some 0x8000000000000010"
  "header_hash_state word_vm 0x8000000000000010 = Some HashedAndMoved"
proof -
  have "load64 moved_memory 8184 = 0x8000000000000010"
    using load_beside_header(1) [of _ 8192] by (simp add: moved_memory_def)
  then show "obj_header moved_memory 8192 = Some 0x8000000000000010"
    by (simp add: obj_header_Some_iff)
qed (simp add: header_hash_state_def, simp add: std_lib_def)

theorem second_move_resets_hashcode_witness:
  "\<exists>m' m''. move_object word_vm moved_memory 8192 (ToAddress 40960) 32 = Some (40976, m') \<and>
     obj_hashcode word_vm id moved_memory 8192 = Some (77, moved_memory) \<and>
     obj_hashcode word_vm id m' 40976 = Some (5122, m'')"
proof -
  have d: "move_dest HashedAndMoved (ToAddress 40960) = 40976"
    by (simp add: move_dest_def offset_defs hash_words_def)
  then obtain m' where mv: "move_object word_vm moved_memory 8192 (ToAddress 40960) 32 = Some (40976, m')"
    using move_object_moves [of word_vm moved_memory 8192 "0x8000000000000010" HashedAndMoved
        "ToAddress 40960" 40976 32]
    by (auto simp: hash_words_def)
  have "load64 moved_memory 8176 = 77" by (simp add: moved_memory_def)
  then show ?thesis
    using second_move_resets_hashcode [OF _ _ _ _ _ mv, of "0x8000000000000010" id] d mv by auto
qed

text \<open>
  The space a copy reserves is the space the copy occupies. Except for an object that was
  moved before, the hash word counted for the copy is the one the copied object has, and the
  copied object starts exactly where the space given to it starts.
\<close>

theorem copy_fills_reserved_space:
  assumes "hashing_vm V" and "obj_header m from = Some h" and "header_hash_state V h = Some st"
    and "st \<noteq> HashedAndMoved" and "8 + hash_words st \<le> unat n"
    and "move_dest st (ToAddress addr) \<noteq> 0" and "move_object V m from (ToAddress addr) n = Some (t, m')"
  shows "object_start V m' t = Some addr \<and>
    hashcode_overhead V False m' t = hashcode_overhead V True m from"
proof -
  have t: "t \<noteq> 0" "t = addr + 8 + word_of_nat (hash_words st)"
    and hd: "load64 m' (t - 8) = header_set_hash_state V h (moved_state st)"
    using move_object_moves [OF assms(1-3) refl assms(6,5)] assms(6,7)
    by (auto simp: move_dest_def offset_defs)
  then have h': "obj_header m' t = Some (header_set_hash_state V h (moved_state st))"
    by (simp add: obj_header_Some_iff)
  have ov: "hashcode_overhead V False m' t = Some (if moved_state st = HashedAndMoved then 8 else 0)"
    and "hashcode_overhead V True m from = Some (word_of_nat (hash_words st))"
    using hashcode_overhead_state(2) [OF assms(1) h' vm_header.set_get_hash_state [OF assms(1)]]
      hashcode_overhead_state(1) [OF assms(1-3)] by simp_all
  then have "hashcode_overhead V False m' t = hashcode_overhead V True m from"
    using assms(4) by (cases st) (simp_all add: moved_state_def hash_words_def)
  moreover have "object_start V m' t = Some addr"
    unfolding object_start_def ov using assms(4) t(2)
    by (cases st) (simp_all add: moved_state_def hash_words_def offset_defs)
  ultimately show ?thesis by simp
qed

theorem copy_fills_reserved_space_witness:
  "\<exists>m'. move_object word_vm hashed_memory 8192 (ToAddress 40960) 32 = Some (40976, m') \<and>
     object_start word_vm m' 40976 = Some 40960"
proof -
  have d: "move_dest Hashed (ToAddress 40960) = 40976"
    by (simp add: move_dest_def offset_defs hash_words_def)
  then obtain m' where mv: "move_object word_vm hashed_memory 8192 (ToAddress 40960) 32 = Some (40976, m')"
    using move_object_moves [of word_vm hashed_memory 8192 "0x4000000000000010" Hashed "ToAddress 40960" 40976 32]
    by (auto simp: hash_words_def)
  then show ?thesis
    using copy_fills_reserved_space [OF _ _ _ _ _ _ mv, of "0x4000000000000010" Hashed] d
    by (simp add: hash_words_def)
qed


text \<open>
  The factor by which mmtk may assume that copying enlarges objects at most, 1.3, as a fraction
  instead of the double next to it, and the comparison with it.
\<close>

definition VM_WORST_CASE_COPY_EXPANSION :: "nat \<times> nat" where
  "VM_WORST_CASE_COPY_EXPANSION = (13, 10)"

definition within_copy_expansion :: "usize \<Rightarrow> usize \<Rightarrow> bool" where
  "within_copy_expansion used required \<longleftrightarrow>
     snd VM_WORST_CASE_COPY_EXPANSION * unat required \<le> fst VM_WORST_CASE_COPY_EXPANSION * unat used"

lemma raw_align_up_words:
  assumes "lib_ok L" and "unat v + 16 \<le> 2 ^ 64"
  shows "unat (raw_align_up L v 8) = 8 * ((unat v + 7) div 8)"
    and "unat (raw_align_up L (v + 8) 8) = 8 * ((unat v + 7) div 8) + 8"
proof -
  have a: "unat (raw_align_up L w 8) = 8 * ((unat w + 7) div 8)" if "unat w + 8 \<le> 2 ^ 64" for w
  proof -
    have b: "aligned 3 (raw_align_up L w 8)" "unat w \<le> unat (raw_align_up L w 8)"
        "unat (raw_align_up L w 8) < unat w + 8"
      using raw_align_up_bounds [OF assms(1), of 3 w] that by simp_all
    then obtain k where k: "unat (raw_align_up L w 8) = 8 * k" by (auto simp: aligned_iff_dvd elim: dvdE)
    then have "(unat w + 7) div 8 = k" using b(2,3) unfolding k by (intro div_nat_eqI) simp_all
    then show ?thesis using k by simp
  qed
  show "unat (raw_align_up L v 8) = 8 * ((unat v + 7) div 8)" using a [of v] assms(2) by simp
  have "unat (v + 8) = unat v + 8" using assms(2) by (subst unat_add_no_overflow) simp_all
  moreover have "(unat v + 8 + 7) div 8 = (unat v + 7) div 8 + 1"
    using div_add_self2 [of 8 "unat v + 7"] by (simp only: ac_simps)
  ultimately show "unat (raw_align_up L (v + 8) 8) = 8 * ((unat v + 7) div 8) + 8"
    using a [of "v + 8"] assms(2) by (simp only:) simp
qed



end
