(* ===== verification/Vmkit_Alloc.thy ===== *)
theory Vmkit_Alloc
  imports Vmkit_Thread Vmkit_ObjectModel
begin

text \<open>
  \<open>mm.rs\<close>: the allocation routes, the hand-over of the thread-local buffer to mmtk and back,
  the valid-object bits, the write barriers and the counter that disables collections. mmtk is
  not under src/: its mutator, with the allocator behind it, is an abstract state \<^typ>\<open>'g\<close>, and
  the calls the sources make are the fields of a record.
\<close>

section \<open>The interface to mmtk\<close>

datatype allocation_semantics = Default | Los | NonMoving | Immortal | OtherSemantics nat

datatype allocator_selector = BumpPointer | Immix | FreeList | OtherAllocator

datatype barrier_selector = ObjectBarrier | NoBarrier

record 'g mmtk =
  mmtk_alloc :: "'g \<Rightarrow> memory \<Rightarrow> usize \<Rightarrow> usize \<Rightarrow> usize \<Rightarrow> allocation_semantics \<Rightarrow> address \<times> 'g \<times> memory"
  mmtk_alloc_slow :: "'g \<Rightarrow> memory \<Rightarrow> usize \<Rightarrow> usize \<Rightarrow> usize \<Rightarrow> allocation_semantics \<Rightarrow> address \<times> 'g \<times> memory"
  mmtk_post_alloc :: "'g \<Rightarrow> memory \<Rightarrow> address \<Rightarrow> usize \<Rightarrow> allocation_semantics \<Rightarrow> 'g \<times> memory"
  mmtk_write_slow :: "'g \<Rightarrow> memory \<Rightarrow> address \<Rightarrow> address \<Rightarrow> address option \<Rightarrow> 'g \<times> memory"
  default_selector :: allocator_selector
  bump_pointer :: "'g \<Rightarrow> address \<times> address"
  bump_reset :: "'g \<Rightarrow> address \<Rightarrow> address \<Rightarrow> 'g"
  VO_BIT_SIDE_METADATA_ADDR :: address
  GLOBAL_SIDE_METADATA_VM_BASE_ADDRESS :: address

text \<open>The state an allocation changes: the thread with its buffer, mmtk's mutator, the memory.\<close>

record 'g mm_state =
  mm_thread :: "barrier_selector thread"
  mm_mmtk :: 'g
  mm_mem :: memory

section \<open>The thread-local buffer\<close>

definition flush_tlab :: "'g mmtk \<Rightarrow> 'g mm_state \<Rightarrow> 'g mm_state option" where
  "flush_tlab K S =
     (let ((c, l), buf) = tlab_take (tl_tlab (mm_thread S));
          S = S \<lparr> mm_thread := (mm_thread S) \<lparr> tl_tlab := buf \<rparr> \<rparr>
      in if c = 0 then (if l = 0 then Some S else None)
         else case default_selector K of
             Immix \<Rightarrow> Some (S \<lparr> mm_mmtk := bump_reset K (mm_mmtk S) c l \<rparr>)
           | BumpPointer \<Rightarrow> Some (S \<lparr> mm_mmtk := bump_reset K (mm_mmtk S) c l \<rparr>)
           | _ \<Rightarrow> None)"

definition refill_tlab :: "'g mmtk \<Rightarrow> 'g mm_state \<Rightarrow> 'g mm_state" where
  "refill_tlab K S =
     (let rebound = (let (c, l) = bump_pointer K (mm_mmtk S)
                     in S \<lparr> mm_thread := (mm_thread S) \<lparr> tl_tlab := tlab_rebind (tl_tlab (mm_thread S)) c l \<rparr> \<rparr>)
      in case default_selector K of Immix \<Rightarrow> rebound | BumpPointer \<Rightarrow> rebound | _ \<Rightarrow> S)"

section \<open>Valid-object bits\<close>

definition set_vo_bit :: "'g mmtk \<Rightarrow> memory \<Rightarrow> vmkit_object \<Rightarrow> memory" where
  "set_vo_bit K m obj =
     (let meta = VO_BIT_SIDE_METADATA_ADDR K + drop_bit 6 obj;
          mask = push_bit (unat (drop_bit 3 obj AND 7)) 1
      in m(meta := m meta OR mask))"

section \<open>Allocation\<close>

text \<open>The part all routes share: the header is stored in front of the object.\<close>

definition store_new_header :: "('m, 's) vm \<Rightarrow> memory \<Rightarrow> address \<Rightarrow> 'm \<Rightarrow> memory" where
  "store_new_header V m start md = store64 m start (header_new V md)"

definition allocate_slow ::
  "('m, 's) vm \<Rightarrow> 'g mmtk \<Rightarrow> 'g mm_state \<Rightarrow> usize \<Rightarrow> usize \<Rightarrow> 'm \<Rightarrow> allocation_semantics
     \<Rightarrow> (vmkit_object \<times> 'g mm_state) option" where
  "allocate_slow V K S sz alignment md semantics = do {
     S \<leftarrow> flush_tlab K S;
     let (start, g, m) = mmtk_alloc_slow K (mm_mmtk S) (mm_mem S) sz alignment OBJECT_REF_OFFSET semantics;
     let m = store_new_header V m start md;
     let object = start + OBJECT_REF_OFFSET;
     let m = set_vo_bit K m object;
     Some (object, refill_tlab K (S \<lparr> mm_mmtk := g, mm_mem := m \<rparr>))
   }"

text \<open>
  \<open>allocate_nonmoving\<close>, \<open>allocate_immortal\<close> and the default route of \<open>allocate_out_of_line\<close> differ
  in the semantics and in the offset they ask for.
\<close>

definition allocate_with ::
  "('m, 's) vm \<Rightarrow> 'g mmtk \<Rightarrow> 'g mm_state \<Rightarrow> usize \<Rightarrow> usize \<Rightarrow> usize \<Rightarrow> 'm \<Rightarrow> allocation_semantics
     \<Rightarrow> (vmkit_object \<times> 'g mm_state) option" where
  "allocate_with V K S sz alignment offset md semantics = do {
     S \<leftarrow> flush_tlab K S;
     let (start, g, m) = mmtk_alloc K (mm_mmtk S) (mm_mem S) sz alignment offset semantics;
     let object = start + OBJECT_REF_OFFSET;
     let m = store_new_header V m start md;
     let m = set_vo_bit K m object;
     Some (object, refill_tlab K (S \<lparr> mm_mmtk := g, mm_mem := m \<rparr>))
   }"

definition allocate_nonmoving ::
  "('m, 's) vm \<Rightarrow> 'g mmtk \<Rightarrow> 'g mm_state \<Rightarrow> usize \<Rightarrow> usize \<Rightarrow> 'm \<Rightarrow> (vmkit_object \<times> 'g mm_state) option" where
  "allocate_nonmoving V K S sz alignment md = allocate_with V K S sz alignment OBJECT_REF_OFFSET md NonMoving"

definition allocate_immortal ::
  "('m, 's) vm \<Rightarrow> 'g mmtk \<Rightarrow> 'g mm_state \<Rightarrow> usize \<Rightarrow> usize \<Rightarrow> 'm \<Rightarrow> (vmkit_object \<times> 'g mm_state) option" where
  "allocate_immortal V K S sz alignment md = allocate_with V K S sz alignment OBJECT_REF_OFFSET md Immortal"

definition allocate_los ::
  "('m, 's) vm \<Rightarrow> 'g mmtk \<Rightarrow> 'g mm_state \<Rightarrow> usize \<Rightarrow> usize \<Rightarrow> 'm \<Rightarrow> (vmkit_object \<times> 'g mm_state) option" where
  "allocate_los V K S sz alignment md = do {
     S \<leftarrow> flush_tlab K S;
     let (start, g, m) = mmtk_alloc K (mm_mmtk S) (mm_mem S) sz alignment OBJECT_REF_OFFSET Los;
     let object = start + OBJECT_REF_OFFSET;
     let m = store_new_header V m start md;
     let S = refill_tlab K (S \<lparr> mm_mmtk := g, mm_mem := m \<rparr>);
     let (g, m) = mmtk_post_alloc K (mm_mmtk S) (mm_mem S) object sz Los;
     Some (object, S \<lparr> mm_mmtk := g, mm_mem := m \<rparr>)
   }"

definition choose_semantics ::
  "barrier_selector thread \<Rightarrow> usize \<Rightarrow> allocation_semantics \<Rightarrow> allocation_semantics" where
  "choose_semantics t sz semantics =
     (if semantics = Default \<and> sz \<ge> max_non_los_default_alloc_bytes t then Los else semantics)"

definition allocate_out_of_line ::
  "('m, 's) vm \<Rightarrow> 'g mmtk \<Rightarrow> 'g mm_state \<Rightarrow> usize \<Rightarrow> usize \<Rightarrow> 'm \<Rightarrow> allocation_semantics
     \<Rightarrow> (vmkit_object \<times> 'g mm_state) option" where
  "allocate_out_of_line V K S sz alignment md semantics =
     (let sz = sz + 8;
          semantics = choose_semantics (mm_thread S) sz semantics;
          sz = raw_align_up (lib V) sz alignment
      in case semantics of
           Los \<Rightarrow> allocate_los V K S sz alignment md
         | NonMoving \<Rightarrow> allocate_nonmoving V K S sz alignment md
         | Immortal \<Rightarrow> allocate_immortal V K S sz alignment md
         | _ \<Rightarrow> allocate_with V K S sz alignment 0 md semantics)"

definition allocate ::
  "('m, 's) vm \<Rightarrow> 'g mmtk \<Rightarrow> 'g mm_state \<Rightarrow> usize \<Rightarrow> usize \<Rightarrow> 'm \<Rightarrow> allocation_semantics
     \<Rightarrow> (vmkit_object \<times> 'g mm_state) option" where
  "allocate V K S orig_size alignment md orig_semantics =
     (let sz = orig_size + 8;
          semantics = choose_semantics (mm_thread S) sz orig_semantics;
          sz = raw_align_up (lib V) sz alignment
      in if semantics = Default \<and> alloc_fastpath (mm_thread S) = TLABPath
         then (let (start, buf) = tlab_allocate (lib V) (tl_tlab (mm_thread S)) sz alignment OBJECT_REF_OFFSET;
                   S = S \<lparr> mm_thread := (mm_thread S) \<lparr> tl_tlab := buf \<rparr> \<rparr>
               in if start \<noteq> 0
                  then (let m = store_new_header V (mm_mem S) start md;
                            object = start + OBJECT_REF_OFFSET
                        in Some (object, S \<lparr> mm_mem := set_vo_bit K m object \<rparr>))
                  else allocate_slow V K S sz alignment md semantics)
         else allocate_out_of_line V K S orig_size alignment md orig_semantics)"

text \<open>
  \<open>manage\<close> and \<open>manage_uninit\<close>: a value of a Rust type with size and alignment \<^term>\<open>tsize\<close> and
  \<^term>\<open>talign\<close>, stored by \<^term>\<open>put\<close>, in an object of the given size.
\<close>

definition manage_uninit ::
  "('m, 's) vm \<Rightarrow> 'g mmtk \<Rightarrow> 'g mm_state \<Rightarrow> usize \<Rightarrow> usize \<Rightarrow> 'm \<Rightarrow> usize \<Rightarrow> (vmkit_object \<times> 'g mm_state) option" where
  "manage_uninit V K S tsize talign md sz =
     (if sz \<ge> tsize then allocate V K S sz talign md Default else None)"

definition manage ::
  "('m, 's) vm \<Rightarrow> 'g mmtk \<Rightarrow> 'g mm_state \<Rightarrow> usize \<Rightarrow> usize \<Rightarrow> (memory \<Rightarrow> address \<Rightarrow> memory) \<Rightarrow> 'm \<Rightarrow> usize
     \<Rightarrow> (vmkit_object \<times> 'g mm_state) option" where
  "manage V K S tsize talign put md sz =
     (if sz \<ge> tsize
      then map_option (\<lambda>(object, S). (object, S \<lparr> mm_mem := put (mm_mem S) object \<rparr>))
             (allocate V K S sz talign md Default)
      else None)"

section \<open>Write barriers\<close>

definition object_reference_write_pre :: "'g mm_state \<Rightarrow> vmkit_object \<Rightarrow> address \<Rightarrow> vmkit_object \<Rightarrow> 'g mm_state" where
  "object_reference_write_pre S src slot target = S"

definition unlogged :: "'g mmtk \<Rightarrow> memory \<Rightarrow> vmkit_object \<Rightarrow> bool" where
  "unlogged K m obj \<longleftrightarrow>
     drop_bit (unat (drop_bit 3 obj AND 7)) (m (GLOBAL_SIDE_METADATA_VM_BASE_ADDRESS K + drop_bit 6 obj)) AND 1 = 1"

definition object_reference_write_post ::
  "'g mmtk \<Rightarrow> 'g mm_state \<Rightarrow> vmkit_object \<Rightarrow> address \<Rightarrow> vmkit_object \<Rightarrow> 'g mm_state" where
  "object_reference_write_post K S src slot target =
     (case barrier (mm_thread S) of
        ObjectBarrier \<Rightarrow>
          (if unlogged K (mm_mem S) src
           then (let (g, m) = mmtk_write_slow K (mm_mmtk S) (mm_mem S) src slot
                   (if obj_is_null target then None else Some target)
                 in S \<lparr> mm_mmtk := g, mm_mem := m \<rparr>)
           else S)
      | NoBarrier \<Rightarrow> S)"

text \<open>A slot is an address that holds one object reference.\<close>

definition object_reference_write ::
  "'g mmtk \<Rightarrow> 'g mm_state \<Rightarrow> vmkit_object \<Rightarrow> address \<Rightarrow> vmkit_object \<Rightarrow> 'g mm_state option" where
  "object_reference_write K S src slot target =
     (if obj_is_not_null target
      then (let S = object_reference_write_pre S src slot target;
                S = S \<lparr> mm_mem := store64 (mm_mem S) slot target \<rparr>
            in Some (object_reference_write_post K S src slot target))
      else None)"

section \<open>Disabling collections\<close>

definition disable_gc :: "usize \<Rightarrow> usize" where
  "disable_gc gc_disabled_depth = gc_disabled_depth + 1"

definition enable_gc :: "usize \<Rightarrow> usize" where
  "enable_gc gc_disabled_depth = gc_disabled_depth - 1"

definition is_gc_enabled :: "usize \<Rightarrow> bool" where
  "is_gc_enabled gc_disabled_depth \<longleftrightarrow> gc_disabled_depth = 0"

section \<open>The buffer is handed over and back\<close>

abbreviation tlab_pair :: "tlab \<Rightarrow> address \<times> address" where
  "tlab_pair t \<equiv> (cursor t, limit t)"

definition has_tlab :: "'g mmtk \<Rightarrow> bool" where
  "has_tlab K \<longleftrightarrow> default_selector K = Immix \<or> default_selector K = BumpPointer"

text \<open>The states between operations: an empty buffer is all zero, and only a bump allocator has one.\<close>

definition mm_ok :: "'g mmtk \<Rightarrow> 'g mm_state \<Rightarrow> bool" where
  "mm_ok K S \<longleftrightarrow> (let t = tl_tlab (mm_thread S) in
     (cursor t = 0 \<longrightarrow> limit t = 0) \<and> (cursor t \<noteq> 0 \<longrightarrow> has_tlab K))"

text \<open>
  What mmtk keeps of its bump pointer: an unset one is all zero, and the
  bookkeeping after a large allocation does not move it.
\<close>

definition bump_law :: "'g mmtk \<Rightarrow> bool" where
  "bump_law K \<longleftrightarrow>
     (\<forall>g l. bump_pointer K g = (0, l) \<longrightarrow> l = 0) \<and>
     (\<forall>g m a sz s. bump_pointer K (fst (mmtk_post_alloc K g m a sz s)) = bump_pointer K g)"

text \<open>The allocator after the flush, as mmtk's next call sees it.\<close>

definition handed_over :: "'g mmtk \<Rightarrow> 'g mm_state \<Rightarrow> 'g" where
  "handed_over K S = (let t = tl_tlab (mm_thread S) in
     if cursor t = 0 then mm_mmtk S else bump_reset K (mm_mmtk S) (cursor t) (limit t))"

lemma flush_tlab_ok:
  assumes "mm_ok K S"
  shows "flush_tlab K S = Some (S \<lparr> mm_thread := (mm_thread S) \<lparr> tl_tlab := tlab_new \<rparr>, mm_mmtk := handed_over K S \<rparr>)"
  using assms
  by (auto simp: flush_tlab_def mm_ok_def handed_over_def tlab_take_def tlab_reset_def tlab_new_def
      has_tlab_def Let_def split: allocator_selector.splits)

lemma refill_tlab_eq:
  "refill_tlab K S = (if has_tlab K
     then S \<lparr> mm_thread := (mm_thread S) \<lparr> tl_tlab := \<lparr> cursor = fst (bump_pointer K (mm_mmtk S)),
            limit = snd (bump_pointer K (mm_mmtk S)) \<rparr> \<rparr> \<rparr> else S)"
  by (simp add: refill_tlab_def has_tlab_def tlab_rebind_def case_prod_beta Let_def split: allocator_selector.split)

lemma refill_tlab_sync:
  assumes "bump_law K" and "tl_tlab (mm_thread S) = tlab_new"
  shows "mm_ok K (refill_tlab K S)" and "mm_mmtk (refill_tlab K S) = mm_mmtk S"
    and "mm_mem (refill_tlab K S) = mm_mem S"
    and "has_tlab K \<Longrightarrow> tlab_pair (tl_tlab (mm_thread (refill_tlab K S))) = bump_pointer K (mm_mmtk S)"
  using assms
  by (auto simp: refill_tlab_eq mm_ok_def tlab_new_def bump_law_def Let_def; metis prod.collapse)+

text \<open>
  A route into mmtk: the call gets the allocator with the buffer's contents, the object is
  behind the header word of the cell it returns, and afterwards the buffer is what the
  allocator's bump pointer says.
\<close>

definition mmtk_call :: "'g mmtk \<Rightarrow> 'g mm_state \<Rightarrow> address \<Rightarrow> bool" where
  "mmtk_call K S a \<longleftrightarrow> (\<exists>n al off sem.
     fst (mmtk_alloc K (handed_over K S) (mm_mem S) n al off sem) = a \<or>
     fst (mmtk_alloc_slow K (handed_over K S) (mm_mem S) n al off sem) = a)"

definition routed :: "'g mmtk \<Rightarrow> 'g mm_state \<Rightarrow> (vmkit_object \<times> 'g mm_state) option \<Rightarrow> bool" where
  "routed K S r \<longleftrightarrow> (\<exists>obj S'. r = Some (obj, S') \<and> mm_ok K S' \<and> mmtk_call K S (obj - OBJECT_REF_OFFSET) \<and>
     (has_tlab K \<longrightarrow> tlab_pair (tl_tlab (mm_thread S')) = bump_pointer K (mm_mmtk S')))"

lemma mmtk_callI [intro, simp]:
  "mmtk_call K S (fst (mmtk_alloc K (handed_over K S) (mm_mem S) n al off sem))"
  "mmtk_call K S (fst (mmtk_alloc_slow K (handed_over K S) (mm_mem S) n al off sem))"
  by (auto simp: mmtk_call_def)

lemma allocate_with_routed:
  assumes "bump_law K" and "mm_ok K S"
  shows "routed K S (allocate_with V K S sz alignment offset md semantics)"
  using refill_tlab_sync [OF assms(1)]
  by (simp add: allocate_with_def flush_tlab_ok [OF assms(2)] routed_def case_prod_beta Let_def)

lemma allocate_slow_routed:
  assumes "bump_law K" and "mm_ok K S"
  shows "routed K S (allocate_slow V K S sz alignment md semantics)"
  using refill_tlab_sync [OF assms(1)]
  by (simp add: allocate_slow_def flush_tlab_ok [OF assms(2)] routed_def case_prod_beta Let_def)

lemma allocate_los_routed:
  assumes "bump_law K" and "mm_ok K S"
  shows "routed K S (allocate_los V K S sz alignment md)"
proof -
  have "mm_ok K (S1 \<lparr> mm_mmtk := g, mm_mem := m \<rparr>) = mm_ok K S1" for S1 g m
    by (simp add: mm_ok_def)
  moreover have "bump_pointer K (fst (mmtk_post_alloc K g m a n s)) = bump_pointer K g" for g m a n s
    using assms(1) by (simp add: bump_law_def)
  ultimately show ?thesis
    using refill_tlab_sync [OF assms(1)]
    by (simp add: allocate_los_def flush_tlab_ok [OF assms(2)] routed_def case_prod_beta Let_def)
qed

lemma allocate_out_of_line_routed:
  assumes "bump_law K" and "mm_ok K S"
  shows "routed K S (allocate_out_of_line V K S sz alignment md semantics)"
  by (simp add: allocate_out_of_line_def allocate_nonmoving_def allocate_immortal_def Let_def
      allocate_with_routed [OF assms] allocate_los_routed [OF assms] split: allocation_semantics.split)

text \<open>The fast path, when the buffer has room: the block of the buffer becomes the object.\<close>

definition fast_path :: "('m, 's) vm \<Rightarrow> 'g mm_state \<Rightarrow> usize \<Rightarrow> usize \<Rightarrow> allocation_semantics \<Rightarrow> bool" where
  "fast_path V S sz alignment semantics \<longleftrightarrow>
     choose_semantics (mm_thread S) (sz + 8) semantics = Default \<and> alloc_fastpath (mm_thread S) = TLABPath \<and>
     fst (tlab_allocate (lib V) (tl_tlab (mm_thread S)) (raw_align_up (lib V) (sz + 8) alignment)
       alignment OBJECT_REF_OFFSET) \<noteq> 0"

lemma allocate_fast:
  assumes "fast_path V S sz alignment semantics"
    and "tlab_allocate (lib V) (tl_tlab (mm_thread S)) (raw_align_up (lib V) (sz + 8) alignment)
      alignment OBJECT_REF_OFFSET = (a, buf)"
  shows "allocate V K S sz alignment md semantics = Some (a + OBJECT_REF_OFFSET,
    S \<lparr> mm_thread := (mm_thread S) \<lparr> tl_tlab := buf \<rparr>,
        mm_mem := set_vo_bit K (store_new_header V (mm_mem S) a md) (a + OBJECT_REF_OFFSET) \<rparr>)"
  using assms by (simp add: allocate_def fast_path_def Let_def)

lemma allocate_not_fast:
  assumes "bump_law K" and "mm_ok K S" and "\<not> fast_path V S sz alignment semantics"
    and "\<And>buf. tlab_allocate (lib V) (tl_tlab (mm_thread S)) (raw_align_up (lib V) (sz + 8) alignment)
      alignment OBJECT_REF_OFFSET = (0, buf) \<Longrightarrow> buf = tl_tlab (mm_thread S)"
  shows "routed K S (allocate V K S sz alignment md semantics)"
proof (cases "choose_semantics (mm_thread S) (sz + 8) semantics = Default \<and> alloc_fastpath (mm_thread S) = TLABPath")
  case True
  then obtain buf where b: "tlab_allocate (lib V) (tl_tlab (mm_thread S))
      (raw_align_up (lib V) (sz + 8) alignment) alignment OBJECT_REF_OFFSET = (0, buf)"
    using assms(3) by (metis fast_path_def prod.collapse)
  moreover have "S \<lparr> mm_thread := (mm_thread S) \<lparr> tl_tlab := buf \<rparr> \<rparr> = S"
    using assms(4) [OF b] by simp
  ultimately show ?thesis
    using True allocate_slow_routed [OF assms(1,2)] by (simp add: allocate_def Let_def)
next
  case False
  then show ?thesis
    using allocate_out_of_line_routed [OF assms(1,2)] by (auto simp: allocate_def Let_def)
qed


section \<open>Reading the valid-object bits\<close>

definition vo_bit :: "'g mmtk \<Rightarrow> memory \<Rightarrow> vmkit_object \<Rightarrow> bool" where
  "vo_bit K m obj \<longleftrightarrow> bit (m (VO_BIT_SIDE_METADATA_ADDR K + drop_bit 6 obj)) (unat (drop_bit 3 obj AND 7))"

lemma granule_eq:
  "drop_bit 3 x = (drop_bit 3 y :: usize) \<longleftrightarrow> drop_bit 6 x = drop_bit 6 y \<and> drop_bit 3 x AND 7 = drop_bit 3 y AND 7"
proof -
  have a: "drop_bit 3 z AND 7 = take_bit 3 (drop_bit 3 z)" for z :: usize
    using and_exp_minus_1 [of "drop_bit 3 z" 3] by simp
  have b: "drop_bit 6 z = drop_bit 3 (drop_bit 3 z)" for z :: usize
    by simp
  have c: "u = v \<longleftrightarrow> drop_bit 3 u = drop_bit 3 v \<and> take_bit 3 u = take_bit 3 v" for u v :: usize
    by (metis bits_ident)
  show ?thesis unfolding a b by (subst c) simp
qed

lemma granule_bound: "unat (drop_bit 3 (x :: usize) AND 7) < 8"
  using and_exp_minus_1 [of "drop_bit 3 x" 3] unat_take_bit [of 3 "drop_bit 3 x"] by simp

text \<open>
  \<open>set_vo_bit\<close> sets the bit of the object it is given, and no bit of any other object: two
  objects share a bit only if they start in the same 8-byte granule.
\<close>

theorem set_vo_bit_exact:
  "vo_bit K (set_vo_bit K m obj) obj' \<longleftrightarrow> vo_bit K m obj' \<or> drop_bit 3 obj' = drop_bit 3 obj"
proof -
  have inj: "unat (drop_bit 3 x AND 7) = unat (drop_bit 3 y AND 7) \<longleftrightarrow> drop_bit 3 x AND 7 = drop_bit 3 y AND 7"
    for x y :: usize by (rule word_unat_eq_iff [symmetric])
  show ?thesis
    using granule_bound [of obj] granule_bound [of obj']
    by (auto simp: vo_bit_def set_vo_bit_def Let_def bit_simps granule_eq inj)
qed

section \<open>Properties\<close>

text \<open>
  C24: allocation never panics and keeps the buffer's protocol, for every semantics and every
  size that fits the address space: on the fast path mmtk's state is not touched; on every
  other path mmtk is called with the allocator that has just got the buffer's contents, the
  object lies one word behind the cell that call returned, and afterwards the buffer is the
  allocator's bump pointer again.
\<close>

theorem allocate_keeps_buffer_protocol:
  assumes "lib_ok (lib V)" and "bump_law K" and "mm_ok K S"
    and "request_fits (tl_tlab (mm_thread S)) (raw_align_up (lib V) (sz + 8) (2 ^ k), k, OBJECT_REF_OFFSET)"
  shows "\<exists>obj S'. allocate V K S sz (2 ^ k) md semantics = Some (obj, S') \<and> mm_ok K S' \<and>
    (if fast_path V S sz (2 ^ k) semantics then mm_mmtk S' = mm_mmtk S
     else mmtk_call K S (obj - OBJECT_REF_OFFSET) \<and>
       (has_tlab K \<longrightarrow> tlab_pair (tl_tlab (mm_thread S')) = bump_pointer K (mm_mmtk S')))"
proof (cases "fast_path V S sz (2 ^ k) semantics")
  case True
  obtain a buf where r: "tlab_allocate (lib V) (tl_tlab (mm_thread S)) (raw_align_up (lib V) (sz + 8) (2 ^ k))
      (2 ^ k) OBJECT_REF_OFFSET = (a, buf)" by fastforce
  then have "a \<noteq> 0" using True by (simp add: fast_path_def)
  note b = tlab_allocate_block [OF assms(1,4) r this]
  have "cursor buf \<noteq> 0" using b(6) by auto
  moreover have "cursor (tl_tlab (mm_thread S)) \<noteq> 0"
    using b assms(3) \<open>a \<noteq> 0\<close> by (auto simp: mm_ok_def Let_def word_less_nat_alt)
  ultimately show ?thesis
    using True assms(3) by (simp add: allocate_fast [OF True r] mm_ok_def Let_def)
next
  case False
  have "routed K S (allocate V K S sz (2 ^ k) md semantics)"
    using tlab_allocate_zero [OF assms(1,4)] by (intro allocate_not_fast [OF assms(2,3) False])
  then show ?thesis using False by (auto simp: routed_def)
qed


text \<open>A bump allocator, for the witnesses: its state is its bump pointer.\<close>

definition bump_mmtk :: "(address \<times> address) mmtk" where
  "bump_mmtk = \<lparr>
     mmtk_alloc = (\<lambda>g m n al off s. let a = align_allocation_no_fill (fst g) al off in (a, (a + n, snd g), m)),
     mmtk_alloc_slow = (\<lambda>g m n al off s. let a = align_allocation_no_fill (fst g) al off in (a, (a + n, snd g), m)),
     mmtk_post_alloc = (\<lambda>g m a n s. (g, m)),
     mmtk_write_slow = (\<lambda>g m src slot target. (g, m)),
     default_selector = BumpPointer,
     bump_pointer = (\<lambda>g. if fst g = 0 then (0, 0) else g),
     bump_reset = (\<lambda>g c l. (c, l)),
     VO_BIT_SIDE_METADATA_ADDR = 0x10000000000,
     GLOBAL_SIDE_METADATA_VM_BASE_ADDRESS = 0x20000000000 \<rparr>"

definition bump_state :: "(address \<times> address) mm_state" where
  "bump_state = \<lparr> mm_thread = (the (for_mutator NoBarrier 1 False))
       \<lparr> tl_tlab := \<lparr> cursor = 4096, limit = 8192 \<rparr>, alloc_fastpath := TLABPath,
         max_non_los_default_alloc_bytes := 4096 \<rparr>,
     mm_mmtk = (0, 0), mm_mem = (\<lambda>_. 0) \<rparr>"

lemma bump_simps [simp]:
  "bump_law bump_mmtk" "mm_ok bump_mmtk bump_state" "lib_ok (lib word_vm)"
  "tl_tlab (mm_thread bump_state) = \<lparr> cursor = 4096, limit = 8192 \<rparr>"
  "alloc_fastpath (mm_thread bump_state) = TLABPath"
  "max_non_los_default_alloc_bytes (mm_thread bump_state) = 4096"
  by (simp_all add: bump_law_def bump_mmtk_def mm_ok_def bump_state_def has_tlab_def lib_ok_std_lib for_mutator_def
      new_unchecked_def)

theorem allocate_keeps_buffer_protocol_witness:
  "\<exists>obj S'. allocate word_vm bump_mmtk bump_state 24 16 24 Immortal = Some (obj, S') \<and>
     mm_ok bump_mmtk S' \<and> mmtk_call bump_mmtk bump_state (obj - OBJECT_REF_OFFSET)"
proof -
  have "raw_align_up (lib word_vm) (24 + 8) (2 ^ 4) = 32" by (simp add: std_lib_def)
  then have "request_fits (tl_tlab (mm_thread bump_state))
      (raw_align_up (lib word_vm) (24 + 8) (2 ^ 4), 4, OBJECT_REF_OFFSET)"
    by (simp add: request_fits_def)
  from allocate_keeps_buffer_protocol [OF bump_simps(3,1,2) this, of 24 Immortal] show ?thesis
    by (auto simp: fast_path_def choose_semantics_def)
qed

lemma load64_upd_outside:
  assumes "8 \<le> unat (x - a)"
  shows "load64 (m(x := v)) a = load64 m a"
proof (rule load_bytes_cong)
  fix i :: nat
  assume "i < 8"
  then have "unat (word_of_nat i :: usize) = i" by (simp add: unat_word_of_nat)
  then have "a + word_of_nat i \<noteq> x" using assms \<open>i < 8\<close> by auto
  then show "(m(x := v)) (a + word_of_nat i) = m (a + word_of_nat i)" by simp
qed

lemma fast_path_object:
  assumes "hashing_vm V" and "storable V md" and "fast_path V S sz (2 ^ k) semantics"
    and "request_fits (tl_tlab (mm_thread S)) (raw_align_up (lib V) (sz + 8) (2 ^ k), k, OBJECT_REF_OFFSET)"
    and "allocate V K S sz (2 ^ k) md semantics = Some (obj, S')"
    and "8 \<le> unat (VO_BIT_SIDE_METADATA_ADDR K + drop_bit 6 obj - (obj - 8))" and "obj \<noteq> 0"
  shows "aligned k obj \<and> unat (cursor (tl_tlab (mm_thread S))) \<le> unat (obj - 8) \<and>
    unat (obj - 8) + unat (raw_align_up (lib V) (sz + 8) (2 ^ k)) \<le> unat (cursor (tl_tlab (mm_thread S'))) \<and>
    cursor (tl_tlab (mm_thread S')) \<le> limit (tl_tlab (mm_thread S)) \<and>
    obj_metadata V (mm_mem S') obj = Some md \<and>
    obj_header (mm_mem S') obj \<bind> header_hash_state V = Some Unhashed"
proof -
  obtain a buf where r: "tlab_allocate (lib V) (tl_tlab (mm_thread S)) (raw_align_up (lib V) (sz + 8) (2 ^ k))
      (2 ^ k) OBJECT_REF_OFFSET = (a, buf)" by fastforce
  then have "a \<noteq> 0" using assms(3) by (simp add: fast_path_def)
  have L: "lib_ok (lib V)" using assms(1) by simp
  note b = tlab_allocate_block [OF L assms(4) r \<open>a \<noteq> 0\<close>]
  have obj: "obj = a + 8" and S': "tl_tlab (mm_thread S') = buf"
    "mm_mem S' = set_vo_bit K (store_new_header V (mm_mem S) a md) obj"
    using assms(5) by (auto simp: allocate_fast [OF assms(3) r] OBJECT_REF_OFFSET_def)
  have "load64 (mm_mem S') a = header_new V md"
    using assms(6) by (simp add: S' set_vo_bit_def Let_def load64_upd_outside obj store_new_header_def)
  then have "obj_header (mm_mem S') obj = Some (header_new V md)"
    using assms(7) by (simp add: obj_header_def obj_is_null_def obj OBJECT_HEADER_OFFSET_def OBJECT_REF_OFFSET_def)
  moreover have "aligned k obj" using b(1) by (simp add: obj OBJECT_REF_OFFSET_def)
  moreover have "cursor buf \<le> limit (tl_tlab (mm_thread S))" using b(4,5) by (simp add: word_le_nat_alt)
  ultimately show ?thesis
    using b(2,3) assms(1,2)
    by (simp add: S' obj obj_metadata_def vm_header.new_metadata vm_header.new_hash_state)
qed

text \<open>
  C22: what the fast path returns is a proper new object: it is aligned as requested, it lies with
  its header inside the buffer and before the new cursor, its metadata are the ones asked for
  and its hash state is \<open>Unhashed\<close>. The table of valid-object bits is elsewhere in memory.
\<close>

theorem fast_path_allocates_object:
  assumes "hashing_vm V" and "storable V md" and "fast_path V S sz (2 ^ k) semantics"
    and "request_fits (tl_tlab (mm_thread S)) (raw_align_up (lib V) (sz + 8) (2 ^ k), k, OBJECT_REF_OFFSET)"
    and "allocate V K S sz (2 ^ k) md semantics = Some (obj, S')"
    and "8 \<le> unat (VO_BIT_SIDE_METADATA_ADDR K + drop_bit 6 obj - (obj - 8))" and "obj \<noteq> 0"
  shows "aligned k obj \<and> unat (cursor (tl_tlab (mm_thread S))) \<le> unat (obj - 8) \<and>
    unat (obj - 8) + unat (raw_align_up (lib V) (sz + 8) (2 ^ k)) \<le> unat (cursor (tl_tlab (mm_thread S'))) \<and>
    cursor (tl_tlab (mm_thread S')) \<le> limit (tl_tlab (mm_thread S)) \<and>
    obj_metadata V (mm_mem S') obj = Some md \<and>
    obj_header (mm_mem S') obj \<bind> header_hash_state V = Some Unhashed"
  using assms by (rule fast_path_object)

theorem fast_path_allocates_object_witness:
  "\<exists>S'. allocate word_vm bump_mmtk bump_state 24 16 24 Default = Some (4112, S') \<and>
     obj_metadata word_vm (mm_mem S') 4112 = Some 24 \<and> aligned 4 (4112 :: address)"
proof -
  have n: "raw_align_up (lib word_vm) (24 + 8) (2 ^ 4) = 32" by (simp add: std_lib_def)
  then have f: "request_fits (tl_tlab (mm_thread bump_state))
      (raw_align_up (lib word_vm) (24 + 8) (2 ^ 4), 4, OBJECT_REF_OFFSET)"
    by (simp add: request_fits_def)
  have t: "tlab_allocate (lib word_vm) (tl_tlab (mm_thread bump_state))
      (raw_align_up (lib word_vm) (24 + 8) (2 ^ 4)) (2 ^ 4) OBJECT_REF_OFFSET = (4104, \<lparr> cursor = 4136, limit = 8192 \<rparr>)"
    unfolding n by (simp add: tlab_allocate_def align_allocation_no_fill_def std_lib_def OBJECT_REF_OFFSET_def)
  then have p: "fast_path word_vm bump_state 24 (2 ^ 4) Default"
    by (simp add: fast_path_def choose_semantics_def)
  have s: "storable word_vm 24" by (simp add: storable_def) (simp add: word_vm_def)
  obtain S' where S': "allocate word_vm bump_mmtk bump_state 24 (2 ^ 4) 24 Default = Some (4112, S')"
    using allocate_fast [OF p t] by (simp add: OBJECT_REF_OFFSET_def)
  moreover have "8 \<le> unat (VO_BIT_SIDE_METADATA_ADDR bump_mmtk + drop_bit 6 4112 - (4112 - 8))"
    by (simp add: bump_mmtk_def)
  ultimately show ?thesis
    using fast_path_allocates_object [OF _ s p f S'] by simp
qed

lemma aligned_plus_8:
  assumes "4 \<le> k" and "k \<le> 64" and "aligned k a"
  shows "\<not> aligned k (a + 8)"
proof -
  have "take_bit k (8 + take_bit k a) = take_bit k (8 + a)"
    using assms(2) by (rule take_bit_add_take_bit)
  moreover have "unat (8 :: usize) < 2 ^ k"
    using power_increasing [OF assms(1), of "2 :: nat"] by simp
  then have "take_bit k (8 :: usize) = 8" by (rule take_bit_small)
  moreover have "unat (8 :: usize) \<noteq> 0" by simp
  then have "(8 :: usize) \<noteq> 0" by (metis unat_0)
  ultimately show ?thesis using assms(3) unfolding aligned_def by (metis add.commute add_0_right)
qed

text \<open>
  The default route of \<open>allocate_out_of_line\<close> asks mmtk for offset 0, so that the header word
  gets the requested alignment and the object does not: for every alignment of 16 bytes or
  more the object is misaligned, while the non-moving route, which asks for the offset of the
  object, aligns it.
\<close>

theorem out_of_line_default_misaligned:
  assumes "bump_law K" and "mm_ok K S" and "4 \<le> k" and "k < 64"
    and "\<forall>g m n off sem. aligned k (fst (mmtk_alloc K g m n (2 ^ k) off sem) + off)"
    and "choose_semantics (mm_thread S) (sz + 8) semantics = Default"
    and "allocate_out_of_line V K S sz (2 ^ k) md semantics = Some (obj, S')"
    and "allocate_nonmoving V K S n (2 ^ k) md = Some (obj', S'')"
  shows "\<not> aligned k obj \<and> aligned k obj'"
proof -
  have "\<exists>n. obj = fst (mmtk_alloc K (handed_over K S) (mm_mem S) n (2 ^ k) 0 Default) + 8"
    using assms(6,7) by (auto simp: allocate_out_of_line_def allocate_with_def flush_tlab_ok [OF assms(2)]
        case_prod_beta Let_def OBJECT_REF_OFFSET_def)
  moreover have "aligned k (fst (mmtk_alloc K (handed_over K S) (mm_mem S) n (2 ^ k) 0 Default))" for n
    using assms(5) by (metis add_0_right)
  ultimately have "\<not> aligned k obj" using aligned_plus_8 assms(3,4) by (metis less_imp_le)
  moreover have "\<exists>n. obj' = fst (mmtk_alloc K (handed_over K S) (mm_mem S) n (2 ^ k) 8 NonMoving) + 8"
    using assms(8) by (auto simp: allocate_nonmoving_def allocate_with_def flush_tlab_ok [OF assms(2)]
        case_prod_beta Let_def OBJECT_REF_OFFSET_def)
  ultimately show ?thesis using assms(5) by auto
qed

theorem out_of_line_default_misaligned_witness:
  "\<exists>obj S'. allocate_out_of_line word_vm bump_mmtk bump_state 24 16 24 Default = Some (obj, S') \<and> \<not> aligned 4 obj"
proof -
  have law: "\<forall>g m n off sem. aligned 4 (fst (mmtk_alloc bump_mmtk g m n (2 ^ 4) off sem) + off)"
    using align_no_fill_congruent [of 4] by (simp add: bump_mmtk_def Let_def)
  have c: "choose_semantics (mm_thread bump_state) (24 + 8) Default = Default"
    by (simp add: choose_semantics_def)
  obtain obj S' where o: "allocate_out_of_line word_vm bump_mmtk bump_state 24 (2 ^ 4) 24 Default = Some (obj, S')"
    using allocate_out_of_line_routed [of bump_mmtk bump_state word_vm 24 "2 ^ 4" 24 Default]
    by (auto simp: routed_def)
  obtain obj' S'' where "allocate_nonmoving word_vm bump_mmtk bump_state 32 (2 ^ 4) 24 = Some (obj', S'')"
    using allocate_with_routed [of bump_mmtk bump_state word_vm 32 "2 ^ 4" OBJECT_REF_OFFSET 24 NonMoving]
    by (auto simp: routed_def allocate_nonmoving_def)
  from out_of_line_default_misaligned [OF _ _ _ _ law c o this] o show ?thesis by auto
qed

end
