(* ===== verification/Vmkit_Compression.thy ===== *)
theory Vmkit_Compression
  imports Vmkit_Object
begin

text \<open>
  \<open>object_model/compression.rs\<close> and the type \<open>VMKitNarrow\<close> of \<open>object.rs\<close>: 32-bit references,
  encoded relative to a base address and a shift that \<open>init\<close> chooses from the bounds of the
  heap. The bounds come from mmtk and are arguments.
\<close>

datatype compression_mode = UnscaledNarrowOp | ZeroBasedNarrowOp | DisjointBaseNarrowOp | HeapBasedNarrowOp

definition UNSCALED_OP_HEAP_MAX :: usize where
  "UNSCALED_OP_HEAP_MAX = 0xffffffff + 1"

record compressed_ops =
  co_base :: address
  co_shift :: nat
  co_range :: "address \<times> address"

definition COMPRESSED_OPS :: compressed_ops where
  "COMPRESSED_OPS = \<lparr> co_base = 0, co_shift = 0, co_range = (0, 0) \<rparr>"

definition trailing_zeros :: "usize \<Rightarrow> nat" where
  "trailing_zeros x = length (takeWhile (\<lambda>i. \<not> bit x i) [0..<64])"

definition compressed_init :: "vm_config \<Rightarrow> bool \<Rightarrow> address \<Rightarrow> address \<Rightarrow> compressed_ops" where
  "compressed_init C tagged_pointers start end =
     (if tagged_pointers then \<lparr> co_base = start - 4096, co_shift = 2, co_range = (start, end) \<rparr>
      else (let shift = (if end > UNSCALED_OP_HEAP_MAX then trailing_zeros (MIN_ALIGNMENT C) else 0);
                max = push_bit (trailing_zeros (MIN_ALIGNMENT C)) (0xffffffff + 1);
                base = (if end \<le> max then ADDRESS_ZERO else start - 4096)
            in \<lparr> co_base = base, co_shift = shift, co_range = (start, end) \<rparr>))"

type_synonym narrow = u32

definition narrow_is_null :: "narrow \<Rightarrow> bool" where
  "narrow_is_null v \<longleftrightarrow> v = 0"

definition decode_raw :: "compressed_ops \<Rightarrow> narrow \<Rightarrow> vmkit_object" where
  "decode_raw c v = co_base c + push_bit (co_shift c) (ucast v)"

definition co_decode :: "compressed_ops \<Rightarrow> narrow \<Rightarrow> vmkit_object" where
  "co_decode c v = (if narrow_is_null v then NULL else decode_raw c v)"

definition co_encode :: "compressed_ops \<Rightarrow> vmkit_object \<Rightarrow> narrow" where
  "co_encode c v =
     (if obj_is_null v then 0
      else (let pd = v - co_base c in ucast (drop_bit (co_shift c) pd)))"

definition narrow_from_object :: "compressed_ops \<Rightarrow> vmkit_object \<Rightarrow> narrow" where
  "narrow_from_object c obj = co_encode c obj"

definition narrow_to_address :: "compressed_ops \<Rightarrow> narrow \<Rightarrow> address" where
  "narrow_to_address c v = co_decode c v"

definition narrow_to_object :: "compressed_ops \<Rightarrow> narrow \<Rightarrow> vmkit_object" where
  "narrow_to_object c v = co_decode c v"

section \<open>Shifting and narrowing\<close>

text \<open>The distance of an object from the base survives the shift and the narrowing.\<close>

lemma shift_round_trip:
  fixes d :: usize
  assumes "take_bit s d = 0" and "unat d < 2 ^ (32 + s)"
  shows "push_bit s (ucast (ucast (drop_bit s d) :: u32)) = d"
proof (rule bit_eqI)
  fix n
  have hi: "\<not> bit d i" if "32 + s \<le> i" for i
    using field_bit_bound [OF assms(2), of i] that by auto
  have lo: "\<not> bit d i" if "i < s" for i
    using assms(1) that by (metis bit_0_eq bit_take_bit_iff bot_apply bot_bool_def)
  show "bit (push_bit s (ucast (ucast (drop_bit s d) :: u32)) :: usize) n = bit d n"
  proof (cases "s \<le> n \<and> n < 32 + s")
    case True
    then show ?thesis by (auto simp: bit_simps dest: bit_imp_le_length)
  next
    case False
    then show ?thesis using hi [of n] lo [of n] by (auto simp: bit_simps)
  qed
qed

lemma trailing_zeros_exp:
  assumes "k < 64"
  shows "trailing_zeros (2 ^ k) = k"
proof -
  have b: "bit (2 ^ k :: usize) i \<longleftrightarrow> i = k" if "i < 64" for i
    using that assms by (auto simp: bit_simps)
  have "[0..<64] = [0..<k] @ k # [Suc k..<64]"
    using assms upt_add_eq_append [of 0 k "64 - k"] by (simp add: upt_conv_Cons)
  moreover have "takeWhile (\<lambda>i. \<not> bit (2 ^ k :: usize) i) ([0..<k] @ k # [Suc k..<64]) = [0..<k]"
    using b assms by (subst takeWhile_append2) auto
  ultimately show ?thesis by (simp add: trailing_zeros_def)
qed

lemma aligned_minus:
  assumes "k \<le> 64" and "aligned k x" and "aligned k y"
  shows "aligned k (x - y)"
proof -
  have "take_bit k ((x - y) + take_bit k y) = take_bit k (x - y + y)"
    using assms(1) by (rule take_bit_add_take_bit)
  then show ?thesis using assms(2,3) by (simp add: aligned_def)
qed

lemma aligned_mono: "aligned k x \<Longrightarrow> j \<le> k \<Longrightarrow> aligned j x"
  unfolding aligned_def by (metis min.absorb1 take_bit_of_0 take_bit_take_bit)

lemma co_round_trip:
  assumes "aligned (co_shift c) (obj - co_base c)" and "unat (obj - co_base c) < 2 ^ (32 + co_shift c)"
    and "obj \<noteq> 0" and "obj \<noteq> co_base c"
  shows "co_decode c (co_encode c obj) = obj \<and> \<not> narrow_is_null (co_encode c obj)"
proof -
  let ?d = "obj - co_base c"
  have rt: "push_bit (co_shift c) (ucast (ucast (drop_bit (co_shift c) ?d) :: u32)) = ?d"
    using assms(1,2) by (intro shift_round_trip) (simp_all add: aligned_def)
  have e: "co_encode c obj = ucast (drop_bit (co_shift c) ?d)"
    using assms(3) by (simp add: co_encode_def obj_is_null_def Let_def)
  have "co_encode c obj \<noteq> 0"
  proof
    assume "co_encode c obj = 0"
    then have "?d = 0" using rt by (simp add: e)
    then show False using assms(4) by simp
  qed
  then show ?thesis using rt by (simp add: co_decode_def narrow_is_null_def decode_raw_def e)
qed

section \<open>Properties\<close>



end
