(* ===== verification/Vmkit_Fields.thy ===== *)
theory Vmkit_Fields
  imports Vmkit_Alloc Vmkit_Compression
begin

text \<open>
  The typed field accessors of \<open>VMKitObject\<close>, the memory slices and the pointers \<open>GcPtr\<close> of
  \<open>object_model/object.rs\<close>. Debug assertions are checked. A volatile access touches the same
  bytes as a plain one, so the parameter \<open>VOLATILE\<close> does not appear; a floating-point value
  is the word of its bits, a signed integer the word of its two's complement.
\<close>

section \<open>Primitive fields\<close>

definition get_field_primitive ::
  "nat \<Rightarrow> ('m, 's) vm \<Rightarrow> memory \<Rightarrow> vmkit_object \<Rightarrow> isize \<Rightarrow> 'w::len word option" where
  "get_field_primitive n V m obj offset = do {
     used \<leftarrow> bytes_used V m obj;
     if sint offset < sint used then Some (load_bytes n m (obj + offset)) else None
   }"

definition set_field_primitive ::
  "nat \<Rightarrow> ('m, 's) vm \<Rightarrow> memory \<Rightarrow> vmkit_object \<Rightarrow> isize \<Rightarrow> 'w::len word \<Rightarrow> memory option" where
  "set_field_primitive n V m obj offset v = do {
     used \<leftarrow> bytes_used V m obj;
     if sint offset < sint used then Some (store_bytes n m (obj + offset) v) else None
   }"

definition get_field_bool :: "('m, 's) vm \<Rightarrow> memory \<Rightarrow> vmkit_object \<Rightarrow> isize \<Rightarrow> bool option" where
  "get_field_bool V m obj offset =
     map_option (\<lambda>b. b \<noteq> 0) (get_field_primitive 1 V m obj offset :: u8 option)"

definition set_field_bool ::
  "('m, 's) vm \<Rightarrow> memory \<Rightarrow> vmkit_object \<Rightarrow> isize \<Rightarrow> bool \<Rightarrow> memory option" where
  "set_field_bool V m obj offset v = set_field_primitive 1 V m obj offset (if v then 1 else 0 :: u8)"

definition get_field_u8 :: "('m, 's) vm \<Rightarrow> memory \<Rightarrow> vmkit_object \<Rightarrow> isize \<Rightarrow> 8 word option" where
  "get_field_u8 = get_field_primitive 1"

definition set_field_u8 ::
  "('m, 's) vm \<Rightarrow> memory \<Rightarrow> vmkit_object \<Rightarrow> isize \<Rightarrow> 8 word \<Rightarrow> memory option" where
  "set_field_u8 = set_field_primitive 1"

definition get_field_u16 :: "('m, 's) vm \<Rightarrow> memory \<Rightarrow> vmkit_object \<Rightarrow> isize \<Rightarrow> 16 word option" where
  "get_field_u16 = get_field_primitive 2"

definition set_field_u16 ::
  "('m, 's) vm \<Rightarrow> memory \<Rightarrow> vmkit_object \<Rightarrow> isize \<Rightarrow> 16 word \<Rightarrow> memory option" where
  "set_field_u16 = set_field_primitive 2"

definition get_field_u32 :: "('m, 's) vm \<Rightarrow> memory \<Rightarrow> vmkit_object \<Rightarrow> isize \<Rightarrow> 32 word option" where
  "get_field_u32 = get_field_primitive 4"

definition set_field_u32 ::
  "('m, 's) vm \<Rightarrow> memory \<Rightarrow> vmkit_object \<Rightarrow> isize \<Rightarrow> 32 word \<Rightarrow> memory option" where
  "set_field_u32 = set_field_primitive 4"

definition get_field_u64 :: "('m, 's) vm \<Rightarrow> memory \<Rightarrow> vmkit_object \<Rightarrow> isize \<Rightarrow> 64 word option" where
  "get_field_u64 = get_field_primitive 8"

definition set_field_u64 ::
  "('m, 's) vm \<Rightarrow> memory \<Rightarrow> vmkit_object \<Rightarrow> isize \<Rightarrow> 64 word \<Rightarrow> memory option" where
  "set_field_u64 = set_field_primitive 8"

definition get_field_i8 :: "('m, 's) vm \<Rightarrow> memory \<Rightarrow> vmkit_object \<Rightarrow> isize \<Rightarrow> 8 word option" where
  "get_field_i8 = get_field_primitive 1"

definition set_field_i8 ::
  "('m, 's) vm \<Rightarrow> memory \<Rightarrow> vmkit_object \<Rightarrow> isize \<Rightarrow> 8 word \<Rightarrow> memory option" where
  "set_field_i8 = set_field_primitive 1"

definition get_field_i16 :: "('m, 's) vm \<Rightarrow> memory \<Rightarrow> vmkit_object \<Rightarrow> isize \<Rightarrow> 16 word option" where
  "get_field_i16 = get_field_primitive 2"

definition set_field_i16 ::
  "('m, 's) vm \<Rightarrow> memory \<Rightarrow> vmkit_object \<Rightarrow> isize \<Rightarrow> 16 word \<Rightarrow> memory option" where
  "set_field_i16 = set_field_primitive 2"

definition get_field_i32 :: "('m, 's) vm \<Rightarrow> memory \<Rightarrow> vmkit_object \<Rightarrow> isize \<Rightarrow> 32 word option" where
  "get_field_i32 = get_field_primitive 4"

definition set_field_i32 ::
  "('m, 's) vm \<Rightarrow> memory \<Rightarrow> vmkit_object \<Rightarrow> isize \<Rightarrow> 32 word \<Rightarrow> memory option" where
  "set_field_i32 = set_field_primitive 4"

definition get_field_i64 :: "('m, 's) vm \<Rightarrow> memory \<Rightarrow> vmkit_object \<Rightarrow> isize \<Rightarrow> 64 word option" where
  "get_field_i64 = get_field_primitive 8"

definition set_field_i64 ::
  "('m, 's) vm \<Rightarrow> memory \<Rightarrow> vmkit_object \<Rightarrow> isize \<Rightarrow> 64 word \<Rightarrow> memory option" where
  "set_field_i64 = set_field_primitive 8"

definition get_field_f32 :: "('m, 's) vm \<Rightarrow> memory \<Rightarrow> vmkit_object \<Rightarrow> isize \<Rightarrow> 32 word option" where
  "get_field_f32 = get_field_primitive 4"

definition set_field_f32 ::
  "('m, 's) vm \<Rightarrow> memory \<Rightarrow> vmkit_object \<Rightarrow> isize \<Rightarrow> 32 word \<Rightarrow> memory option" where
  "set_field_f32 = set_field_primitive 4"

definition get_field_f64 :: "('m, 's) vm \<Rightarrow> memory \<Rightarrow> vmkit_object \<Rightarrow> isize \<Rightarrow> 64 word option" where
  "get_field_f64 = get_field_primitive 8"

definition set_field_f64 ::
  "('m, 's) vm \<Rightarrow> memory \<Rightarrow> vmkit_object \<Rightarrow> isize \<Rightarrow> 64 word \<Rightarrow> memory option" where
  "set_field_f64 = set_field_primitive 8"

definition get_field_isize :: "('m, 's) vm \<Rightarrow> memory \<Rightarrow> vmkit_object \<Rightarrow> isize \<Rightarrow> 64 word option" where
  "get_field_isize = get_field_primitive 8"

definition set_field_isize ::
  "('m, 's) vm \<Rightarrow> memory \<Rightarrow> vmkit_object \<Rightarrow> isize \<Rightarrow> 64 word \<Rightarrow> memory option" where
  "set_field_isize = set_field_primitive 8"

definition get_field_usize :: "('m, 's) vm \<Rightarrow> memory \<Rightarrow> vmkit_object \<Rightarrow> isize \<Rightarrow> 64 word option" where
  "get_field_usize = get_field_primitive 8"

definition set_field_usize ::
  "('m, 's) vm \<Rightarrow> memory \<Rightarrow> vmkit_object \<Rightarrow> isize \<Rightarrow> 64 word \<Rightarrow> memory option" where
  "set_field_usize = set_field_primitive 8"

section \<open>Reference fields\<close>

definition get_field_object ::
  "('m, 's) vm \<Rightarrow> memory \<Rightarrow> vmkit_object \<Rightarrow> isize \<Rightarrow> vmkit_object option" where
  "get_field_object V m obj offset = get_field_primitive 8 V m obj offset"

definition set_field_object_no_write_barrier ::
  "('m, 's) vm \<Rightarrow> memory \<Rightarrow> vmkit_object \<Rightarrow> isize \<Rightarrow> vmkit_object \<Rightarrow> memory option" where
  "set_field_object_no_write_barrier V m obj offset v = set_field_primitive 8 V m obj offset v"

definition slot_at :: "vmkit_object \<Rightarrow> isize \<Rightarrow> address" where
  "slot_at obj offset = obj + offset"

text \<open>The store of a tagged value: the barrier gets the object, the field gets the value.\<close>

definition set_field_object_tagged ::
  "('m, 's) vm \<Rightarrow> 'g mmtk \<Rightarrow> 'g mm_state \<Rightarrow> vmkit_object \<Rightarrow> isize \<Rightarrow> usize \<Rightarrow> vmkit_object
     \<Rightarrow> 'g mm_state option" where
  "set_field_object_tagged V K S obj offset value_to_set object = do {
     let S = object_reference_write_pre S obj (slot_at obj offset) object;
     m \<leftarrow> set_field_primitive 8 V (mm_mem S) obj offset value_to_set;
     Some (object_reference_write_post K (S \<lparr> mm_mem := m \<rparr>) obj (slot_at obj offset) object)
   }"

definition set_field_object ::
  "('m, 's) vm \<Rightarrow> 'g mmtk \<Rightarrow> 'g mm_state \<Rightarrow> vmkit_object \<Rightarrow> isize \<Rightarrow> vmkit_object \<Rightarrow> 'g mm_state option" where
  "set_field_object V K S obj offset v = do {
     let S = object_reference_write_pre S obj (slot_at obj offset) v;
     m \<leftarrow> set_field_object_no_write_barrier V (mm_mem S) obj offset v;
     Some (object_reference_write_post K (S \<lparr> mm_mem := m \<rparr>) obj (slot_at obj offset) v)
   }"

definition get_field_narrow ::
  "('m, 's) vm \<Rightarrow> memory \<Rightarrow> vmkit_object \<Rightarrow> isize \<Rightarrow> narrow option" where
  "get_field_narrow V m obj offset = get_field_primitive 4 V m obj offset"

definition set_field_narrow_no_write_barrier ::
  "('m, 's) vm \<Rightarrow> memory \<Rightarrow> vmkit_object \<Rightarrow> isize \<Rightarrow> narrow \<Rightarrow> memory option" where
  "set_field_narrow_no_write_barrier V m obj offset v = set_field_primitive 4 V m obj offset v"

definition set_field_narrow_tagged ::
  "('m, 's) vm \<Rightarrow> 'g mmtk \<Rightarrow> compressed_ops \<Rightarrow> 'g mm_state \<Rightarrow> vmkit_object \<Rightarrow> isize \<Rightarrow> u32 \<Rightarrow> narrow
     \<Rightarrow> 'g mm_state option" where
  "set_field_narrow_tagged V K c S obj offset value_to_set object = do {
     let S = object_reference_write_pre S obj (slot_at obj offset) (narrow_to_object c object);
     m \<leftarrow> set_field_primitive 4 V (mm_mem S) obj offset value_to_set;
     Some (object_reference_write_post K (S \<lparr> mm_mem := m \<rparr>) obj (slot_at obj offset) (narrow_to_object c object))
   }"

definition set_field_narrow ::
  "('m, 's) vm \<Rightarrow> 'g mmtk \<Rightarrow> compressed_ops \<Rightarrow> 'g mm_state \<Rightarrow> vmkit_object \<Rightarrow> isize \<Rightarrow> narrow
     \<Rightarrow> 'g mm_state option" where
  "set_field_narrow V K c S obj offset v = do {
     let S = object_reference_write_pre S obj (slot_at obj offset) (narrow_to_object c v);
     m \<leftarrow> set_field_primitive 4 V (mm_mem S) obj offset v;
     Some (object_reference_write_post K (S \<lparr> mm_mem := m \<rparr>) obj (slot_at obj offset) (narrow_to_object c v))
   }"

section \<open>Memory slices\<close>

text \<open>A slice of slots of eight bytes, its iterator, and the copy between slices.\<close>

record memory_slice =
  slice_start :: address
  slice_end :: address

record slice_iterator =
  iter_cursor :: address
  iter_end :: address

definition iter_slots :: "memory_slice \<Rightarrow> slice_iterator" where
  "iter_slots s = \<lparr> iter_cursor = slice_start s, iter_end = slice_end s \<rparr>"

definition slice_next :: "slice_iterator \<Rightarrow> address option \<times> slice_iterator" where
  "slice_next it =
     (if iter_cursor it < iter_end it
      then (Some (iter_cursor it), it \<lparr> iter_cursor := iter_cursor it + 8 \<rparr>)
      else (None, it))"

text \<open>What a caller's loop over the iterator sees; a cursor that wraps around would never end it.\<close>

partial_function (option) slice_collect :: "slice_iterator \<Rightarrow> address list option" where
  "slice_collect it =
     (case slice_next it of
        (None, _) \<Rightarrow> Some []
      | (Some a, it) \<Rightarrow> Option.bind (slice_collect it) (\<lambda>as. Some (a # as)))"

definition slice_bytes :: "memory_slice \<Rightarrow> usize" where
  "slice_bytes s = slice_end s - slice_start s"

definition slice_copy :: "memory \<Rightarrow> memory_slice \<Rightarrow> memory_slice \<Rightarrow> memory" where
  "slice_copy m src tgt = copy_bytes m (slice_start src) (slice_start tgt) (slice_bytes tgt)"

section \<open>Pointers to objects\<close>

text \<open>A pointer is a non-null address; \<open>trace\<close> replaces it if the object moved.\<close>

definition gcptr_from_address :: "address \<Rightarrow> address option" where
  "gcptr_from_address a = (if a \<noteq> 0 then Some a else None)"

definition gcptr_as_object :: "address \<Rightarrow> vmkit_object" where
  "gcptr_as_object p = p"

definition gcptr_trace :: "('w \<Rightarrow> address \<Rightarrow> address \<times> 'w) \<Rightarrow> 'w \<Rightarrow> address \<Rightarrow> address \<times> 'w" where
  "gcptr_trace tracer w p =
     (let object = gcptr_as_object p; (new, w) = tracer w object
      in (if new \<noteq> object then new else p, w))"

section \<open>What a field access does\<close>

lemma header_outside_field:
  assumes "0 \<le> sint offset" and "n \<le> 8"
  shows "obj_header (store_bytes n m (obj + offset) v) obj = obj_header m obj"
proof -
  have o: "unat offset < 2 ^ 63"
    using assms(1) by (simp only: sint_nonneg_iff)
  have "n \<le> unat (obj - 8 + word_of_nat i - (obj + offset))" if "i < 8" for i
  proof -
    have e: "obj - 8 + word_of_nat i - (obj + offset) = - (offset + word_of_nat (8 - i))"
      using that by (simp add: of_nat_diff)
    have s: "unat (offset + word_of_nat (8 - i)) = unat offset + (8 - i)"
    proof -
      have e: "unat (word_of_nat (8 - i) :: usize) = 8 - i" by (rule unat_word_of_nat) simp
      have "unat offset + unat (word_of_nat (8 - i) :: usize) < 2 ^ 64" unfolding e using o by simp
      from unat_add_no_overflow [OF this] show ?thesis unfolding e .
    qed
    then have "offset + word_of_nat (8 - i) \<noteq> 0"
      using that by (metis add_is_0 unat_0 zero_less_diff less_numeral_extra(3))
    from unat_uminus [OF this] show ?thesis unfolding e s using o assms(2) that by simp
  qed
  then have "load64 (store_bytes n m (obj + offset) v) (obj - 8) = load64 m (obj - 8)"
    by (intro load_bytes_cong store_bytes_outside)
  then show ?thesis
    by (simp add: obj_header_def OBJECT_HEADER_OFFSET_def OBJECT_REF_OFFSET_def)
qed

lemma bytes_used_fixed:
  assumes "obj_header m' obj = obj_header m obj" and "obj_metadata V m obj = Some md"
    and "compute_size (gc_metadata_of (meta V) md) = None"
  shows "bytes_used V m' obj = bytes_used V m obj"
proof -
  have "obj_metadata V m' obj = Some md" using assms(1,2) by (simp add: obj_metadata_def)
  then show ?thesis
    using assms by (simp add: bytes_used_def hashcode_overhead_def payload_size_def Let_def)
qed


lemma hashed_object [simp]:
  "obj_metadata word_vm hashed_memory 8192 = Some 16"
  "hashcode_overhead word_vm False hashed_memory 8192 = Some 0"
  "payload_size word_vm hashed_memory 8192 = Some 16"
  "bytes_used word_vm hashed_memory 8192 = Some 24"
proof -
  show md: "obj_metadata word_vm hashed_memory 8192 = Some 16"
    by (simp add: obj_metadata_def header_metadata_def) (simp add: word_vm_def std_lib_def)
  show h: "hashcode_overhead word_vm False hashed_memory 8192 = Some 0"
    by (simp add: hashcode_overhead_def Let_def)
  show p: "payload_size word_vm hashed_memory 8192 = Some 16"
    by (simp add: payload_size_def md Let_def) (simp add: word_vm_def)
  show "bytes_used word_vm hashed_memory 8192 = Some 24"
    by (simp add: bytes_used_def h p) (simp add: std_lib_def)
qed


text \<open>
  The bounds check of the accessors counts the header. A field that starts where the
  payload ends, and so lies outside the object, passes the check, whatever its width.
\<close>

theorem field_check_admits_end_of_payload:
  assumes "lib_ok (lib V)" and "hashcode_overhead V False m obj = Some overhead"
    and "payload_size V m obj = Some p" and "unat overhead \<le> 8" and "unat p < 2 ^ 62"
  shows "get_field_primitive n V m obj p = Some (load_bytes n m (obj + p))"
proof -
  have s: "unat (overhead + p + 8) = unat overhead + unat p + 8"
    using assms(4,5) by (simp add: unat_add_no_overflow)
  let ?u = "raw_align_up (lib V) (overhead + p + 8) 8"
  have "unat ?u < unat (overhead + p + 8) + 8" "unat (overhead + p + 8) \<le> unat ?u"
    using raw_align_up_bounds [OF assms(1), of 3 "overhead + p + 8"] s assms(4,5) by simp_all
  then have u: "unat p < unat ?u" "unat ?u < 2 ^ 63" using s assms(4,5) by simp_all
  have "unat p < 2 ^ 63" using u by linarith
  then have "sint p < sint ?u" using u sint_small [of p] sint_small [of ?u] by linarith
  then show ?thesis using assms(2,3) by (simp add: get_field_primitive_def bytes_used_def)
qed

theorem field_check_admits_end_of_payload_witness:
  "get_field_u64 word_vm hashed_memory 8192 16 = Some (load64 hashed_memory 8208)"
  using field_check_admits_end_of_payload [of word_vm hashed_memory 8192 0 16 8]
  by (simp add: get_field_u64_def lib_ok_std_lib)

text \<open>
  Storing a reference in a field is mmtk's subsuming barrier at the slot of the field: for a
  value that is not null both leave the same memory and the same collector state. A null
  value can be stored through the field only, and then the barrier is told of no target.
\<close>

theorem set_field_object_is_barriered_write:
  assumes "bytes_used V (mm_mem S) obj = Some used" and "sint offset < sint used"
  shows "(v \<noteq> NULL \<longrightarrow> set_field_object V K S obj offset v = object_reference_write K S obj (slot_at obj offset) v) \<and>
    object_reference_write K S obj (slot_at obj offset) NULL = None \<and>
    set_field_object V K S obj offset NULL =
      (let m = store64 (mm_mem S) (slot_at obj offset) 0
       in Some (if barrier (mm_thread S) = ObjectBarrier \<and> unlogged K m obj
                then S \<lparr> mm_mmtk := fst (mmtk_write_slow K (mm_mmtk S) m obj (slot_at obj offset) None),
                         mm_mem := snd (mmtk_write_slow K (mm_mmtk S) m obj (slot_at obj offset) None) \<rparr>
                else S \<lparr> mm_mem := m \<rparr>))"
  using assms
  by (simp add: set_field_object_def set_field_object_no_write_barrier_def set_field_primitive_def
      object_reference_write_def object_reference_write_pre_def object_reference_write_post_def
      obj_is_not_null_def obj_is_null_def slot_at_def case_prod_beta Let_def split: barrier_selector.split)

theorem set_field_object_is_barriered_write_witness:
  "set_field_object word_vm bump_mmtk (bump_state \<lparr> mm_mem := hashed_memory \<rparr>) 8192 8 4096 =
     object_reference_write bump_mmtk (bump_state \<lparr> mm_mem := hashed_memory \<rparr>) 8192 8200 4096"
  using set_field_object_is_barriered_write [of word_vm "bump_state \<lparr> mm_mem := hashed_memory \<rparr>" 8192 24 8 4096 bump_mmtk]
  by (simp add: slot_at_def)

section \<open>Slices\<close>

lemma slice_collect_steps:
  assumes "unat e + 7 < 2 ^ 64" and "k = (unat e - unat c + 7) div 8"
  shows "slice_collect \<lparr> iter_cursor = c, iter_end = e \<rparr> = Some (map (\<lambda>i. c + 8 * word_of_nat i) [0..<k])"
  using assms(2)
proof (induction k arbitrary: c)
  case 0
  then have "\<not> c < e" by (simp add: word_less_nat_alt) 
  then show ?case by (subst slice_collect.simps) (simp add: slice_next_def)
next
  case (Suc k)
  have lt: "unat c < unat e"
  proof (rule ccontr)
    assume "\<not> unat c < unat e"
    then show False using Suc.prems by simp
  qed
  have n: "unat (c + 8) = unat c + 8"
    using lt assms(1) by (subst unat_add_no_overflow) simp_all
  have "k = (unat e - unat (c + 8) + 7) div 8"
    using Suc.prems lt n by linarith
  then have ih: "slice_collect \<lparr> iter_cursor = c + 8, iter_end = e \<rparr> =
      Some (map (\<lambda>i. c + 8 + 8 * word_of_nat i) [0..<k])"
    by (rule Suc.IH)
  have "[0..<Suc k] = 0 # map Suc [0..<k]" by (simp only: upt_conv_Cons map_Suc_upt zero_less_Suc)
  then show ?case
    using lt ih
    by (subst slice_collect.simps)
      (simp add: slice_next_def word_less_nat_alt o_def algebra_simps del: upt_Suc)
qed

lemma slice_copy_slot:
  assumes "8 * i + 8 \<le> unat (slice_bytes tgt)"
  shows "load64 (slice_copy m src tgt) (slice_start tgt + 8 * word_of_nat i) =
    load64 m (slice_start src + 8 * word_of_nat i)"
proof (rule load_bytes_cong)
  fix j :: nat assume j: "j < 8"
  let ?o = "8 * word_of_nat i + word_of_nat j :: usize"
  have o: "?o = word_of_nat (8 * i + j)" by simp
  have "unat ?o = 8 * i + j"
    unfolding o using assms j unat_less_2_64 [of "slice_bytes tgt"] by (intro unat_word_of_nat) linarith
  then have "?o < slice_bytes tgt" using assms j unfolding word_less_nat_alt by linarith
  then show "slice_copy m src tgt (slice_start tgt + 8 * word_of_nat i + word_of_nat j) =
      m (slice_start src + 8 * word_of_nat i + word_of_nat j)"
    unfolding slice_copy_def add.assoc by (rule copy_bytes_inside)
qed

text \<open>
  Iterating over a slice ends and yields its slots in order, and copying a slice onto one of
  the same size, overlapping or not, gives each slot of the target the old content of the
  corresponding slot of the source.
\<close>

theorem slice_copy_moves_slots:
  assumes "slice_bytes src = slice_bytes tgt" and "8 dvd unat (slice_bytes tgt)"
    and "slice_start src \<le> slice_end src" and "slice_start tgt \<le> slice_end tgt"
    and "unat (slice_end src) + 7 < 2 ^ 64" and "unat (slice_end tgt) + 7 < 2 ^ 64"
  shows "\<exists>as bs. slice_collect (iter_slots src) = Some as \<and> slice_collect (iter_slots tgt) = Some bs \<and>
    length bs = unat (slice_bytes tgt) div 8 \<and>
    map (load64 (slice_copy m src tgt)) bs = map (load64 m) as"
proof -
  let ?k = "unat (slice_bytes tgt) div 8"
  have d: "unat (slice_end s) - unat (slice_start s) = unat (slice_bytes s)" if "slice_start s \<le> slice_end s" for s
    using that by (simp add: slice_bytes_def unat_sub)
  obtain q where q: "unat (slice_bytes tgt) = 8 * q" using assms(2) by (rule dvdE)
  have k: "?k = (unat (slice_end s) - unat (slice_start s) + 7) div 8"
    if "slice_start s \<le> slice_end s" "slice_bytes s = slice_bytes tgt" for s
    unfolding d [OF that(1)] that(2) q by simp
  have "slice_collect (iter_slots s) = Some (map (\<lambda>i. slice_start s + 8 * word_of_nat i) [0..<?k])"
    if "slice_start s \<le> slice_end s" "slice_bytes s = slice_bytes tgt" "unat (slice_end s) + 7 < 2 ^ 64" for s
    unfolding iter_slots_def using that(3) k [OF that(1,2)] by (rule slice_collect_steps)
  moreover have "map (load64 (slice_copy m src tgt)) (map (\<lambda>i. slice_start tgt + 8 * word_of_nat i) [0..<?k]) =
      map (load64 m) (map (\<lambda>i. slice_start src + 8 * word_of_nat i) [0..<?k])"
    using slice_copy_slot by (simp add: q)
  ultimately show ?thesis using assms by (intro exI conjI) (assumption | simp)+
qed

theorem slice_copy_moves_slots_witness:
  "\<exists>as bs. slice_collect (iter_slots \<lparr> slice_start = 4096, slice_end = 4120 \<rparr>) = Some as \<and>
     slice_collect (iter_slots \<lparr> slice_start = 4104, slice_end = 4128 \<rparr>) = Some bs \<and> length bs = 3 \<and>
     map (load64 (slice_copy (\<lambda>a. ucast a) \<lparr> slice_start = 4096, slice_end = 4120 \<rparr> \<lparr> slice_start = 4104, slice_end = 4128 \<rparr>)) bs
       = map (load64 (\<lambda>a. ucast a)) as"
  using slice_copy_moves_slots [of "\<lparr> slice_start = 4096, slice_end = 4120 \<rparr>"
      "\<lparr> slice_start = 4104, slice_end = 4128 \<rparr>" "\<lambda>a. ucast a"]
  by (simp add: slice_bytes_def)

end
