(* ===== verification/Vmkit_ThreadManager.thy ===== *)
theory Vmkit_ThreadManager
  imports Vmkit_Parking Vmkit_Alloc
begin

text \<open>
  The thread manager of \<open>threading.rs\<close>: the table of threads, their life from creation to
  termination, and the loops that stop and resume all mutators; with the callers
  in \<open>mm/collection.rs\<close> and \<open>mm/active_plan.rs\<close>. An \<open>Arc<Thread>\<close> is a reference into
  a store of threads. Where the caller sleeps on a condition variable, the parameter \<^term>\<open>env\<close>
  is what all other threads do until it goes on. The thread ids of the operating system, the
  stack bounds and the platform handles are not kept.
\<close>

section \<open>The table of threads\<close>

type_synonym thread_ref = nat

record 'b registry =
  reg_threads :: "thread_ref option list"
  reg_free :: "usize list"
  reg_dying :: "thread_ref list"
  reg_thread :: "thread_ref \<Rightarrow> 'b thread"
  reg_next :: thread_ref
  reg_ids :: "64 word"
  collector_started :: bool
  soft_handshake_left :: usize
  handshake_threads :: "thread_ref list"

definition registry_new :: "(thread_ref \<Rightarrow> 'b thread) \<Rightarrow> 'b registry" where
  "registry_new store = \<lparr> reg_threads = [], reg_free = [], reg_dying = [], reg_thread = store, reg_next = 0,
     reg_ids = 0, collector_started = False, soft_handshake_left = 0, handshake_threads = [] \<rparr>"

definition set_thread :: "thread_ref \<Rightarrow> 'b thread \<Rightarrow> 'b registry \<Rightarrow> 'b registry" where
  "set_thread r t S = S \<lparr> reg_thread := (reg_thread S)(r := t) \<rparr>"

definition swap_remove :: "nat \<Rightarrow> 'a list \<Rightarrow> 'a list" where
  "swap_remove i xs = butlast (xs[i := last xs])"

text \<open>
  The scan of \<open>process_about_to_terminate\<close>: the first index below the length of
  \<open>about_to_terminate\<close> whose entry of \<open>threads\<close> is terminated. It panics at an index outside
  \<open>threads\<close> and at a free entry.
\<close>

fun find_terminated :: "'b registry \<Rightarrow> nat list \<Rightarrow> (nat \<times> thread_ref) option option" where
  "find_terminated S [] = Some None"
| "find_terminated S (i # is) =
     (if i < length (reg_threads S)
      then (case reg_threads S ! i of
              None \<Rightarrow> None
            | Some r \<Rightarrow> if exec_status (reg_thread S r) = Terminated then Some (Some (i, r))
                        else find_terminated S is)
      else None)"

lemma find_terminated_index: "find_terminated S is = Some (Some (i, r)) \<Longrightarrow> i \<in> set is"
  by (induction "is") (auto split: if_splits option.splits)

function process_about_to_terminate :: "'b registry \<Rightarrow> 'b registry option" where
  "process_about_to_terminate S =
     (case find_terminated S [0..<length (reg_dying S)] of
        None \<Rightarrow> None
      | Some None \<Rightarrow> Some S
      | Some (Some (i, r)) \<Rightarrow>
          (let index = index_in_manager (reg_thread S r)
           in if unat index < length (reg_threads S)
              then process_about_to_terminate (S \<lparr> reg_dying := swap_remove i (reg_dying S),
                     reg_free := reg_free S @ [index], reg_threads := (reg_threads S)[unat index := None] \<rparr>)
              else None))"
  by auto
termination
  by (relation "measure (\<lambda>S. length (reg_dying S))")
    (auto dest!: find_terminated_index simp: swap_remove_def)

declare process_about_to_terminate.simps [simp del]

text \<open>The closure of \<open>add_thread\<close>: a free index, the last freed one first, or a new one.\<close>

definition register_thread :: "thread_ref \<Rightarrow> 'b registry \<Rightarrow> 'b registry" where
  "register_thread r S =
     (let idx = (if reg_free S = [] then word_of_nat (length (reg_threads S)) else last (reg_free S));
          S = set_thread r ((reg_thread S r) \<lparr> index_in_manager := idx \<rparr>) (S \<lparr> reg_free := butlast (reg_free S) \<rparr>)
      in if unat idx \<ge> length (reg_threads S) then S \<lparr> reg_threads := reg_threads S @ [Some r] \<rparr>
         else S \<lparr> reg_threads := (reg_threads S)[unat idx := Some r] \<rparr>)"

definition add_thread ::
  "'b block_adapter list \<Rightarrow> slot \<Rightarrow> address \<Rightarrow> thread_ref \<Rightarrow> 'b registry \<Rightarrow> 'b registry blocking option" where
  "add_thread Xs me sp r S = do {
     S \<leftarrow> process_about_to_terminate S;
     (entered, t) \<leftarrow> parked_enter Xs me sp (reg_thread S r);
     let S = register_thread r (set_thread r t S);
     b \<leftarrow> parked_leave Xs me entered (reg_thread S r);
     Some (case b of Returned t \<Rightarrow> Returned (set_thread r t S) | Parked s t \<Rightarrow> Parked s (set_thread r t S))
   }"

definition add_main_thread :: "thread_ref \<Rightarrow> 'b registry \<Rightarrow> 'b registry option" where
  "add_main_thread r S =
     (if reg_threads S = [] \<and> reg_free S = [] \<and> reg_dying S = []
      then Some ((set_thread r ((reg_thread S r) \<lparr> index_in_manager := 0 \<rparr>) S) \<lparr> reg_threads := [Some r] \<rparr>)
      else None)"

definition add_about_to_terminate_current :: "thread_ref \<Rightarrow> 'b registry \<Rightarrow> 'b registry option" where
  "add_about_to_terminate_current r S =
     (let index = unat (index_in_manager (reg_thread S r))
      in if index < length (reg_threads S)
         then map_option (\<lambda>thread_rc. S \<lparr> reg_dying := reg_dying S @ [thread_rc] \<rparr>) (reg_threads S ! index)
         else None)"

definition live_threads :: "'b registry \<Rightarrow> thread_ref list" where
  "live_threads S = List.map_filter (\<lambda>x. x) (reg_threads S)"

text \<open>\<open>join_all\<close>, outside of mutator context; the wait is on the monitor of the table.\<close>

partial_function (option) join_loop ::
  "('b registry \<Rightarrow> 'b registry) \<Rightarrow> 'b registry \<Rightarrow> 'b registry option" where
  "join_loop env S =
     (if length (reg_threads S) > 0
      then Option.bind (process_about_to_terminate S) (\<lambda>S. join_loop env (env S))
      else Some S)"

definition join_all :: "('b registry \<Rightarrow> 'b registry) \<Rightarrow> bool \<Rightarrow> 'b registry \<Rightarrow> 'b registry option" where
  "join_all env registered S = (if registered then None else join_loop env S)"

section \<open>Life of a thread\<close>

text \<open>What a starting thread reads of mmtk: the constraints of the plan and the default allocator.\<close>

record 'b plan =
  plan_max_non_los :: usize
  plan_barrier :: 'b
  plan_selector :: allocator_selector

definition fastpath_of :: "allocator_selector \<Rightarrow> alloc_fast_path" where
  "fastpath_of sel = (case sel of
       BumpPointer \<Rightarrow> TLABPath | Immix \<Rightarrow> TLABPath | FreeList \<Rightarrow> FreeListPath | OtherAllocator \<Rightarrow> NonePath)"

text \<open>The part that \<open>register_mutator_manual\<close> and \<open>startoff\<close> share.\<close>

definition prepare_thread :: "'b plan \<Rightarrow> 'b thread \<Rightarrow> 'b thread" where
  "prepare_thread P t =
     (let t = t \<lparr> max_non_los_default_alloc_bytes := plan_max_non_los P, barrier := plan_barrier P,
                  alloc_fastpath := fastpath_of (plan_selector P) \<rparr>
      in if \<not> has_collector_context t \<and> \<not> ignore_handshakes_and_gc t
         then enable_yieldpoints (t \<lparr> mutator_bound := True \<rparr>) else t)"

definition create_mutator :: "'b \<Rightarrow> 'b registry \<Rightarrow> (thread_ref \<times> 'b registry) option" where
  "create_mutator NB S = do {
     t \<leftarrow> for_mutator NB (reg_ids S) (collector_started S);
     Some (reg_next S, set_thread (reg_next S) t (S \<lparr> reg_next := reg_next S + 1, reg_ids := reg_ids S + 1 \<rparr>))
   }"

definition register_mutator_manual ::
  "'b plan \<Rightarrow> 'b \<Rightarrow> 'b block_adapter list \<Rightarrow> slot \<Rightarrow> address \<Rightarrow> 'b registry
     \<Rightarrow> (thread_ref \<times> 'b registry blocking) option" where
  "register_mutator_manual P NB Xs me sp S = do {
     (r, S) \<leftarrow> create_mutator NB S;
     let S = set_thread r (prepare_thread P (reg_thread S r)) S;
     b \<leftarrow> add_thread Xs me sp r S;
     Some (r, b)
   }"

definition thread_start :: "thread_ref \<Rightarrow> 'b registry \<Rightarrow> 'b registry" where
  "thread_start r S = set_thread r ((reg_thread S r) \<lparr> exec_status := InManaged \<rparr>) S"

text \<open>\<open>startoff\<close> up to the call of the closure, and after it.\<close>

definition startoff_begin ::
  "'b plan \<Rightarrow> 'b block_adapter list \<Rightarrow> slot \<Rightarrow> address \<Rightarrow> thread_ref \<Rightarrow> 'b registry \<Rightarrow> 'b registry blocking option" where
  "startoff_begin P Xs me sp r S =
     add_thread Xs me sp r (set_thread r (prepare_thread P (reg_thread S r)) S)"

definition terminate_current :: "slot \<Rightarrow> thread_ref \<Rightarrow> 'b registry \<Rightarrow> 'b registry option" where
  "terminate_current me r S = do {
     t \<leftarrow> thread_terminate me (reg_thread S r);
     add_about_to_terminate_current r (set_thread r t S)
   }"

definition thread_main ::
  "'b plan \<Rightarrow> 'b \<Rightarrow> 'b block_adapter list \<Rightarrow> slot \<Rightarrow> address \<Rightarrow> 'b registry
     \<Rightarrow> (thread_ref \<times> 'b registry blocking) option" where
  "thread_main P NB Xs me sp S = do {
     (r, S) \<leftarrow> create_mutator NB S;
     S \<leftarrow> add_main_thread r (thread_start r S);
     b \<leftarrow> startoff_begin P Xs me sp r S;
     Some (r, b)
   }"

section \<open>Stopping and resuming all mutators\<close>

definition handshake_candidates :: "'b registry \<Rightarrow> thread_ref list" where
  "handshake_candidates S =
     filter (\<lambda>r. \<not> has_collector_context (reg_thread S r) \<and> \<not> ignore_handshakes_and_gc (reg_thread S r))
       (live_threads S)"

text \<open>
  The closure of \<open>retain\<close>: under the thread's monitor, whether the thread has to be waited for.
  An asynchronous request does not park.
\<close>

definition retain_one :: "slot \<Rightarrow> 'b thread \<Rightarrow> (bool \<times> 'b thread) option" where
  "retain_one gc t = do {
     t \<leftarrow> thread_lock gc t;
     if is_blocked_for_gc t then Some (False, thread_unlock t)
     else do {
       b \<leftarrow> block_unchecked GCBlockAdapter gc True t;
       (case b of
          Returned (st, t) \<Rightarrow> Some (\<not> not_running st, thread_unlock t)
        | Parked _ _ \<Rightarrow> None)
     }
   }"

fun retain_running :: "slot \<Rightarrow> thread_ref list \<Rightarrow> 'b registry \<Rightarrow> (thread_ref list \<times> 'b registry) option" where
  "retain_running gc [] S = Some ([], S)"
| "retain_running gc (r # rs) S = do {
     (keep, t) \<leftarrow> retain_one gc (reg_thread S r);
     (left, S) \<leftarrow> retain_running gc rs (set_thread r t S);
     Some (if keep then r # left else left, S)
   }"

text \<open>The wait inside a synchronous request; a wake-up that changes nothing waits again.\<close>

partial_function (option) wait_until_blocked ::
  "('b registry \<Rightarrow> 'b registry) \<Rightarrow> slot \<Rightarrow> thread_ref \<Rightarrow> usize \<times> slot \<Rightarrow> 'b registry \<Rightarrow> 'b registry option" where
  "wait_until_blocked env gc r s S =
     (case block_wake GCBlockAdapter (TokenBool True) gc s (reg_thread (env S) r) of
        None \<Rightarrow> wait_until_blocked env gc r s (env S)
      | Some (Parked s t) \<Rightarrow> wait_until_blocked env gc r s (set_thread r (snd t) (env S))
      | Some (Returned t) \<Rightarrow> Some (set_thread r (snd t) (env S)))"

definition block_one ::
  "('b registry \<Rightarrow> 'b registry) \<Rightarrow> slot \<Rightarrow> thread_ref \<Rightarrow> 'b registry \<Rightarrow> 'b registry option" where
  "block_one env gc r S = do {
     t \<leftarrow> thread_lock gc (reg_thread S r);
     b \<leftarrow> block_unchecked GCBlockAdapter gc False t;
     S \<leftarrow> (case b of
        Returned (_, t) \<Rightarrow> Some (set_thread r t S)
      | Parked s (_, t) \<Rightarrow> wait_until_blocked env gc r s (set_thread r t S));
     Some (set_thread r (thread_unlock (reg_thread S r)) S)
   }"

fun block_each ::
  "('b registry \<Rightarrow> 'b registry) \<Rightarrow> slot \<Rightarrow> thread_ref list \<Rightarrow> 'b registry \<Rightarrow> 'b registry option" where
  "block_each env gc [] S = Some S"
| "block_each env gc (r # rs) S = Option.bind (block_one env gc r S) (block_each env gc rs)"

partial_function (option) block_rounds ::
  "('b registry \<Rightarrow> 'b registry) \<Rightarrow> slot \<Rightarrow> 'b registry \<Rightarrow> 'b registry option" where
  "block_rounds env gc S =
     Option.bind (retain_running gc (handshake_candidates S) S) (\<lambda>(left, S).
       if left = [] then Some S
       else Option.bind (block_each env gc (rev left) S) (\<lambda>S. block_rounds env gc S))"

definition block_all_mutators_for_gc ::
  "('b registry \<Rightarrow> 'b registry) \<Rightarrow> slot \<Rightarrow> 'b registry \<Rightarrow> (thread_ref list \<times> 'b registry) option" where
  "block_all_mutators_for_gc env gc S = do {
     S \<leftarrow> block_rounds env gc S;
     S \<leftarrow> process_about_to_terminate S;
     Some (filter (\<lambda>r. is_blocked_for_gc (reg_thread S r)) (live_threads S), S)
   }"

fun unblock_each :: "slot \<Rightarrow> thread_ref list \<Rightarrow> 'b registry \<Rightarrow> 'b registry option" where
  "unblock_each gc [] S = Some S"
| "unblock_each gc (r # rs) S = do {
     t \<leftarrow> thread_lock gc (reg_thread S r);
     t \<leftarrow> unblock GCBlockAdapter gc t;
     unblock_each gc rs (set_thread r (thread_unlock t) S)
   }"

definition unblock_all_mutators_for_gc :: "slot \<Rightarrow> 'b registry \<Rightarrow> 'b registry option" where
  "unblock_all_mutators_for_gc gc S =
     unblock_each gc (rev (filter (\<lambda>r. \<not> has_collector_context (reg_thread S r)) (live_threads S))) S"

section \<open>What mmtk asks about mutators\<close>

definition is_mutator :: "'b registry \<Rightarrow> thread_ref \<Rightarrow> bool" where
  "is_mutator S r = active_mutator_context (reg_thread S r)"

definition mutators :: "'b registry \<Rightarrow> thread_ref list" where
  "mutators S = filter (\<lambda>r. active_mutator_context (reg_thread S r)) (live_threads S)"

definition number_of_mutators :: "'b registry \<Rightarrow> nat" where
  "number_of_mutators S = length (filter (\<lambda>r. active_mutator_context (reg_thread S r)) (live_threads S))"

section \<open>The table is consistent\<close>

text \<open>
  Free indices are distinct and are those of the free entries; a registered thread knows its
  index.
\<close>

definition registry_ok :: "'b registry \<Rightarrow> bool" where
  "registry_ok S \<longleftrightarrow> distinct (reg_free S) \<and> length (reg_threads S) < 2 ^ 64 \<and>
     (\<forall>w \<in> set (reg_free S). unat w < length (reg_threads S) \<and> reg_threads S ! unat w = None) \<and>
     (\<forall>i r. i < length (reg_threads S) \<longrightarrow> reg_threads S ! i = Some r \<longrightarrow>
        unat (index_in_manager (reg_thread S r)) = i)"

lemma set_thread_simps [simp]:
  "reg_threads (set_thread r t S) = reg_threads S" "reg_free (set_thread r t S) = reg_free S"
  "reg_dying (set_thread r t S) = reg_dying S" "reg_thread (set_thread r t S) = (reg_thread S)(r := t)"
  "soft_handshake_left (set_thread r t S) = soft_handshake_left S"
  by (simp_all add: set_thread_def)

lemma live_threads_iff: "r \<in> set (live_threads S) \<longleftrightarrow> Some r \<in> set (reg_threads S)"
  by (force simp: live_threads_def List.map_filter_def)

lemma live_iff_nth: "r \<in> set (live_threads S) \<longleftrightarrow> (\<exists>i < length (reg_threads S). reg_threads S ! i = Some r)"
  unfolding live_threads_iff by (auto simp: in_set_conv_nth)

lemma registry_index:
  "registry_ok S \<Longrightarrow> i < length (reg_threads S) \<Longrightarrow> reg_threads S ! i = Some r \<Longrightarrow>
     unat (index_in_manager (reg_thread S r)) = i"
  by (simp add: registry_ok_def)

lemma live_at_index:
  assumes "registry_ok S" and "r \<in> set (live_threads S)"
  shows "unat (index_in_manager (reg_thread S r)) < length (reg_threads S) \<and>
    reg_threads S ! unat (index_in_manager (reg_thread S r)) = Some r"
  using assms by (auto simp: live_iff_nth registry_index)

lemma find_terminated_found:
  "find_terminated S is = Some (Some (i, r)) \<Longrightarrow>
     i < length (reg_threads S) \<and> reg_threads S ! i = Some r \<and> exec_status (reg_thread S r) = Terminated"
  by (induction "is") (auto split: if_splits option.splits)

lemma registry_ok_remove:
  assumes ok: "registry_ok S" and i: "i < length (reg_threads S)" "reg_threads S ! i = Some r"
  shows "registry_ok (S \<lparr> reg_dying := ds, reg_free := reg_free S @ [index_in_manager (reg_thread S r)],
    reg_threads := (reg_threads S)[i := None] \<rparr>)"
proof -
  have u: "unat (index_in_manager (reg_thread S r)) = i" using ok i by (auto simp: registry_ok_def)
  have "index_in_manager (reg_thread S r) \<notin> set (reg_free S)"
    using ok i u by (auto simp: registry_ok_def)
  then show ?thesis using ok i u by (auto simp: registry_ok_def nth_list_update)
qed

lemma process_ok:
  assumes "process_about_to_terminate S = Some S'" and "registry_ok S"
  shows "registry_ok S' \<and> reg_thread S' = reg_thread S \<and> length (reg_threads S') = length (reg_threads S) \<and>
    (\<forall>r. r \<in> set (live_threads S') \<longrightarrow> r \<in> set (live_threads S)) \<and>
    (\<forall>r. r \<in> set (live_threads S) \<longrightarrow> r \<notin> set (live_threads S') \<longrightarrow> exec_status (reg_thread S r) = Terminated)"
  using assms
proof (induction S rule: process_about_to_terminate.induct)
  case (1 S)
  show ?case
  proof (cases "find_terminated S [0..<length (reg_dying S)]")
    case None
    then show ?thesis using "1.prems" by (simp add: process_about_to_terminate.simps [of S])
  next
    case (Some f)
    show ?thesis
    proof (cases f)
      case None
      then show ?thesis using Some "1.prems" by (simp add: process_about_to_terminate.simps [of S])
    next
      case (Some ir)
      obtain i r where ir: "ir = (i, r)" by (cases ir)
      note f = \<open>find_terminated _ _ = Some f\<close> [unfolded Some ir]
      note at = find_terminated_found [OF f]
      have u: "unat (index_in_manager (reg_thread S r)) = i"
        using "1.prems"(2) at by (auto simp: registry_ok_def)
      let ?S = "S \<lparr> reg_dying := swap_remove i (reg_dying S),
        reg_free := reg_free S @ [index_in_manager (reg_thread S r)], reg_threads := (reg_threads S)[i := None] \<rparr>"
      have p: "process_about_to_terminate ?S = Some S'"
        using "1.prems"(1) f u at by (simp add: process_about_to_terminate.simps [of S] Let_def)
      have ok: "registry_ok ?S" using registry_ok_remove [OF "1.prems"(2)] at by blast
      have live: "r' \<in> set (live_threads ?S) \<longleftrightarrow> r' \<in> set (live_threads S) \<and> r' \<noteq> r" for r'
      proof -
        have "reg_threads S ! j = Some r \<longleftrightarrow> j = i" if "j < length (reg_threads S)" for j
          using registry_index [OF "1.prems"(2) that] at u by auto
        then show ?thesis
          using at by (auto simp: live_iff_nth nth_list_update) (metis option.inject)+
      qed
      have lt: "unat (index_in_manager (reg_thread S r)) < length (reg_threads S)" using u at by simp
      note IH = "1.IH" [OF f refl refl refl lt, unfolded u, OF p ok]
      show ?thesis using IH at unfolding live by auto
    qed
  qed
qed

lemma registry_ok_register:
  assumes ok: "registry_ok S" and r: "r \<notin> set (live_threads S)" and room: "length (reg_threads S) + 1 < 2 ^ 64"
  shows "registry_ok (register_thread r S) \<and>
    set (live_threads (register_thread r S)) = insert r (set (live_threads S))"
proof (cases "reg_free S = []")
  case True
  have u: "unat (word_of_nat (length (reg_threads S)) :: usize) = length (reg_threads S)"
    using room by (intro unat_word_of_nat) simp
  have no: "reg_threads S ! i \<noteq> Some r" if "i < length (reg_threads S)" for i
    using r that by (auto simp: live_iff_nth)
  have eq: "register_thread r S = set_thread r ((reg_thread S r) \<lparr> index_in_manager := word_of_nat (length (reg_threads S)) \<rparr>)
      (S \<lparr> reg_threads := reg_threads S @ [Some r] \<rparr>)"
    using True u by (simp add: register_thread_def Let_def set_thread_def)
  have "unat (index_in_manager (reg_thread S r')) = i" if "i < length (reg_threads S)" "reg_threads S ! i = Some r'" for i r'
    using ok that by (rule registry_index)
  then have "registry_ok (register_thread r S)"
    using no room True u unfolding eq registry_ok_def by (simp add: nth_append less_Suc_eq)
  moreover have "set (live_threads (register_thread r S)) = insert r (set (live_threads S))"
    unfolding eq by (auto simp: live_threads_iff)
  ultimately show ?thesis by blast
next
  case False
  obtain ws w where ws: "reg_free S = ws @ [w]" using False by (metis rev_exhaust)
  let ?i = "unat w"
  have w: "?i < length (reg_threads S)" "reg_threads S ! ?i = None" "w \<notin> set ws" "distinct ws"
    using ok by (simp_all add: registry_ok_def ws)
  have no: "reg_threads S ! i \<noteq> Some r" if "i < length (reg_threads S)" for i
    using r that by (auto simp: live_iff_nth)
  have v: "unat v \<noteq> ?i" if "v \<in> set ws" for v
    using w(3) that by (metis word_unat_eq_iff)
  have f: "unat v < length (reg_threads S)" "reg_threads S ! unat v = None" if "v \<in> set ws" for v
    using ok that by (simp_all add: registry_ok_def ws)
  have eq: "register_thread r S = set_thread r ((reg_thread S r) \<lparr> index_in_manager := w \<rparr>)
      (S \<lparr> reg_free := ws, reg_threads := (reg_threads S)[?i := Some r] \<rparr>)"
    using w(1) by (simp add: register_thread_def Let_def ws set_thread_def)
  have "unat (index_in_manager (reg_thread S r')) = i" if "i < length (reg_threads S)" "reg_threads S ! i = Some r'" for i r'
    using ok that by (rule registry_index)
  then have "registry_ok (register_thread r S)"
    using ok no v v [THEN not_sym] f w room unfolding eq by (auto simp: registry_ok_def nth_list_update)
  moreover have "set (live_threads (register_thread r S)) = insert r (set (live_threads S))"
  proof -
    have "r' \<in> set (live_threads (register_thread r S)) \<longleftrightarrow> r' = r \<or> r' \<in> set (live_threads S)" for r'
      using w(1,2) unfolding eq live_iff_nth by (auto simp: nth_list_update) (metis option.distinct(1))
    then show ?thesis by blast
  qed
  ultimately show ?thesis by blast
qed

text \<open>
  C13: the table of threads implements a set of threads. Registering a thread that is not
  registered adds it and nothing else, whether it gets a freed index or a new one; the removal
  of terminated threads removes only threads that are terminated; the queueing of a dying thread
  leaves the set alone and panics for no registered thread. All of them keep the table
  consistent: free indices are free and distinct, and each thread is found at its index.
\<close>

theorem registry_refines_thread_set:
  assumes "registry_ok S"
  shows "(r \<notin> set (live_threads S) \<longrightarrow> length (reg_threads S) + 1 < 2 ^ 64 \<longrightarrow>
      registry_ok (register_thread r S) \<and> set (live_threads (register_thread r S)) = insert r (set (live_threads S))) \<and>
    (process_about_to_terminate S = Some S1 \<longrightarrow>
      registry_ok S1 \<and> set (live_threads S1) \<subseteq> set (live_threads S) \<and>
      (\<forall>r \<in> set (live_threads S) - set (live_threads S1). exec_status (reg_thread S r) = Terminated)) \<and>
    (r \<in> set (live_threads S) \<longrightarrow>
      (\<exists>S2. add_about_to_terminate_current r S = Some S2 \<and> registry_ok S2 \<and>
        live_threads S2 = live_threads S \<and> reg_dying S2 = reg_dying S @ [r]))"
proof (intro conjI impI)
  assume "r \<in> set (live_threads S)"
  from live_at_index [OF assms this]
  show "\<exists>S2. add_about_to_terminate_current r S = Some S2 \<and> registry_ok S2 \<and>
      live_threads S2 = live_threads S \<and> reg_dying S2 = reg_dying S @ [r]"
    using assms by (simp add: add_about_to_terminate_current_def Let_def registry_ok_def live_threads_def)
qed (use registry_ok_register [OF assms] process_ok [OF _ assms] in blast)+

definition empty_registry :: "unit registry" where
  "empty_registry = registry_new (\<lambda>_. managed_thread)"

lemma empty_registry_simps [simp]:
  "registry_ok empty_registry" "reg_threads empty_registry = []" "reg_free empty_registry = []"
  "reg_dying empty_registry = []" "reg_thread empty_registry = (\<lambda>_. managed_thread)"
  "live_threads empty_registry = []"
  by (simp_all add: empty_registry_def registry_new_def registry_ok_def live_threads_def List.map_filter_def)

theorem registry_refines_thread_set_witness:
  "registry_ok (register_thread 3 empty_registry) \<and> set (live_threads (register_thread 3 empty_registry)) = {3}"
  using registry_refines_thread_set [of empty_registry 3] by simp

lemma process_idle: "reg_dying S = [] \<Longrightarrow> process_about_to_terminate S = Some S"
  by (simp add: process_about_to_terminate.simps [of S])

text \<open>
  The removal of terminated threads looks at the wrong list. If two threads are queued and
  the thread in the first entry of the table is terminated, that entry is freed, and the second
  look at the first entry panics.
\<close>

theorem process_panics_with_two_dying:
  assumes "registry_ok S" and "reg_threads S \<noteq> []" and "reg_threads S ! 0 = Some r"
    and "exec_status (reg_thread S r) = Terminated" and "length (reg_dying S) \<ge> 2"
  shows "process_about_to_terminate S = None"
proof -
  have e: "[0..<length (reg_dying T)] = 0 # [1..<length (reg_dying T)]" if "length (reg_dying T) > 0" for T :: "'a registry"
    using that by (simp add: upt_conv_Cons)
  have f: "find_terminated S [0..<length (reg_dying S)] = Some (Some (0, r))"
    using assms(2-5) by (subst e) auto
  have u: "unat (index_in_manager (reg_thread S r)) = 0"
    using registry_index [OF assms(1)] assms(2,3) by simp
  let ?S = "S \<lparr> reg_dying := swap_remove 0 (reg_dying S),
    reg_free := reg_free S @ [index_in_manager (reg_thread S r)], reg_threads := (reg_threads S)[0 := None] \<rparr>"
  have "find_terminated ?S [0..<length (reg_dying ?S)] = None"
    using assms(2,5) by (subst e) (simp_all add: swap_remove_def)
  then have "process_about_to_terminate ?S = None"
    by (simp add: process_about_to_terminate.simps [of ?S])
  then show ?thesis
    using assms(2) by (simp add: process_about_to_terminate.simps [of S] f u Let_def)
qed

definition dying_registry :: "unit registry" where
  "dying_registry = \<lparr> reg_threads = [Some 0, Some 1], reg_free = [], reg_dying = [1, 0],
     reg_thread = (\<lambda>r. managed_thread \<lparr> index_in_manager := word_of_nat r, exec_status := (if r = 0 then Terminated else InManaged) \<rparr>),
     reg_next = 2, reg_ids = 2, collector_started = False, soft_handshake_left = 0, handshake_threads = [] \<rparr>"

theorem process_panics_with_two_dying_witness: "process_about_to_terminate dying_registry = None"
proof (rule process_panics_with_two_dying)
  show "registry_ok dying_registry"
    by (auto simp: registry_ok_def dying_registry_def less_Suc_eq)
qed (simp_all add: dying_registry_def)

section \<open>Joining\<close>

lemma process_length:
  "process_about_to_terminate S = Some S' \<Longrightarrow> length (reg_threads S') = length (reg_threads S)"
proof (induction S rule: process_about_to_terminate.induct)
  case (1 S)
  show ?case
    using "1.prems" "1.IH" unfolding process_about_to_terminate.simps [of S]
    by (auto simp: Let_def split: option.splits if_splits prod.splits)
qed

lemma join_loop_empty:
  assumes "join_loop env S = Some S'" and "\<forall>S. length (reg_threads S) \<le> length (reg_threads (env S))"
  shows "length (reg_threads S) = 0"
proof -
  let ?P = "\<lambda>env S (S' :: 'a registry). (\<forall>S. length (reg_threads S) \<le> length (reg_threads (env S))) \<longrightarrow>
    length (reg_threads (S :: 'a registry)) = 0"
  have "?P env S S'"
    by (rule join_loop.raw_induct [where P = ?P, OF _ assms(1)])
      (auto split: if_splits Option.bind_splits dest!: process_length; metis le_zero_eq length_0_conv)
  then show ?thesis using assms(2) by blast
qed

text \<open>
  \<open>join_all\<close> does not return once a thread has been registered. It waits for the table to
  be empty, but no operation of the manager shortens the table: the entries of terminated
  threads are freed and kept.
\<close>

theorem join_all_never_returns:
  assumes "reg_threads S \<noteq> []" and "\<forall>S. length (reg_threads S) \<le> length (reg_threads (env S))"
  shows "join_all env registered S = None"
  using join_loop_empty [OF _ assms(2), of S] assms(1)
  by (cases "join_loop env S") (auto simp: join_all_def)

text \<open>No operation of the manager shortens the table.\<close>

lemma table_never_shrinks:
  "length (reg_threads S) \<le> length (reg_threads (register_thread r S))"
  "add_about_to_terminate_current r S = Some S' \<Longrightarrow> length (reg_threads S) \<le> length (reg_threads S')"
  "add_main_thread r S = Some S' \<Longrightarrow> length (reg_threads S) \<le> length (reg_threads S')"
  by (auto simp: register_thread_def add_about_to_terminate_current_def add_main_thread_def Let_def split: if_splits)

theorem join_all_never_returns_witness:
  "join_all id False (register_thread 0 empty_registry) = None"
proof -
  have "reg_threads (register_thread 0 empty_registry) \<noteq> []"
    by (simp add: register_thread_def Let_def)
  then show ?thesis using join_all_never_returns [of "register_thread 0 empty_registry" id False] by simp
qed

section \<open>The main thread\<close>

lemma prepare_keeps:
  "exec_status (prepare_thread P t) = exec_status t" "monitor (prepare_thread P t) = monitor t"
  "index_in_manager (prepare_thread P t) = index_in_manager t" "has_collector_context (prepare_thread P t) = has_collector_context t"
  "ignore_handshakes_and_gc (prepare_thread P t) = ignore_handshakes_and_gc t"
  "is_blocked_for_gc (prepare_thread P t) = is_blocked_for_gc t"
  "is_about_to_terminate (prepare_thread P t) = is_about_to_terminate t"
  by (simp_all add: prepare_thread_def enable_yieldpoints_def Let_def)

text \<open>
  \<open>main\<close> registers its thread twice: by \<open>add_main_thread\<close> and again by \<open>add_thread\<close> in
  \<open>startoff\<close>. The table ends with two entries for the thread, which knows the second one only,
  so that the first is never freed.
\<close>

theorem main_thread_registered_twice:
  "\<exists>S. thread_main P NB Xs me sp (registry_new store) = Some (0, Returned S) \<and>
    reg_threads S = [Some 0, Some 0] \<and> index_in_manager (reg_thread S 0) = 1 \<and> \<not> registry_ok S"
proof -
  obtain t where t: "for_mutator NB 0 False = Some t" by (simp add: for_mutator_def new_unchecked_def)
  let ?t = "prepare_thread P (t \<lparr> exec_status := InManaged, index_in_manager := 0 \<rparr>)"
  let ?t' = "?t \<lparr> stack_pointer := sp, exec_status := InManaged, index_in_manager := 1 \<rparr>"
  have "\<exists>S. thread_main P NB Xs me sp (registry_new store) = Some (0, Returned S) \<and>
      reg_threads S = [Some 0, Some 0] \<and> index_in_manager (reg_thread S 0) = 1"
    by (simp add: thread_main_def create_mutator_def registry_new_def t thread_start_def add_main_thread_def
        startoff_begin_def add_thread_def process_idle parked_enter_def prepare_keeps enter_native_def
        attempt_fast_exec_status_transition_def parked_leave_def leave_native_def
        attempt_leave_native_no_block_def register_thread_def Let_def)
  moreover have "\<not> registry_ok S" if "reg_threads S = [Some 0, Some 0]" "index_in_manager (reg_thread S 0) = 1"
    for S :: "'a registry"
    using registry_index [of S 0 0] that by auto
  ultimately show ?thesis by blast
qed

end
