(* ===== verification/Vmkit_StopAll.thy ===== *)
theory Vmkit_StopAll
  imports Vmkit_ThreadManager
begin

text \<open>
  What \<open>block_all_mutators_for_gc\<close> and \<open>unblock_all_mutators_for_gc\<close> of the thread manager
  guarantee, for any number of threads: after the first returns, no mutator that takes part in
  collections runs; if the mutators reach their safepoints, it returns; and the second leaves no
  mutator blocked.
\<close>

section \<open>Standing still\<close>

definition stopped :: "'b thread \<Rightarrow> bool" where
  "stopped t \<longleftrightarrow> is_blocked_for_gc t \<or> is_about_to_terminate t \<or> not_running (exec_status t)"

text \<open>What nobody takes back while the collector stops the threads.\<close>

definition keeps :: "'b thread \<Rightarrow> 'b thread \<Rightarrow> bool" where
  "keeps t t' \<longleftrightarrow> has_collector_context t' = has_collector_context t \<and>
     ignore_handshakes_and_gc t' = ignore_handshakes_and_gc t \<and> index_in_manager t' = index_in_manager t \<and>
     (is_blocked_for_gc t \<longrightarrow> is_blocked_for_gc t') \<and> (is_about_to_terminate t \<longrightarrow> is_about_to_terminate t') \<and>
     (not_running (exec_status t) \<longrightarrow> exec_status t' = exec_status t)"

definition table_keeps :: "'b registry \<Rightarrow> 'b registry \<Rightarrow> bool" where
  "table_keeps S S' \<longleftrightarrow> reg_threads S' = reg_threads S \<and> reg_dying S' = reg_dying S \<and>
     (\<forall>r. keeps (reg_thread S r) (reg_thread S' r))"

lemma keeps_refl [simp]: "keeps t t"
  by (simp add: keeps_def)

lemma keeps_trans: "keeps t t' \<Longrightarrow> keeps t' t'' \<Longrightarrow> keeps t t''"
  by (simp add: keeps_def)

lemma keeps_monitor [simp]:
  "keeps t (t1 \<lparr> monitor := N \<rparr>) = keeps t t1" "keeps (t \<lparr> monitor := N \<rparr>) t1 = keeps t t1"
  "stopped (t1 \<lparr> monitor := N \<rparr>) = stopped t1"
  by (simp_all add: keeps_def stopped_def)

lemma set_thread_twice [simp]: "set_thread r t (set_thread r t' S) = set_thread r t S"
  by (simp add: set_thread_def)

lemma table_keeps_refl [simp]: "table_keeps S S"
  by (simp add: table_keeps_def)

lemma table_keeps_trans [trans]: "table_keeps S S' \<Longrightarrow> table_keeps S' S'' \<Longrightarrow> table_keeps S S''"
  by (auto simp: table_keeps_def intro: keeps_trans)

lemma table_keeps_set [intro]: "keeps (reg_thread S r) t \<Longrightarrow> table_keeps S (set_thread r t S)"
  by (simp add: table_keeps_def)

lemma keeps_stopped: "keeps t t' \<Longrightarrow> stopped t \<Longrightarrow> stopped t'"
  by (auto simp: keeps_def stopped_def)

lemma table_keeps_stopped: "table_keeps S S' \<Longrightarrow> stopped (reg_thread S r) \<Longrightarrow> stopped (reg_thread S' r)"
  by (auto simp: table_keeps_def intro: keeps_stopped)

lemma candidates_keep: "table_keeps S S' \<Longrightarrow> handshake_candidates S' = handshake_candidates S"
  by (simp add: table_keeps_def keeps_def handshake_candidates_def live_threads_def)

section \<open>After the last round\<close>

lemma thread_lock_monitor: "thread_lock gc t = Some t1 \<Longrightarrow> \<exists>M. t1 = t \<lparr> monitor := M \<rparr>"
  by (auto simp: thread_lock_def)

lemma block_async_sound:
  assumes "block_unchecked GCBlockAdapter gc True t = Some (Returned (st, t'))"
  shows "keeps t t' \<and> (not_running st \<longrightarrow> stopped t')"
proof -
  obtain M where "thread_lock gc t = Some (t \<lparr> monitor := M \<rparr>)"
    using assms thread_lock_monitor by (force simp: block_unchecked_def split: Option.bind_splits)
  then show ?thesis
    using assms
    by (auto simp: block_unchecked_def set_blocked_eq keeps_def stopped_def thread_unlock_def
        thread_notify_all_def not_running_def to_blocked_def Let_def split: if_splits thread_state.splits)
qed

lemma retain_one_sound:
  assumes "retain_one gc t = Some (keep, t')"
  shows "keeps t t' \<and> (\<not> keep \<longrightarrow> stopped t')"
proof -
  obtain M where M: "thread_lock gc t = Some (t \<lparr> monitor := M \<rparr>)"
    using assms thread_lock_monitor by (force simp: retain_one_def split: Option.bind_splits)
  show ?thesis
  proof (cases "is_blocked_for_gc t")
    case True
    then show ?thesis using assms M by (auto simp: retain_one_def thread_unlock_def) (simp add: stopped_def)
  next
    case False
    then show ?thesis
      using assms M block_async_sound [of gc "t \<lparr> monitor := M \<rparr>"]
      by (auto simp: retain_one_def thread_unlock_def split: Option.bind_splits blocking.splits)
  qed
qed

lemma retain_running_sound:
  "retain_running gc rs S = Some (left, S') \<Longrightarrow>
     table_keeps S S' \<and> (\<forall>r \<in> set rs - set left. stopped (reg_thread S' r))"
proof (induction rs arbitrary: S left S')
  case (Cons r rs)
  obtain keep t left1 where one: "retain_one gc (reg_thread S r) = Some (keep, t)"
    and rest: "retain_running gc rs (set_thread r t S) = Some (left1, S')"
    and left: "left = (if keep then r # left1 else left1)"
    using Cons.prems by (auto split: Option.bind_splits prod.splits)
  note k = retain_one_sound [OF one]
  note IH = Cons.IH [OF rest]
  have "table_keeps S S'" using k IH table_keeps_trans by blast
  moreover have "stopped (reg_thread S' r)" if "\<not> keep"
    using table_keeps_stopped [of "set_thread r t S" S' r] IH k that by simp
  ultimately show ?case using IH by (auto simp: left)
qed simp

lemma block_rounds_sound:
  assumes "block_rounds env gc S = Some S'"
  shows "\<forall>r \<in> set (handshake_candidates S'). stopped (reg_thread S' r)"
proof -
  let ?P = "\<lambda>(env :: 'a registry \<Rightarrow> 'a registry) (gc :: slot) (S :: 'a registry) (S' :: 'a registry).
    \<forall>r \<in> set (handshake_candidates S'). stopped (reg_thread S' r)"
  have last: "\<forall>r \<in> set (handshake_candidates S'). stopped (reg_thread S' r)"
    if "retain_running gc (handshake_candidates S) S = Some ([], S')" for gc and S S' :: "'a registry"
    using retain_running_sound [OF that] candidates_keep [of S S'] by simp
  show ?thesis
    by (rule block_rounds.raw_induct [where P = ?P, OF _ assms])
      (auto split: Option.bind_splits if_splits dest!: last)
qed

lemma Some_in_cleared: "Some r \<in> set (xs[i := None]) \<Longrightarrow> Some r \<in> set xs"
  using set_update_subset_insert [of xs i None] by auto

lemma process_frame:
  "process_about_to_terminate S = Some S' \<Longrightarrow>
     reg_thread S' = reg_thread S \<and> (\<forall>r. Some r \<in> set (reg_threads S') \<longrightarrow> Some r \<in> set (reg_threads S))"
proof (induction S rule: process_about_to_terminate.induct)
  case (1 S)
  show ?case
    using "1.prems" "1.IH" unfolding process_about_to_terminate.simps [of S]
    by (auto simp: Let_def split: option.splits if_splits prod.splits; blast dest: Some_in_cleared)
qed

text \<open>
  C6: stopping all mutators stops them. When \<open>block_all_mutators_for_gc\<close> returns, whatever the
  other threads did while it waited, every registered thread that is not a collector thread and
  does not ignore collections is blocked and in the list returned, or it is about to terminate,
  or its state is \<open>New\<close> or \<open>Terminated\<close>; and only blocked threads are in the list.
\<close>

theorem block_all_leaves_no_runner:
  assumes "block_all_mutators_for_gc env gc S = Some (ts, S')"
  shows "(\<forall>r \<in> set (handshake_candidates S'). r \<in> set ts \<or> is_about_to_terminate (reg_thread S' r) \<or>
      not_running (exec_status (reg_thread S' r))) \<and>
    (\<forall>r \<in> set ts. is_blocked_for_gc (reg_thread S' r) \<and> r \<in> set (live_threads S'))"
proof -
  obtain S1 where S1: "block_rounds env gc S = Some S1" and p: "process_about_to_terminate S1 = Some S'"
    and ts: "ts = filter (\<lambda>r. is_blocked_for_gc (reg_thread S' r)) (live_threads S')"
    using assms by (auto simp: block_all_mutators_for_gc_def split: Option.bind_splits)
  note f = process_frame [OF p]
  have "set (handshake_candidates S') \<subseteq> set (handshake_candidates S1)"
    using f by (auto simp: handshake_candidates_def live_threads_iff)
  then have "stopped (reg_thread S' r)" if "r \<in> set (handshake_candidates S')" for r
    using block_rounds_sound [OF S1] f that by auto
  then show ?thesis by (auto simp: ts stopped_def handshake_candidates_def)
qed

section \<open>The rounds end\<close>

text \<open>
  The mutators are cooperative if, by the time the collector wakes up, every thread it has asked
  to block has either reached a safepoint, where it has become blocked and has notified the
  collector, or is about to terminate. Meanwhile no thread is created, started or unblocked.
\<close>

definition quiet :: "'b registry \<Rightarrow> bool" where
  "quiet S \<longleftrightarrow> (\<forall>r. mon_free (monitor (reg_thread S r)))"

definition answered :: "slot \<Rightarrow> 'b thread \<Rightarrow> 'b thread \<Rightarrow> bool" where
  "answered gc t t' \<longleftrightarrow>
     (should_block_for_gc t \<and> exec_status t = InManagedToBlock \<and> gc \<in> set (cvar (monitor t)) \<longrightarrow>
        gc \<notin> set (cvar (monitor t')) \<and> (is_blocked_for_gc t' \<or> is_about_to_terminate t'))"

definition cooperative :: "slot \<Rightarrow> ('b registry \<Rightarrow> 'b registry) \<Rightarrow> bool" where
  "cooperative gc env \<longleftrightarrow> (\<forall>S. quiet S \<longrightarrow> quiet (env S) \<and> table_keeps S (env S) \<and>
     (\<forall>r. answered gc (reg_thread S r) (reg_thread (env S) r)))"

lemma quiet_set [simp]: "quiet S \<Longrightarrow> mon_free (monitor t) \<Longrightarrow> quiet (set_thread r t S)"
  by (simp add: quiet_def)

lemma block_unchecked_held:
  "block_unchecked GCBlockAdapter gc asynchronous (t \<lparr> monitor := mon_held gc 1 c \<rparr>) = Some (
    if is_about_to_terminate t
    then Returned (Terminated, t \<lparr> should_block_for_gc := True, monitor := mon_held gc 1 c \<rparr>)
    else if to_blocked (exec_status t) = InManagedToBlock \<and> \<not> asynchronous \<and> \<not> is_blocked_for_gc t
    then Parked (2, gc) (InManagedToBlock, (requested_thread t) \<lparr> monitor := freed [gc] \<rparr>)
    else if to_blocked (exec_status t) = BlockedInNative
    then Returned (BlockedInNative, (requested_thread t) \<lparr> should_block_for_gc := False, is_blocked_for_gc := True,
           monitor := mon_held gc 1 [] \<rparr>)
    else Returned (to_blocked (exec_status t), (requested_thread t) \<lparr> monitor := mon_held gc 1 [] \<rparr>))"
  by (simp add: block_unchecked_def set_blocked_eq block_wait_def thread_unlock_def thread_notify_all_def
      requested_thread_def Let_def)

lemma retain_one_returns:
  assumes "mon_free (monitor t)" and "gc \<noteq> 0"
  shows "\<exists>keep t'. retain_one gc t = Some (keep, t') \<and> mon_free (monitor t') \<and> (stopped t \<longrightarrow> \<not> keep)"
  by (cases "is_blocked_for_gc t"; cases "is_about_to_terminate t"; cases "exec_status t")
    (auto simp: retain_one_def lock_free [OF assms] block_unchecked_held thread_unlock_def requested_thread_def
      stopped_def not_running_def to_blocked_def)

lemma retain_running_returns:
  assumes "quiet S" and "gc \<noteq> 0"
  shows "\<exists>left S'. retain_running gc rs S = Some (left, S') \<and> quiet S' \<and> set left \<subseteq> set rs \<and>
    ((\<forall>r \<in> set rs. stopped (reg_thread S r)) \<longrightarrow> left = [])"
  using assms(1)
proof (induction rs arbitrary: S)
  case (Cons r rs)
  obtain keep t where one: "retain_one gc (reg_thread S r) = Some (keep, t)" "mon_free (monitor t)"
    "stopped (reg_thread S r) \<longrightarrow> \<not> keep"
    using retain_one_returns [OF _ assms(2), of "reg_thread S r"] Cons.prems by (auto simp: quiet_def)
  have k: "table_keeps S (set_thread r t S)" using retain_one_sound [OF one(1)] by blast
  obtain left S' where rest: "retain_running gc rs (set_thread r t S) = Some (left, S')" "quiet S'"
    "set left \<subseteq> set rs" "(\<forall>r' \<in> set rs. stopped (reg_thread (set_thread r t S) r')) \<longrightarrow> left = []"
    using Cons.IH [of "set_thread r t S"] Cons.prems one(2) by auto
  have "left = [] \<and> \<not> keep" if "\<forall>r' \<in> set (r # rs). stopped (reg_thread S r')"
    using that one(3) rest(4) table_keeps_stopped [OF k] by simp
  then show ?case using one(1) rest(1-3) by (intro exI [of _ "if keep then r # left else left"] exI [of _ S']) auto
qed simp

lemma wait_returns:
  assumes "cooperative gc env" and "quiet S" and "should_block_for_gc (reg_thread S r)"
    and "exec_status (reg_thread S r) = InManagedToBlock" and "gc \<in> set (cvar (monitor (reg_thread S r)))"
  shows "\<exists>t. wait_until_blocked env gc r (2, gc) S = Some (set_thread r (t \<lparr> monitor := mon_held gc 1 (cvar (monitor t)) \<rparr>) (env S)) \<and>
    t = reg_thread (env S) r \<and> stopped t"
proof -
  let ?t = "reg_thread (env S) r"
  have e: "quiet (env S)" "gc \<notin> set (cvar (monitor ?t))" "is_blocked_for_gc ?t \<or> is_about_to_terminate ?t"
    using assms by (auto simp: cooperative_def answered_def)
  have m: "mon_free (monitor ?t)" using e(1) by (simp add: quiet_def)
  have "block_wake GCBlockAdapter (TokenBool True) gc (2, gc) ?t =
      Some (Returned (if is_about_to_terminate ?t then Terminated else exec_status ?t,
        ?t \<lparr> monitor := mon_held gc 1 (cvar (monitor ?t)) \<rparr>))"
    using e(2,3) by (auto simp: block_wake_def wake_free [OF m] block_wait_def thread_unlock_def)
  then show ?thesis
    using e(3) by (auto simp: wait_until_blocked.simps [of env gc r "(2, gc)" S] stopped_def)
qed

lemma block_now:
  assumes "is_about_to_terminate t \<or> to_blocked (exec_status t) \<noteq> InManagedToBlock \<or> is_blocked_for_gc t"
  shows "\<exists>st t' c. block_unchecked GCBlockAdapter gc False (t \<lparr> monitor := mon_held gc 1 c0 \<rparr>) =
      Some (Returned (st, t' \<lparr> monitor := mon_held gc 1 c \<rparr>)) \<and> keeps t t' \<and> stopped t'"
proof -
  have "keeps t (t \<lparr> should_block_for_gc := True \<rparr>)" by (simp add: keeps_def)
  moreover have "keeps t (requested_thread t)"
    by (cases "exec_status t") (simp_all add: keeps_def requested_thread_def not_running_def to_blocked_def)
  moreover have "keeps t ((requested_thread t) \<lparr> should_block_for_gc := False, is_blocked_for_gc := True \<rparr>)"
    by (cases "exec_status t") (simp_all add: keeps_def requested_thread_def not_running_def to_blocked_def)
  moreover have "stopped (requested_thread t)"
    if "\<not> is_about_to_terminate t" "to_blocked (exec_status t) \<noteq> BlockedInNative"
    using assms that
    by (cases "exec_status t") (auto simp: stopped_def requested_thread_def not_running_def to_blocked_def)
  moreover have "stopped ((requested_thread t) \<lparr> should_block_for_gc := False, is_blocked_for_gc := True \<rparr>)"
    by (simp add: stopped_def)
  moreover have "stopped (t \<lparr> should_block_for_gc := True \<rparr>)" if "is_about_to_terminate t"
    using that by (simp add: stopped_def)
  ultimately show ?thesis unfolding block_unchecked_held using assms by (auto split: if_splits; blast)
qed

lemma block_one_returns:
  assumes "cooperative gc env" and "quiet S" and "gc \<noteq> 0"
  shows "\<exists>S'. block_one env gc r S = Some S' \<and> quiet S' \<and> table_keeps S S' \<and> stopped (reg_thread S' r)"
proof -
  let ?t = "reg_thread S r"
  have m: "mon_free (monitor ?t)" using assms(2) by (simp add: quiet_def)
  show ?thesis
  proof (cases "\<not> is_about_to_terminate ?t \<and> to_blocked (exec_status ?t) = InManagedToBlock \<and> \<not> is_blocked_for_gc ?t")
    case False
    then obtain st t' c where b: "block_unchecked GCBlockAdapter gc False (?t \<lparr> monitor := mon_held gc 1 (cvar (monitor ?t)) \<rparr>) =
        Some (Returned (st, t' \<lparr> monitor := mon_held gc 1 c \<rparr>))" "keeps ?t t'" "stopped t'"
      using block_now [of ?t gc "cvar (monitor ?t)"] by blast
    then have "block_one env gc r S = Some (set_thread r (t' \<lparr> monitor := freed c \<rparr>) S)"
      by (simp add: block_one_def lock_free [OF m assms(3)] thread_unlock_def)
    then show ?thesis using b(2,3) assms(2) by auto
  next
    case True
    let ?S = "set_thread r ((requested_thread ?t) \<lparr> monitor := freed [gc] \<rparr>) S"
    have k: "table_keeps S ?S"
      using True by (auto simp: keeps_def requested_thread_def not_running_def to_blocked_def split: thread_state.splits
          intro!: table_keeps_set)
    have q: "quiet ?S" using assms(2) by simp
    obtain t where t: "wait_until_blocked env gc r (2, gc) ?S =
        Some (set_thread r (t \<lparr> monitor := mon_held gc 1 (cvar (monitor t)) \<rparr>) (env ?S))"
      "t = reg_thread (env ?S) r" "stopped t"
      using wait_returns [OF assms(1) q, of r] True by (auto simp: requested_thread_def)
    have e: "quiet (env ?S)" "table_keeps ?S (env ?S)" using assms(1) q by (auto simp: cooperative_def)
    have "block_one env gc r S = Some (set_thread r (t \<lparr> monitor := freed (cvar (monitor t)) \<rparr>)
        (set_thread r (t \<lparr> monitor := mon_held gc 1 (cvar (monitor t)) \<rparr>) (env ?S)))"
      using True t(1) by (simp add: block_one_def lock_free [OF m assms(3)] block_unchecked_held thread_unlock_def)
    moreover have "table_keeps (env ?S) (set_thread r (t \<lparr> monitor := freed (cvar (monitor t)) \<rparr>)
        (set_thread r (t \<lparr> monitor := mon_held gc 1 (cvar (monitor t)) \<rparr>) (env ?S)))"
      by (simp add: table_keeps_def t(2))
    ultimately show ?thesis
      using e k t(3) table_keeps_trans [OF k e(2)] by (auto simp: stopped_def intro: table_keeps_trans)
  qed
qed

lemma block_each_returns:
  assumes "cooperative gc env" and "gc \<noteq> 0" and "quiet S"
  shows "\<exists>S'. block_each env gc rs S = Some S' \<and> quiet S' \<and> table_keeps S S' \<and> (\<forall>r \<in> set rs. stopped (reg_thread S' r))"
  using assms(3)
proof (induction rs arbitrary: S)
  case (Cons r rs)
  obtain S1 where S1: "block_one env gc r S = Some S1" "quiet S1" "table_keeps S S1" "stopped (reg_thread S1 r)"
    using block_one_returns [OF assms(1) Cons.prems assms(2)] by blast
  obtain S2 where S2: "block_each env gc rs S1 = Some S2" "quiet S2" "table_keeps S1 S2"
    "\<forall>r \<in> set rs. stopped (reg_thread S2 r)"
    using Cons.IH [OF S1(2)] by blast
  show ?case
    using S1 S2 table_keeps_trans [OF S1(3) S2(3)] table_keeps_stopped [OF S2(3) S1(4)] by auto
qed simp

lemma block_rounds_returns:
  assumes "cooperative gc env" and "gc \<noteq> 0" and "quiet S"
  shows "\<exists>S'. block_rounds env gc S = Some S' \<and> table_keeps S S' \<and> quiet S'"
proof -
  obtain left S1 where r1: "retain_running gc (handshake_candidates S) S = Some (left, S1)" "quiet S1"
    using retain_running_returns [OF assms(3,2)] by blast
  note k1 = retain_running_sound [OF r1(1)]
  obtain S2 where S2: "block_each env gc (rev left) S1 = Some S2" "quiet S2" "table_keeps S1 S2"
    "\<forall>r \<in> set (rev left). stopped (reg_thread S2 r)"
    using block_each_returns [OF assms(1,2) r1(2)] by blast
  have k2: "table_keeps S S2" using k1 S2(3) table_keeps_trans by blast
  have "\<forall>r \<in> set (handshake_candidates S2). stopped (reg_thread S2 r)"
    using k1 S2(4) table_keeps_stopped [OF S2(3)] candidates_keep [OF k2] by auto
  then obtain S3 where r2: "retain_running gc (handshake_candidates S2) S2 = Some ([], S3)" "quiet S3"
    using retain_running_returns [OF S2(2) assms(2)] by blast
  have "block_rounds env gc S2 = Some S3"
    using r2 by (simp add: block_rounds.simps [of env gc S2])
  then have "block_rounds env gc S = Some (if left = [] then S1 else S3)"
    using r1 S2(1) by (simp add: block_rounds.simps [of env gc S])
  then show ?thesis
    using k1 r1(2) r2(2) table_keeps_trans [OF k2] retain_running_sound [OF r2(1)] by auto
qed

lemma block_all_ends:
  assumes "cooperative gc env" and "gc \<noteq> 0" and "quiet S" and "reg_dying S = []"
  shows "\<exists>S'. block_rounds env gc S = Some S' \<and> table_keeps S S' \<and>
    block_all_mutators_for_gc env gc S = Some (filter (\<lambda>r. is_blocked_for_gc (reg_thread S' r)) (live_threads S'), S')"
proof -
  obtain S' where S': "block_rounds env gc S = Some S'" "table_keeps S S'"
    using block_rounds_returns [OF assms(1-3)] by blast
  then have "process_about_to_terminate S' = Some S'"
    using assms(4) by (simp add: process_idle table_keeps_def)
  then show ?thesis using S' by (simp add: block_all_mutators_for_gc_def)
qed

text \<open>For the witnesses: every thread that is asked to block leaves managed code.\<close>

definition escaping :: "'b registry \<Rightarrow> 'b registry" where
  "escaping S = S \<lparr> reg_thread := (\<lambda>r. let t = reg_thread S r in
     if should_block_for_gc t \<and> exec_status t = InManagedToBlock
     then the (enter_native_blocked [GCBlockAdapter] 1 t) else t) \<rparr>"

lemma cooperative_escaping: "cooperative gc escaping"
proof -
  have g: "gc_list [GCBlockAdapter]" by (simp add: gc_list_def)
  have e: "the (enter_native_blocked [GCBlockAdapter] 1 t) = t \<lparr> exec_status := BlockedInNative,
      is_blocked_for_gc := wants_block t, should_block_for_gc := False,
      monitor := freed (if should_block_for_gc t then [] else cvar (monitor t)) \<rparr>"
    if "mon_free (monitor t)" for t :: "'a thread"
    using enter_native_blocked_free [OF g that, of 1] by simp
  show ?thesis
    by (auto simp: cooperative_def quiet_def table_keeps_def escaping_def Let_def e keeps_def answered_def
        wants_block_def not_running_def)
qed

definition one_mutator :: "unit registry" where
  "one_mutator = register_thread 0 empty_registry"

lemma one_mutator_simps [simp]:
  "quiet one_mutator" "reg_dying one_mutator = []" "handshake_candidates one_mutator = [0]"
  "live_threads one_mutator = [0]" "\<not> has_collector_context (reg_thread one_mutator 0)"
proof -
  have t: "\<not> has_collector_context managed_thread" "\<not> ignore_handshakes_and_gc managed_thread"
    by (simp_all add: managed_thread_def for_mutator_def new_unchecked_def)
  show "quiet one_mutator" "reg_dying one_mutator = []" "live_threads one_mutator = [0]"
    by (simp_all add: one_mutator_def register_thread_def Let_def quiet_def live_threads_def List.map_filter_def)
  then show "handshake_candidates one_mutator = [0]" "\<not> has_collector_context (reg_thread one_mutator 0)"
    by (simp_all add: handshake_candidates_def one_mutator_def register_thread_def Let_def t)
qed

theorem block_all_leaves_no_runner_witness:
  "\<exists>ts S'. block_all_mutators_for_gc escaping 7 one_mutator = Some (ts, S') \<and> handshake_candidates S' = [0] \<and>
     (0 \<in> set ts \<or> is_about_to_terminate (reg_thread S' 0) \<or> not_running (exec_status (reg_thread S' 0)))"
proof -
  obtain ts S' where S': "block_all_mutators_for_gc escaping 7 one_mutator = Some (ts, S')" "table_keeps one_mutator S'"
    using block_all_ends [OF cooperative_escaping, of 7 one_mutator] by auto
  then show ?thesis
    using block_all_leaves_no_runner [OF S'(1)] candidates_keep [OF S'(2)] by auto
qed



section \<open>Resuming\<close>

lemma unblock_held:
  "unblock GCBlockAdapter gc (t \<lparr> monitor := mon_held gc 1 c \<rparr>) =
    Some (t \<lparr> is_blocked_for_gc := False, should_block_for_gc := False, monitor := mon_held gc 1 [] \<rparr>)"
  by (simp add: unblock_def thread_unlock_def thread_notify_all_def; cases t; simp)

lemma unblock_each_returns:
  assumes "gc \<noteq> 0" and "quiet S"
  shows "\<exists>S'. unblock_each gc rs S = Some S' \<and> quiet S' \<and> reg_threads S' = reg_threads S \<and>
    (\<forall>r. reg_thread S' r = (if r \<in> set rs then (reg_thread S r) \<lparr> is_blocked_for_gc := False,
       should_block_for_gc := False, monitor := freed [] \<rparr> else reg_thread S r))"
  using assms(2)
proof (induction rs arbitrary: S)
  case (Cons r rs)
  let ?t = "(reg_thread S r) \<lparr> is_blocked_for_gc := False, should_block_for_gc := False, monitor := freed [] \<rparr>"
  have "mon_free (monitor (reg_thread S r))" using Cons.prems by (simp add: quiet_def)
  from lock_free [OF this assms(1)]
  have "unblock_each gc (r # rs) S = unblock_each gc rs (set_thread r ?t S)"
    by (simp add: unblock_held thread_unlock_def)
  moreover obtain S' where "unblock_each gc rs (set_thread r ?t S) = Some S'" "quiet S'" "reg_threads S' = reg_threads S"
    "\<forall>r'. reg_thread S' r' = (if r' \<in> set rs then (reg_thread (set_thread r ?t S) r') \<lparr> is_blocked_for_gc := False,
       should_block_for_gc := False, monitor := freed [] \<rparr> else reg_thread (set_thread r ?t S) r')"
    using Cons.IH [of "set_thread r ?t S"] Cons.prems by auto
  ultimately show ?case by (cases "reg_thread S r") auto
qed simp

text \<open>
  C11: resuming undoes the stop. \<open>unblock_all_mutators_for_gc\<close> returns and leaves no registered
  mutator blocked or asked to block; every thread waiting on the monitor of such a mutator has been
  notified, and the states of the threads and everything about collector threads are unchanged.
\<close>

theorem unblock_all_resumes:
  assumes "gc \<noteq> 0" and "quiet S"
  shows "\<exists>S'. unblock_all_mutators_for_gc gc S = Some S' \<and> quiet S' \<and>
    (\<forall>r \<in> set (live_threads S). \<not> has_collector_context (reg_thread S r) \<longrightarrow>
       \<not> is_blocked_for_gc (reg_thread S' r) \<and> \<not> should_block_for_gc (reg_thread S' r) \<and>
       cvar (monitor (reg_thread S' r)) = [] \<and> exec_status (reg_thread S' r) = exec_status (reg_thread S r)) \<and>
    (\<forall>r. has_collector_context (reg_thread S r) \<longrightarrow> reg_thread S' r = reg_thread S r)"
proof -
  obtain S' where "unblock_all_mutators_for_gc gc S = Some S'" "quiet S'"
    "\<forall>r. reg_thread S' r = (if r \<in> set (rev (filter (\<lambda>r. \<not> has_collector_context (reg_thread S r)) (live_threads S)))
       then (reg_thread S r) \<lparr> is_blocked_for_gc := False, should_block_for_gc := False, monitor := freed [] \<rparr>
       else reg_thread S r)"
    using unblock_each_returns [OF assms] unfolding unblock_all_mutators_for_gc_def by blast
  then show ?thesis by (intro exI [of _ S']) simp
qed

theorem unblock_all_resumes_witness:
  "\<exists>S'. unblock_all_mutators_for_gc 7 one_mutator = Some S' \<and> is_blocked_for_gc (reg_thread S' 0) = False"
  using unblock_all_resumes [of 7 one_mutator] by auto

end
