(* ===== verification/Vmkit_Roots.thy ===== *)
theory Vmkit_Roots
  imports Vmkit_Object
begin

text \<open>
  \<open>mm/stack_bounds.rs\<close> and \<open>mm/conservative_roots.rs\<close>: the bounds of a thread's stack, and the
  conservative scan of a span of memory that pins every object a word of the span may point
  to. The heap's bounds and the search for the object behind a pointer are mmtk's.
\<close>

section \<open>Stack bounds\<close>

record stack_bounds =
  origin :: address
  bound :: address

definition DEFAULT_RESERVED_ZONE :: usize where
  "DEFAULT_RESERVED_ZONE = 64 * 1024"

definition empty_bounds :: stack_bounds where
  "empty_bounds = \<lparr> origin = 0, bound = 0 \<rparr>"

definition sb_size :: "stack_bounds \<Rightarrow> usize" where
  "sb_size b = origin b - bound b"

definition sb_is_empty :: "stack_bounds \<Rightarrow> bool" where
  "sb_is_empty b \<longleftrightarrow> origin b = 0"

definition sb_contains :: "stack_bounds \<Rightarrow> address \<Rightarrow> bool" where
  "sb_contains b p \<longleftrightarrow> \<not> sb_is_empty b \<and> origin b \<ge> p \<and> p > bound b"

text \<open>The getters assert that the bounds are set.\<close>

definition sb_origin :: "stack_bounds \<Rightarrow> address option" where
  "sb_origin b = (if origin b \<noteq> 0 then Some (origin b) else None)"

definition sb_end :: "stack_bounds \<Rightarrow> address option" where
  "sb_end b = (if bound b \<noteq> 0 then Some (bound b) else None)"

text \<open>The debug assertion that the current stack pointer \<^term>\<open>sp\<close> lies within the bounds.\<close>

definition check_consistency :: "address \<Rightarrow> stack_bounds \<Rightarrow> bool" where
  "check_consistency sp b \<longleftrightarrow> origin b \<noteq> bound b \<and> sp < origin b \<and> sp > bound b"

definition recursion_limit :: "address \<Rightarrow> stack_bounds \<Rightarrow> usize \<Rightarrow> address option" where
  "recursion_limit sp b min_reserved_zone =
     (if check_consistency sp b then Some (bound b + min_reserved_zone) else None)"

definition recursion_limit_with_params ::
  "address \<Rightarrow> stack_bounds \<Rightarrow> address \<Rightarrow> usize \<Rightarrow> usize \<Rightarrow> address option" where
  "recursion_limit_with_params sp b start_of_user_stack max_user_stack reserved_zone_size =
     (if \<not> check_consistency sp b then None
      else let reserved_zone_size = min reserved_zone_size max_user_stack;
          max_user_stack_with_reserved_zone = max_user_stack - reserved_zone_size;
          end_of_stack_with_reserved_zone = bound b + reserved_zone_size
      in Some (if start_of_user_stack < end_of_stack_with_reserved_zone then end_of_stack_with_reserved_zone
         else (let available_user_stack = start_of_user_stack - end_of_stack_with_reserved_zone;
                   n = (if max_user_stack_with_reserved_zone > available_user_stack
                        then available_user_stack else max_user_stack_with_reserved_zone)
               in start_of_user_stack - n)))"

definition with_soft_origin :: "stack_bounds \<Rightarrow> address \<Rightarrow> stack_bounds option" where
  "with_soft_origin b org = (if sb_contains b org then Some \<lparr> origin = org, bound = bound b \<rparr> else None)"

definition is_growing_downwards :: "stack_bounds \<Rightarrow> bool option" where
  "is_growing_downwards b =
     (if origin b \<noteq> 0 \<and> bound b \<noteq> 0 then Some (bound b \<le> origin b) else None)"

text \<open>
  The Unix bounds of a thread, from the address and the size the C library reports: on Apple's
  systems and OpenBSD the address is the origin, elsewhere it is the lowest one. On Linux the main
  thread uses the stack limit of the process instead.
\<close>

datatype unix_platform = Apple | OpenBSD | OtherUnix

fun new_thread_stack_bounds :: "unix_platform \<Rightarrow> address \<Rightarrow> usize \<Rightarrow> stack_bounds" where
  "new_thread_stack_bounds Apple reported stack_size = \<lparr> origin = reported, bound = reported - stack_size \<rparr>"
| "new_thread_stack_bounds OpenBSD reported stack_size = \<lparr> origin = reported, bound = reported - stack_size \<rparr>"
| "new_thread_stack_bounds OtherUnix reported stack_size = \<lparr> origin = reported + stack_size, bound = reported \<rparr>"

definition RLIM_INFINITY :: usize where
  "RLIM_INFINITY = - 1"

definition current_thread_stack_bounds_internal ::
  "unix_platform \<Rightarrow> address \<Rightarrow> usize \<Rightarrow> bool \<Rightarrow> usize \<Rightarrow> usize \<Rightarrow> stack_bounds option" where
  "current_thread_stack_bounds_internal platform reported stack_size linux_main_thread rlim_cur page_size =
     (let ret = new_thread_stack_bounds platform reported stack_size
      in if linux_main_thread
         then do {
           org \<leftarrow> sb_origin ret;
           let sz = (if rlim_cur = RLIM_INFINITY then 8 * 1024 * 1024 else rlim_cur);
           let sz = sz - page_size;
           Some \<lparr> origin = org, bound = org - sz \<rparr>
         }
         else Some ret)"

definition current_thread_stack_bounds :: "address \<Rightarrow> stack_bounds option \<Rightarrow> stack_bounds option" where
  "current_thread_stack_bounds sp internal = do {
     result \<leftarrow> internal;
     if check_consistency sp result then Some result else None
   }"

text \<open>The Windows bounds, from the system's description of the region of pages an address is in.\<close>

record memory_region =
  BaseAddress :: address
  RegionSize :: usize
  AllocationBase :: address
  mem_reserve :: bool
  page_guard :: bool

definition windows_stack_bounds_internal :: "(address \<Rightarrow> memory_region) \<Rightarrow> address \<Rightarrow> stack_bounds option" where
  "windows_stack_bounds_internal VirtualQuery local = do {
     let stack_origin = VirtualQuery local;
     let org = BaseAddress stack_origin + RegionSize stack_origin;
     let uncommitted_memory = VirtualQuery (AllocationBase stack_origin);
     if \<not> mem_reserve uncommitted_memory then None
     else do {
       let guard_page = VirtualQuery (BaseAddress uncommitted_memory + RegionSize uncommitted_memory);
       if \<not> page_guard guard_page then None
       else Some \<lparr> origin = org, bound = AllocationBase stack_origin + RegionSize guard_page \<rparr>
     }
   }"

section \<open>Conservative roots\<close>

text \<open>What mmtk answers: the bounds of the heap and the object an internal pointer belongs to.\<close>

record heap_view =
  starting_heap_address :: address
  last_heap_address :: address
  find_object_from_internal_pointer :: "address \<Rightarrow> usize \<Rightarrow> address option"

record conservative_roots =
  roots :: "address set"
  internal_pointer_limit :: usize

definition roots_new :: "usize \<Rightarrow> conservative_roots" where
  "roots_new lim = \<lparr> roots = {}, internal_pointer_limit = lim \<rparr>"

definition add_pointer :: "heap_view \<Rightarrow> conservative_roots \<Rightarrow> address \<Rightarrow> conservative_roots" where
  "add_pointer H R pointer =
     (if pointer < starting_heap_address H \<or> pointer > last_heap_address H then R
      else case find_object_from_internal_pointer H pointer (internal_pointer_limit R) of
             None \<Rightarrow> R
           | Some start \<Rightarrow> R \<lparr> roots := insert start (roots R) \<rparr>)"

partial_function (option) span_loop ::
  "heap_view \<Rightarrow> memory \<Rightarrow> conservative_roots \<Rightarrow> address \<Rightarrow> address \<Rightarrow> conservative_roots option" where
  "span_loop H m R current end =
     (if current < end then span_loop H m (add_pointer H R (load64 m current)) (current + 8) end else Some R)"

definition add_span ::
  "ext_lib \<Rightarrow> heap_view \<Rightarrow> memory \<Rightarrow> conservative_roots \<Rightarrow> address \<Rightarrow> address \<Rightarrow> conservative_roots option" where
  "add_span L H m R start end =
     (if start \<noteq> 0 \<and> end \<noteq> 0
      then (let (start, end) = (if start > end then (end, start) else (start, end));
                start = raw_align_down L start 8;
                end = raw_align_up L end 8
            in span_loop H m R start end)
      else None)"

text \<open>Internal pointers: the object a pointer into it belongs to, and the distance.\<close>

definition internal_pointer_new :: "vm_config \<Rightarrow> address \<Rightarrow> address option" where
  "internal_pointer_new C a = (if COOPERATIVE C \<and> CONSERVATIVE_TRACING C then Some a else None)"

definition internal_pointer_object :: "heap_view \<Rightarrow> address \<Rightarrow> vmkit_object option" where
  "internal_pointer_object H a = find_object_from_internal_pointer H a 128"

definition internal_pointer_offset :: "heap_view \<Rightarrow> address \<Rightarrow> usize option" where
  "internal_pointer_offset H a = map_option (\<lambda>obj. a - obj) (internal_pointer_object H a)"

record fat_internal_pointer =
  fip_offset :: usize
  fip_object :: vmkit_object

definition fat_new :: "vmkit_object \<Rightarrow> usize \<Rightarrow> fat_internal_pointer" where
  "fat_new obj off = \<lparr> fip_offset = off, fip_object = obj \<rparr>"

definition fat_deref :: "fat_internal_pointer \<Rightarrow> address" where
  "fat_deref p = fip_object p + fip_offset p"

definition fat_eq :: "fat_internal_pointer \<Rightarrow> fat_internal_pointer \<Rightarrow> bool" where
  "fat_eq p q \<longleftrightarrow> fip_offset p = fip_offset q \<and> fip_object p = fip_object q"

section \<open>The loop over a span\<close>

text \<open>The objects the words at the given addresses point to.\<close>

definition pointed :: "heap_view \<Rightarrow> memory \<Rightarrow> usize \<Rightarrow> address set \<Rightarrow> address set" where
  "pointed H m lim as = {obj. \<exists>a \<in> as. starting_heap_address H \<le> load64 m a \<and> load64 m a \<le> last_heap_address H \<and>
     find_object_from_internal_pointer H (load64 m a) lim = Some obj}"

lemma add_pointer_roots:
  "roots (add_pointer H R (load64 m a)) = roots R \<union> pointed H m (internal_pointer_limit R) {a}"
  "internal_pointer_limit (add_pointer H R p) = internal_pointer_limit R"
  by (auto simp: add_pointer_def pointed_def split: option.split)

lemma pointed_insert: "pointed H m lim (insert a as) = pointed H m lim {a} \<union> pointed H m lim as"
  by (auto simp: pointed_def)

text \<open>The word addresses of a span of \<^term>\<open>n\<close> words.\<close>

definition words_from :: "address \<Rightarrow> nat \<Rightarrow> address set" where
  "words_from a n = (\<lambda>i. a + 8 * word_of_nat i) ` {..<n}"

lemma words_from_Suc: "words_from a (Suc n) = insert a (words_from (a + 8) n)"
proof -
  have "{..<Suc n} = insert 0 (Suc ` {..<n})" by (rule lessThan_Suc_eq_insert_0)
  then show ?thesis by (simp add: words_from_def image_image algebra_simps)
qed

lemma span_loop_words:
  assumes "unat end = unat start + 8 * n"
  shows "\<exists>R'. span_loop H m R start end = Some R' \<and>
    roots R' = roots R \<union> pointed H m (internal_pointer_limit R) (words_from start n) \<and>
    internal_pointer_limit R' = internal_pointer_limit R"
  using assms
proof (induction n arbitrary: start R)
  case 0
  then show ?case by (subst span_loop.simps) (simp add: word_less_nat_alt words_from_def pointed_def)
next
  case (Suc n)
  have "unat (start + 8) = unat start + 8"
    using Suc.prems unat_less_2_64 [of "end"] by (subst unat_add_no_overflow) auto
  then have "unat end = unat (start + 8) + 8 * n" using Suc.prems by simp
  from Suc.IH [OF this, of "add_pointer H R (load64 m start)"]
  obtain R' where R': "span_loop H m (add_pointer H R (load64 m start)) (start + 8) end = Some R'"
      "roots R' = roots R \<union> pointed H m (internal_pointer_limit R) (words_from start (Suc n))"
      "internal_pointer_limit R' = internal_pointer_limit R"
    by (auto simp: words_from_Suc add_pointer_roots
        pointed_insert [of _ _ _ start "words_from (start + 8) n"] Un_assoc)
  have "start < end" using Suc.prems by (simp add: word_less_nat_alt)
  then have "span_loop H m R start end = Some R'"
    using R'(1) span_loop.simps [of H m R start "end"] by simp
  then show ?case using R'(2,3) by simp
qed

lemma words_from_eq:
  assumes "aligned 3 start" and "unat start + 8 * n < 2 ^ 64"
  shows "words_from start n = {a. aligned 3 a \<and> unat start \<le> unat a \<and> unat a < unat start + 8 * n}"
proof -
  have u: "unat (start + 8 * word_of_nat i) = unat start + 8 * i" if "i < n" for i
  proof -
    have "unat (word_of_nat i :: usize) = i" using that assms(2) by (intro unat_word_of_nat) simp
    moreover have "8 * i < 2 ^ 64" using that assms(2) by simp
    ultimately have "unat (8 * word_of_nat i :: usize) = 8 * i" by (simp add: unat_word_ariths)
    then show ?thesis using that assms(2) by (subst unat_add_no_overflow) auto
  qed
  have d: "(8 :: nat) dvd unat start" using assms(1) aligned_iff_dvd [of 3 start] by simp
  show ?thesis
  proof (intro set_eqI iffI)
    fix a assume "a \<in> words_from start n"
    then show "a \<in> {a. aligned 3 a \<and> unat start \<le> unat a \<and> unat a < unat start + 8 * n}"
      using u d by (auto simp: words_from_def aligned_iff_dvd)
  next
    fix a assume "a \<in> {a. aligned 3 a \<and> unat start \<le> unat a \<and> unat a < unat start + 8 * n}"
    then have a: "(8 :: nat) dvd unat a" "unat start \<le> unat a" "unat a < unat start + 8 * n"
      by (auto simp: aligned_iff_dvd)
    then obtain i where i: "unat a = unat start + 8 * i"
      using d by (metis dvd_diff_nat dvdE le_add_diff_inverse)
    then have "i < n" using a(3) by simp
    then have "a = start + 8 * word_of_nat i" using u [OF \<open>i < n\<close>] i by (simp only: word_unat_eq_iff)
    then show "a \<in> words_from start n" using \<open>i < n\<close> by (auto simp: words_from_def)
  qed
qed

lemma span_scanned:
  assumes "lib_ok L" and "start \<noteq> 0" and "end \<noteq> 0"
    and "lo = min start end" and "hi = max start end" and "unat hi + 8 \<le> 2 ^ 64 - 8"
  shows "\<exists>R'. add_span L H m R start end = Some R' \<and>
    roots R' = roots R \<union> pointed H m (internal_pointer_limit R)
      {a. aligned 3 a \<and> unat (raw_align_down L lo 8) \<le> unat a \<and> unat a < unat (raw_align_up L hi 8)} \<and>
    internal_pointer_limit R' = internal_pointer_limit R"
proof -
  let ?lo = "raw_align_down L lo 8" and ?hi = "raw_align_up L hi 8"
  have lo: "aligned 3 ?lo" "unat ?lo \<le> unat lo"
    using raw_align_down_bounds [OF assms(1), of 3 lo] by simp_all
  have hi: "aligned 3 ?hi" "unat hi \<le> unat ?hi"
    using raw_align_up_bounds [OF assms(1), of 3 hi] assms(6) by simp_all
  have "unat lo \<le> unat hi" using assms(4,5) by (simp add: min_def max_def word_le_nat_alt)
  then have le: "unat ?lo \<le> unat ?hi" using lo hi by linarith
  have "8 dvd unat ?hi - unat ?lo" using lo(1) hi(1) by (simp add: aligned_iff_dvd dvd_diff_nat)
  then obtain n where n: "unat ?hi = unat ?lo + 8 * n" using le by (metis dvdE le_add_diff_inverse)
  moreover have "unat ?lo + 8 * n < 2 ^ 64" using n unat_less_2_64 [of ?hi] by simp
  moreover have "add_span L H m R start end = span_loop H m R ?lo ?hi"
    using assms(2-5) by (auto simp: add_span_def min_def max_def not_less)
  ultimately show ?thesis
    using span_loop_words [OF n, of H m R] words_from_eq [OF lo(1), of n] by auto
qed

section \<open>Properties\<close>

text \<open>
  C28: the conservative scan is complete and exact. It returns for every span, given in either
  order, and the roots it adds are the objects found for the words at all word-aligned
  addresses of the span, rounded outwards to whole words, that point into the heap.
\<close>

theorem add_span_exact:
  assumes "lib_ok L" and "start \<noteq> 0" and "end \<noteq> 0"
    and "lo = min start end" and "hi = max start end" and "unat hi + 8 \<le> 2 ^ 64 - 8"
  shows "\<exists>R'. add_span L H m R start end = Some R' \<and>
    roots R' = roots R \<union> pointed H m (internal_pointer_limit R)
      {a. aligned 3 a \<and> unat (raw_align_down L lo 8) \<le> unat a \<and> unat a < unat (raw_align_up L hi 8)}"
  using span_scanned [OF assms, of H m R] by blast

definition heap_of_cells :: heap_view where
  "heap_of_cells = \<lparr> starting_heap_address = 65536, last_heap_address = 131072,
       find_object_from_internal_pointer = (\<lambda>p lim. Some p) \<rparr>"

theorem add_span_exact_witness:
  "\<exists>R'. add_span std_lib heap_of_cells (\<lambda>_. 7) (roots_new 128) 8192 4096 = Some R' \<and>
     roots R' = pointed heap_of_cells (\<lambda>_. 7) 128 {a. aligned 3 a \<and> 4096 \<le> unat a \<and> unat a < 8192}"
proof -
  have "raw_align_down std_lib 4096 8 = 4096" and "raw_align_up std_lib 8192 8 = 8192"
    by (simp_all add: std_lib_def)
  then show ?thesis
    using add_span_exact [OF lib_ok_std_lib, of 8192 4096 4096 8192 heap_of_cells "\<lambda>_. 7" "roots_new 128"]
    by (simp add: roots_new_def min_def max_def)
qed

text \<open>
  The recursion limit for user code lies in the stack, above the reserved zone, and the user
  code below its start gets at most the stack it asked for, the reserved zone included.
\<close>

theorem recursion_limit_in_stack:
  assumes "check_consistency sp b" and "unat (bound b) + unat reserved < 2 ^ 64" and "bound b + min reserved max_stack \<le> start"
  shows "\<exists>l. recursion_limit_with_params sp b start max_stack reserved = Some l \<and>
    unat (bound b) + unat (min reserved max_stack) \<le> unat l \<and> l \<le> start \<and>
    unat start - unat l \<le> unat max_stack - unat (min reserved max_stack)"
proof -
  let ?r = "min reserved max_stack"
  let ?e = "bound b + ?r"
  let ?n = "min (max_stack - ?r) (start - ?e)"
  let ?l = "start - ?n"
  have r: "unat ?r \<le> unat reserved" "?r \<le> max_stack" by (simp_all add: min_def word_le_nat_alt)
  have e: "unat ?e = unat (bound b) + unat ?r"
    using assms(2) r(1) by (intro unat_add_no_overflow) linarith
  have n: "unat ?n = min (unat max_stack - unat ?r) (unat start - unat ?e)"
    using assms(3) r(2) by (simp add: min_def word_le_nat_alt unat_sub)
  have m: "(if y < x then y else x) = min x y" for x y :: usize by (auto simp: min_def)
  have "\<not> start < ?e" using assms(3) by simp
  then have some: "recursion_limit_with_params sp b start max_stack reserved = Some ?l"
    using assms(1) unfolding recursion_limit_with_params_def Let_def m by (simp only: if_False not_True_eq_False simp_thms)
  have "unat ?n \<le> unat start" unfolding n by (rule min.coboundedI2) simp
  then have l: "unat ?l = unat start - unat ?n" by (simp add: unat_sub word_le_nat_alt)
  have "unat ?n \<le> unat max_stack - unat ?r" and "unat ?n \<le> unat start - unat ?e"
    unfolding n by (rule min.cobounded1, rule min.cobounded2)
  moreover have "unat ?e \<le> unat start" using assms(3) by (simp only: word_le_nat_alt)
  ultimately have h: "unat (bound b) + unat ?r \<le> unat ?l" "unat ?l \<le> unat start"
      "unat start - unat ?l \<le> unat max_stack - unat ?r"
    unfolding l e by linarith+
  have "?l \<le> start" unfolding word_le_nat_alt by (rule h(2))
  then show ?thesis using some h(1,3) by (intro exI [of _ ?l] conjI) assumption+
qed

theorem recursion_limit_in_stack_witness:
  "\<exists>l. recursion_limit_with_params 0x1e000 \<lparr> origin = 0x20000, bound = 0x10000 \<rparr> 0x1f000 0x8000 0x1000 = Some l \<and>
     l \<le> 0x1f000"
  using recursion_limit_in_stack [of "0x1e000" "\<lparr> origin = 0x20000, bound = 0x10000 \<rparr>" "0x1000" "0x8000" "0x1f000"]
  by (auto simp: min_def check_consistency_def)

end
