(* ===== verification/Vmkit_Scanning.thy ===== *)
theory Vmkit_Scanning
  imports Vmkit_Roots Vmkit_Compression
begin

text \<open>
  \<open>mm/traits.rs\<close> and \<open>mm/scanning.rs\<close>: how the collector visits the references of a value, of
  an object and of a thread. The collector's tracer is a parameter: it maps a reference to the
  object's new address and changes a state \<^typ>\<open>'w\<close> of its own.
\<close>

section \<open>Tracing values\<close>

type_synonym 'w tracer = "'w \<Rightarrow> address \<Rightarrow> address \<times> 'w"

text \<open>An implementation of \<open>Trace\<close>: it may replace the value it is given.\<close>

type_synonym ('w, 'a) trace_fun = "'w tracer \<Rightarrow> 'w \<Rightarrow> 'a \<Rightarrow> 'a \<times> 'w"

definition object_trace :: "('w, vmkit_object) trace_fun" where
  "object_trace tracer w self =
     (if obj_is_null self then (self, w)
      else (let (new_object, w) = tracer w self
            in (if new_object \<noteq> self then new_object else self, w)))"

definition prim_trace :: "('w, 'a) trace_fun" where
  "prim_trace tracer w self = (self, w)"

fun option_trace :: "('w, 'a) trace_fun \<Rightarrow> ('w, 'a option) trace_fun" where
  "option_trace f tracer w None = (None, w)"
| "option_trace f tracer w (Some v) = (let (v, w) = f tracer w v in (Some v, w))"

fun list_trace :: "('w, 'a) trace_fun \<Rightarrow> ('w, 'a list) trace_fun" where
  "list_trace f tracer w [] = ([], w)"
| "list_trace f tracer w (v # vs) =
     (let (v, w) = f tracer w v; (vs, w) = list_trace f tracer w vs in (v # vs, w))"

definition narrow_trace :: "compressed_ops \<Rightarrow> ('w, narrow) trace_fun" where
  "narrow_trace c tracer w self =
     (let obj = narrow_to_object c self; (obj, w) = object_trace tracer w obj in (co_encode c obj, w))"

text \<open>
  \<open>FatInternalPointer\<close>: \<open>object()\<close> returns a copy of the reference, and it is this copy that is
  traced.
\<close>

definition fat_trace :: "('w, fat_internal_pointer) trace_fun" where
  "fat_trace tracer w self =
     (let temporary = fip_object self; (temporary, w) = object_trace tracer w temporary in (self, w))"

text \<open>\<open>InternalPointer\<close>: the constant \<open>NEED_VO_BITS_DURING_TRACING\<close> is \<open>CONSERVATIVE_TRACING\<close>.\<close>

definition internal_trace ::
  "vm_config \<Rightarrow> heap_view \<Rightarrow> 'w tracer \<Rightarrow> 'w \<Rightarrow> address \<Rightarrow> (address \<times> 'w) option" where
  "internal_trace C H tracer w self =
     (if \<not> COOPERATIVE C \<or> \<not> CONSERVATIVE_TRACING C then None
      else case find_object_from_internal_pointer H self 128 of
             None \<Rightarrow> Some (self, w)
           | Some start \<Rightarrow> do {
               let offset = self - start;
               let (new_object, w) = tracer w start;
               p \<leftarrow> internal_pointer_new C (new_object + offset);
               Some (p, w)
             })"

text \<open>The constants \<open>SupportsEnqueuing::VALUE\<close>, by the shape of the type.\<close>

datatype value_shape =
    PrimShape | ObjectShape | InternalShape | FatShape
  | VecShape value_shape | OptionShape value_shape | ResultShape value_shape value_shape

fun supports_enqueuing :: "value_shape \<Rightarrow> bool" where
  "supports_enqueuing PrimShape = True"
| "supports_enqueuing ObjectShape = True"
| "supports_enqueuing InternalShape = False"
| "supports_enqueuing FatShape = True"
| "supports_enqueuing (VecShape t) = supports_enqueuing t"
| "supports_enqueuing (OptionShape t) = supports_enqueuing t"
| "supports_enqueuing (ResultShape t u) = (supports_enqueuing t \<and> supports_enqueuing u)"

section \<open>Scanning objects\<close>

record 'w scan_state =
  sc_mem :: memory
  sc_tracer :: 'w

text \<open>\<open>scan_object\<close> gives every slot to the visitor.\<close>

definition scan_object ::
  "('m, 'w scan_state) vm \<Rightarrow> ('w scan_state \<Rightarrow> address \<Rightarrow> 'w scan_state) \<Rightarrow> 'w scan_state \<Rightarrow> vmkit_object
     \<Rightarrow> 'w scan_state option" where
  "scan_object V visit S obj = do {
     md \<leftarrow> obj_metadata V (sc_mem S) obj;
     S \<leftarrow> (if is_object (meta V) md then map_option (visit S) (to_slot (meta V) md) else Some S);
     (case trace (gc_metadata_of (meta V) md) of
        ScanSlots fn \<Rightarrow> Some (fn obj visit S)
      | TraceNone \<Rightarrow> Some S
      | TraceObject _ \<Rightarrow> None)
   }"

text \<open>\<open>TraceSlotVisitor\<close>: the slot visitor that traces what the slot holds and stores it back.\<close>

definition trace_slot_visitor ::
  "('w scan_state \<Rightarrow> address \<Rightarrow> address \<times> 'w scan_state) \<Rightarrow> 'w scan_state \<Rightarrow> address \<Rightarrow> 'w scan_state" where
  "trace_slot_visitor tracer S slot =
     (case obj_try_into (load64 (sc_mem S) slot) of
        Some obj \<Rightarrow> (let (obj, S) = tracer S obj in S \<lparr> sc_mem := store64 (sc_mem S) slot obj \<rparr>)
      | None \<Rightarrow> S)"

definition scan_object_and_trace_edges ::
  "('m, 'w scan_state) vm \<Rightarrow> ('w scan_state \<Rightarrow> address \<Rightarrow> address \<times> 'w scan_state) \<Rightarrow> 'w scan_state
     \<Rightarrow> vmkit_object \<Rightarrow> 'w scan_state option" where
  "scan_object_and_trace_edges V tracer S obj = do {
     md \<leftarrow> obj_metadata V (sc_mem S) obj;
     S \<leftarrow> (case (if is_object (meta V) md then to_object_reference (meta V) md else None) of
         None \<Rightarrow> Some S
       | Some meta_object \<Rightarrow> do {
           let (new_object, S) = tracer S meta_object;
           if new_object \<noteq> meta_object
           then do {
             md' \<leftarrow> from_object_reference (meta V) new_object;
             h \<leftarrow> obj_header (sc_mem S) obj;
             Some (S \<lparr> sc_mem := obj_store_header (sc_mem S) obj (header_set_metadata V h md') \<rparr>)
           }
           else Some S
         });
     (case trace (gc_metadata_of (meta V) md) of
        ScanSlots fn \<Rightarrow> Some (fn obj (trace_slot_visitor tracer) S)
      | TraceNone \<Rightarrow> Some S
      | TraceObject fn \<Rightarrow> Some (fn obj tracer S))
   }"

definition support_slot_enqueuing :: "('m, 'w scan_state) vm \<Rightarrow> 'w scan_state \<Rightarrow> vmkit_object \<Rightarrow> bool option" where
  "support_slot_enqueuing V S obj =
     (if ALWAYS_TRACE (conf V) then Some False
      else do {
        md \<leftarrow> obj_metadata V (sc_mem S) obj;
        Some ((case trace (gc_metadata_of (meta V) md) of ScanSlots _ \<Rightarrow> True | _ \<Rightarrow> False) \<and>
          (\<not> is_object (meta V) md \<or> to_slot (meta V) md \<noteq> None))
      })"

section \<open>Scanning threads\<close>

text \<open>
  The conservative part of \<open>scan_roots_in_mutator_thread\<close>: the saved registers, a span of memory,
  and the stack between its origin and the saved stack pointer.
\<close>

definition mutator_conservative_roots ::
  "ext_lib \<Rightarrow> heap_view \<Rightarrow> memory \<Rightarrow> address \<Rightarrow> usize \<Rightarrow> stack_bounds \<Rightarrow> address \<Rightarrow> conservative_roots option" where
  "mutator_conservative_roots L H m registers_at registers_size bounds stack_pointer = do {
     let croots = roots_new 128;
     croots \<leftarrow> add_span L H m croots registers_at (registers_at + registers_size);
     add_span L H m croots (origin bounds) stack_pointer
   }"

text \<open>
  What the embedder's thread context and mmtk's factory of root packets do is a parameter: the
  context adds the roots it knows to the work \<^typ>\<open>'f\<close> of the collector, and it may add conservative
  roots of its own. The factory is given a set, since the order in which a hash set is turned
  into a vector is not specified.
\<close>

record 'f thread_context =
  ctx_scan_roots :: "'f \<Rightarrow> 'f"
  ctx_scan_conservative_roots :: "conservative_roots \<Rightarrow> conservative_roots"

record 'f roots_work_factory =
  create_process_pinning_roots_work :: "vmkit_object set \<Rightarrow> 'f \<Rightarrow> 'f"

definition add_to_factory :: "'f roots_work_factory \<Rightarrow> conservative_roots \<Rightarrow> 'f \<Rightarrow> 'f" where
  "add_to_factory F croots w = create_process_pinning_roots_work F (roots croots) w"

definition scan_roots_in_mutator_thread ::
  "bool \<Rightarrow> 'f thread_context \<Rightarrow> 'f roots_work_factory \<Rightarrow> ext_lib \<Rightarrow> heap_view \<Rightarrow> memory \<Rightarrow> address \<Rightarrow> usize \<Rightarrow>
     stack_bounds \<Rightarrow> address \<Rightarrow> 'f \<Rightarrow> 'f option" where
  "scan_roots_in_mutator_thread full_precise X F L H m registers_at registers_size bounds stack_pointer w = (
     let w = ctx_scan_roots X w
     in if full_precise then Some w
        else do {
          croots \<leftarrow> mutator_conservative_roots L H m registers_at registers_size bounds stack_pointer;
          let croots = ctx_scan_conservative_roots X croots;
          Some (add_to_factory F croots w)
        })"

section \<open>Properties\<close>

lemma list_trace_append:
  "list_trace f tr w (xs @ ys) =
     (let (xs, w) = list_trace f tr w xs; (ys, w) = list_trace f tr w ys in (xs @ ys, w))"
  by (induction xs arbitrary: w) (simp_all add: case_prod_beta Let_def)

text \<open>
  Tracing a vector of references visits each of them once, in order, skips the null ones
  and replaces every other one by the address the collector gives for it.
\<close>

theorem list_trace_forwards_all:
  "list_trace object_trace (\<lambda>log o'. (fwd o', log @ [o'])) log objs =
     (map (\<lambda>o'. if o' = NULL then NULL else fwd o') objs, log @ filter (\<lambda>o'. o' \<noteq> NULL) objs)"
proof (induction objs arbitrary: log)
  case (Cons o' objs)
  then show ?case by (simp add: object_trace_def obj_is_null_def Let_def)
qed simp

text \<open>
  A fat internal pointer does not follow its object. When the collector moves the object,
  tracing the pointer leaves it at the old address, while tracing the plain reference to the
  same object updates it.
\<close>

theorem fat_pointer_keeps_stale_object:
  assumes "tracer w (fip_object p) = (new_object, w')" and "fip_object p \<noteq> NULL"
    and "new_object \<noteq> fip_object p"
  shows "fst (fat_trace tracer w p) = p \<and> fst (object_trace tracer w (fip_object p)) = new_object \<and>
    fat_deref (fst (fat_trace tracer w p)) \<noteq> new_object + fip_offset p"
  using assms by (simp add: fat_trace_def object_trace_def obj_is_null_def fat_deref_def)

theorem fat_pointer_keeps_stale_object_witness:
  "fat_deref (fst (fat_trace (\<lambda>w o'. (o' + 4096, w)) () (fat_new 8192 16))) = 8208 \<and>
   fst (object_trace (\<lambda>w o'. (o' + 4096, w)) () 8192) = 12288"
  using fat_pointer_keeps_stale_object [of "\<lambda>w o'. (o' + 4096, w)" "()" "fat_new 8192 16" 12288 "()"]
  by (simp add: fat_new_def fat_deref_def)

text \<open>
  The answer of \<open>support_slot_enqueuing\<close> can be relied on: for an object for which it is
  true, \<open>scan_object\<close> does not panic, whatever the visitor does.
\<close>

theorem enqueuing_support_is_sound:
  assumes "support_slot_enqueuing V S obj = Some True"
  shows "scan_object V visit S obj \<noteq> None \<and> \<not> ALWAYS_TRACE (conf V)"
  using assms
  by (auto simp: support_slot_enqueuing_def scan_object_def split: bind_splits if_splits trace_callback.splits)

text \<open>A runtime for the witnesses, with the metadata of each object a reference to another object.\<close>

definition class_vm :: "(usize, unit scan_state) vm" where
  "class_vm = \<lparr> conf = default_vm, lib = std_lib, meta = \<lparr>
     to_bitfield = (\<lambda>w. w), from_bitfield = (\<lambda>w. w), METADATA_BIT_SIZE = 62,
     gc_metadata_of = (\<lambda>w. \<lparr> trace = ScanSlots (\<lambda>obj visit S. visit S obj), instance_size = 8,
        compute_size = None, md_alignment = 8, compute_alignment = None \<rparr>),
     is_object = (\<lambda>w. w \<noteq> 0), to_object_reference = (\<lambda>w. if w = 0 then None else Some w),
     from_object_reference = Some, to_slot = Some \<rparr> \<rparr>"

definition class_state :: "unit scan_state" where
  "class_state = \<lparr> sc_mem = store64 (\<lambda>_. 0) 8184 16384, sc_tracer = () \<rparr>"

lemma class_simps [simp]:
  "conf class_vm = default_vm" "lib class_vm = std_lib" "hashing_vm class_vm"
  "obj_metadata class_vm (sc_mem class_state) 8192 = Some 16384"
proof -
  show "conf class_vm = default_vm" "lib class_vm = std_lib" by (simp_all add: class_vm_def)
  show h: "hashing_vm class_vm" by (simp add: hashing_vm_def class_vm_def lib_ok_std_lib)
  have "obj_header (sc_mem class_state) 8192 = Some 16384"
    by (simp add: class_state_def obj_header_Some_iff)
  then show "obj_metadata class_vm (sc_mem class_state) 8192 = Some 16384"
    using h by (simp add: obj_metadata_def header_metadata_def) (simp add: class_vm_def std_lib_def)
qed

theorem enqueuing_support_is_sound_witness:
  "scan_object class_vm (\<lambda>S slot. S) class_state 8192 \<noteq> None"
proof -
  have "support_slot_enqueuing class_vm class_state 8192 = Some True"
    by (simp add: support_slot_enqueuing_def) (simp add: default_vm_def class_vm_def)
  then show ?thesis using enqueuing_support_is_sound by blast
qed

text \<open>
  Metadata that is an object itself is kept up to date. When the collector moves the object
  that describes a scanned object, the scanned object's header gets the new reference, and the
  hash state next to it is left alone.
\<close>

theorem moved_metadata_is_updated:
  assumes "hashing_vm V" and "obj_metadata V (sc_mem S) obj = Some md" and "is_object (meta V) md"
    and "to_object_reference (meta V) md = Some m0" and "tracer S m0 = (m1, S1)" and "m1 \<noteq> m0"
    and "obj_header (sc_mem S1) obj = obj_header (sc_mem S) obj"
    and "from_object_reference (meta V) m1 = Some md'" and "storable V md'"
    and "trace (gc_metadata_of (meta V) md) = TraceNone"
  shows "\<exists>S2. scan_object_and_trace_edges V tracer S obj = Some S2 \<and>
    obj_metadata V (sc_mem S2) obj = Some md' \<and>
    obj_header (sc_mem S2) obj \<bind> header_hash_state V = obj_header (sc_mem S) obj \<bind> header_hash_state V"
proof -
  obtain h where h: "obj_header (sc_mem S) obj = Some h"
    using assms(2) by (auto simp: obj_metadata_def)
  then have "obj \<noteq> 0" by (simp add: obj_header_Some_iff)
  then show ?thesis
    using assms h
    by (simp add: scan_object_and_trace_edges_def obj_metadata_def vm_header.set_get_metadata
        vm_header.set_metadata_hash_state)
qed

definition class_none_vm :: "(usize, unit scan_state) vm" where
  "class_none_vm = class_vm \<lparr> meta := (meta class_vm) \<lparr> gc_metadata_of := (\<lambda>w. \<lparr> trace = TraceNone,
     instance_size = 8, compute_size = None, md_alignment = 8, compute_alignment = None \<rparr>) \<rparr> \<rparr>"

theorem moved_metadata_is_updated_witness:
  "\<exists>S2. scan_object_and_trace_edges class_none_vm (\<lambda>S o'. (o' + 4096, S)) class_state 8192 = Some S2 \<and>
     obj_metadata class_none_vm (sc_mem S2) 8192 = Some 20480"
proof -
  have h: "hashing_vm class_none_vm"
    by (simp add: hashing_vm_def class_none_vm_def lib_ok_std_lib)
  have m: "obj_metadata class_none_vm (sc_mem class_state) 8192 = Some 16384"
    using class_simps(4) by (simp add: obj_metadata_def header_metadata_def class_none_vm_def)
  have s: "storable class_none_vm 20480"
    using h by (simp add: storable_def) (simp add: class_none_vm_def class_vm_def)
  have f: "is_object (meta class_none_vm) 16384" "to_object_reference (meta class_none_vm) 16384 = Some 16384"
    "from_object_reference (meta class_none_vm) 20480 = Some 20480"
    "trace (gc_metadata_of (meta class_none_vm) 16384) = TraceNone"
    by (simp_all add: class_none_vm_def class_vm_def)
  show ?thesis
    using moved_metadata_is_updated [OF h m f(1,2) _ _ _ f(3) s f(4),
        of "\<lambda>S o'. (o' + 4096, S)" class_state] by auto
qed

text \<open>
  No reference on a stack is missed. If a word-aligned stack slot between the saved stack
  pointer and the origin of the stack holds a pointer into an object, the conservative scan of
  the thread succeeds and its roots contain the object.
\<close>

theorem stack_reference_is_found:
  assumes "lib_ok L" and "regs \<noteq> 0" and "regs + n \<noteq> 0" and "sp \<noteq> 0" and "sp \<le> origin b"
    and "unat (origin b) + 8 \<le> 2 ^ 64 - 8" and "unat regs + unat n + 8 \<le> 2 ^ 64 - 8"
    and "aligned 3 a" and "sp \<le> a" and "a < origin b"
    and "starting_heap_address H \<le> load64 m a" and "load64 m a \<le> last_heap_address H"
    and "find_object_from_internal_pointer H (load64 m a) 128 = Some obj"
  shows "\<exists>R. mutator_conservative_roots L H m regs n b sp = Some R \<and> obj \<in> roots R"
proof -
  have rn: "unat (regs + n) = unat regs + unat n"
    using assms(7) by (intro unat_add_no_overflow) linarith
  have "unat (max regs (regs + n)) + 8 \<le> 2 ^ 64 - 8"
    using assms(7) rn by (auto simp: max_def)
  from span_scanned [OF assms(1,2,3) refl refl this, of H m "roots_new 128"]
  obtain R1 where R1: "add_span L H m (roots_new 128) regs (regs + n) = Some R1"
    and l1: "internal_pointer_limit R1 = 128" by (auto simp: roots_new_def)
  have o: "origin b \<noteq> 0" "min (origin b) sp = sp" "max (origin b) sp = origin b"
    using assms(4,5) by (auto simp: min_def max_def)
  obtain R where R: "add_span L H m R1 (origin b) sp = Some R"
      "roots R = roots R1 \<union> pointed H m 128 {a. aligned 3 a \<and> unat (raw_align_down L sp 8) \<le> unat a \<and>
        unat a < unat (raw_align_up L (origin b) 8)}"
    using span_scanned [OF assms(1) o(1) assms(4) o(2,3) [symmetric] assms(6), of H m R1] l1 by auto
  have "unat (raw_align_down L sp 8) \<le> unat a" and "unat a < unat (raw_align_up L (origin b) 8)"
    using raw_align_down_bounds(2) [OF assms(1), of 3 sp] raw_align_up_bounds(2) [OF assms(1), of 3 "origin b"]
      assms(6,9,10) by (simp_all add: word_le_nat_alt word_less_nat_alt)
  then have "obj \<in> roots R"
    unfolding R(2) pointed_def using assms(8,11-13) by blast
  then show ?thesis using R1 R(1) by (simp add: mutator_conservative_roots_def)
qed

theorem stack_reference_is_found_witness:
  "\<exists>R. mutator_conservative_roots std_lib
      \<lparr> starting_heap_address = 65536, last_heap_address = 131072,
        find_object_from_internal_pointer = (\<lambda>p lim. Some (p AND NOT 0xff)) \<rparr>
      (store64 (\<lambda>_. 0) 8192 70000) 4096 64 \<lparr> origin = 12288, bound = 6144 \<rparr> 8000 = Some R \<and> 69888 \<in> roots R"
  by (rule stack_reference_is_found [OF lib_ok_std_lib, of _ _ _ _ 8192]) (simp_all add: aligned_def)

end
