(* ===== verification/Vmkit_Bdwgc.thy ===== *)
theory Vmkit_Bdwgc
  imports Vmkit_Roots
begin

text \<open>
  \<open>bdwgc_shim.rs\<close>, first part: the object metadata of the shim for the Boehm collector, the
  conservative tracing of its objects and the type descriptors. An object's metadata is one
  word with its size in words, its kind and whether it is atomic; the words of a composite
  object are treated as possible pointers, an object of a kind with a descriptor is traced as the
  descriptor says. The collector's tracer works on a state \<^typ>\<open>'s\<close>; the plan used with the
  shim does not move objects, so tracing leaves the memory as it is. The outcome \<^const>\<open>None\<close> of the
  tracing functions is a panic or a loop that does not end.
\<close>

section \<open>Metadata\<close>

definition GC_MAX_MARK_PROCS :: nat where
  "GC_MAX_MARK_PROCS = 64"

definition MAXOBJKINDS :: nat where
  "MAXOBJKINDS = 24"

datatype object_kind = Composite | WithDescr u8

fun object_kind_to_bitfield :: "object_kind \<Rightarrow> usize" where
  "object_kind_to_bitfield Composite = 0"
| "object_kind_to_bitfield (WithDescr k) = 2 + ucast k"

definition object_kind_from_bitfield :: "usize \<Rightarrow> object_kind" where
  "object_kind_from_bitfield v = (if v = 0 then Composite else WithDescr (ucast (v - 2)))"

record bdwgc_metadata =
  meta_word :: usize

text \<open>The bit fields: the size in words (0..36), the kind (37..42), the atomic bit (43).\<close>

definition encode_size :: "ext_lib \<Rightarrow> usize \<Rightarrow> usize" where
  "encode_size L n = bf_encode L 0 37 n"

definition encode_kind :: "ext_lib \<Rightarrow> object_kind \<Rightarrow> usize" where
  "encode_kind L k = bf_encode L 37 6 (object_kind_to_bitfield k)"

definition encode_atomic :: "ext_lib \<Rightarrow> bool \<Rightarrow> usize" where
  "encode_atomic L b = bf_encode L 43 1 (if b then 1 else 0)"

definition md_size :: "ext_lib \<Rightarrow> bdwgc_metadata \<Rightarrow> usize" where
  "md_size L md = bf_decode L 0 37 (meta_word md) * 8"

definition md_kind :: "ext_lib \<Rightarrow> bdwgc_metadata \<Rightarrow> object_kind" where
  "md_kind L md = object_kind_from_bitfield (bf_decode L 37 6 (meta_word md))"

definition md_is_atomic :: "ext_lib \<Rightarrow> bdwgc_metadata \<Rightarrow> bool" where
  "md_is_atomic L md \<longleftrightarrow> bf_decode L 43 1 (meta_word md) \<noteq> 0"

text \<open>The features the shim is built with: cargo's default ones and \<open>uncooperative\<close>.\<close>

definition bdwgc_config :: vm_config where
  "bdwgc_config = default_vm \<lparr> UNCOOPERATIVE := True \<rparr>"

text \<open>
  The virtual machine \<open>BDWGC\<close>. Its trace callback uses sizes and addresses that depend on the
  metadata only, so the knot is tied in two steps: \<^term>\<open>bdwgc_with T L\<close> has the callback
  \<^term>\<open>T\<close>, and the callback is a function over \<^term>\<open>bdwgc_with TraceNone L\<close>.
  \<open>to_object_reference\<close> and \<open>from_object_reference\<close> are \<open>todo!()\<close> and never called, since
  \<open>is_object\<close> answers false.
\<close>

text \<open>\<open>object.header::<BDWGC>().metadata()\<close>: the header must not be that of a null reference.\<close>

definition bdwgc_metadata_of :: "ext_lib \<Rightarrow> memory \<Rightarrow> vmkit_object \<Rightarrow> bdwgc_metadata option" where
  "bdwgc_metadata_of L m obj =
     map_option (\<lambda>h. \<lparr> meta_word = bf_decode L 0 (METADATA_BIT_LIMIT bdwgc_config) h \<rparr>) (obj_header m obj)"

definition conservative_size :: "ext_lib \<Rightarrow> memory \<Rightarrow> vmkit_object \<Rightarrow> usize option" where
  "conservative_size L m obj = map_option (md_size L) (bdwgc_metadata_of L m obj)"

definition CONSERVATIVE_METADATA :: "ext_lib \<Rightarrow> 's trace_callback \<Rightarrow> 's gc_metadata" where
  "CONSERVATIVE_METADATA L T = \<lparr> trace = T, instance_size = 0,
     compute_size = Some (conservative_size L),
     md_alignment = 8, compute_alignment = None \<rparr>"

definition bdwgc_with :: "'s trace_callback \<Rightarrow> ext_lib \<Rightarrow> (bdwgc_metadata, 's) vm" where
  "bdwgc_with T L = \<lparr> conf = bdwgc_config, lib = L, meta = \<lparr>
     to_bitfield = meta_word, from_bitfield = (\<lambda>w. \<lparr> meta_word = w \<rparr>), METADATA_BIT_SIZE = 58,
     gc_metadata_of = (\<lambda>_. CONSERVATIVE_METADATA L T),
     is_object = (\<lambda>_. False), to_object_reference = (\<lambda>_. None),
     from_object_reference = (\<lambda>_. None), to_slot = (\<lambda>_. None) \<rparr> \<rparr>"

abbreviation bdwgc_layout :: "ext_lib \<Rightarrow> (bdwgc_metadata, unit) vm" where
  "bdwgc_layout \<equiv> bdwgc_with TraceNone"

section \<open>Descriptors\<close>

definition GC_DS_TAG_BITS :: nat where "GC_DS_TAG_BITS = 2"
definition GC_LOG_MAX_MARK_PROCS :: nat where "GC_LOG_MAX_MARK_PROCS = 6"
definition GC_DS_TAGS :: usize where "GC_DS_TAGS = 3"
definition GC_DS_LENGTH :: usize where "GC_DS_LENGTH = 0"
definition GC_DS_BITMAP :: usize where "GC_DS_BITMAP = 1"
definition GC_DS_PROC :: usize where "GC_DS_PROC = 2"
definition GC_DS_PER_OBJECT :: usize where "GC_DS_PER_OBJECT = 3"
definition GC_INDIR_PER_OBJ_BIAS :: usize where "GC_INDIR_PER_OBJ_BIAS = 0x10"
definition SIGNB :: usize where "SIGNB = push_bit 63 1"

lemmas ds_defs = GC_DS_TAG_BITS_def GC_LOG_MAX_MARK_PROCS_def GC_DS_TAGS_def GC_DS_LENGTH_def
  GC_DS_BITMAP_def GC_DS_PROC_def GC_DS_PER_OBJECT_def GC_INDIR_PER_OBJ_BIAS_def

type_synonym 's object_tracer = "'s \<Rightarrow> address \<Rightarrow> address \<times> 's"

text \<open>
  A mark procedure of the runtime: it gets the object and the environment, and marks through
  the tracer behind the mark stack it is given.
\<close>

type_synonym 's mark_proc = "address \<Rightarrow> 's object_tracer \<Rightarrow> usize \<Rightarrow> 's \<Rightarrow> 's"

record obj_kind =
  ok_freelist :: address
  ok_reclaim_list :: address
  ok_descriptor :: usize
  ok_relocate_descr :: bool
  ok_init :: bool

definition descr_proc :: "'s mark_proc option list \<Rightarrow> usize \<Rightarrow> 's mark_proc option" where
  "descr_proc procs descr = procs ! unat (drop_bit GC_DS_TAG_BITS descr AND word_of_nat (GC_MAX_MARK_PROCS - 1))"

definition descr_env :: "usize \<Rightarrow> usize" where
  "descr_env descr = drop_bit (GC_DS_TAG_BITS + GC_LOG_MAX_MARK_PROCS) descr"

section \<open>Tracing\<close>

text \<open>What every loop does with one word: trace the object it points into, if any.\<close>

definition trace_word :: "heap_view \<Rightarrow> 's object_tracer \<Rightarrow> 's \<Rightarrow> address \<Rightarrow> 's" where
  "trace_word H tracer s word =
     (case find_object_from_internal_pointer H word 128 of
        Some object \<Rightarrow> snd (tracer s object)
      | None \<Rightarrow> s)"

partial_function (option) mark_range_conservative ::
  "heap_view \<Rightarrow> memory \<Rightarrow> 's object_tracer \<Rightarrow> 's \<Rightarrow> address \<Rightarrow> address \<Rightarrow> 's option" where
  "mark_range_conservative H m tracer s cursor end =
     (if cursor < end
      then mark_range_conservative H m tracer (trace_word H tracer s (load64 m cursor)) (cursor + 8) end
      else Some s)"

partial_function (option) bitmap_loop ::
  "heap_view \<Rightarrow> memory \<Rightarrow> 's object_tracer \<Rightarrow> 's \<Rightarrow> usize \<Rightarrow> address \<Rightarrow> 's option" where
  "bitmap_loop H m tracer s descr current_p =
     (if descr \<noteq> 0
      then if descr AND SIGNB = 0 then bitmap_loop H m tracer s descr current_p
           else (let q = load64 m current_p;
                     s = (if starting_heap_address H \<le> q \<and> q \<le> last_heap_address H
                          then trace_word H tracer s q else s)
                 in bitmap_loop H m tracer s (push_bit 1 descr) (current_p + 8))
      else Some s)"

text \<open>
  The loop over the descriptor of a kind. A descriptor found in the object or in its type is
  assigned to a variable of the loop body, and the loop starts again with the kind.
\<close>

partial_function (option) descr_trace ::
  "heap_view \<Rightarrow> memory \<Rightarrow> obj_kind option list \<Rightarrow> 's mark_proc option list \<Rightarrow> 's object_tracer
     \<Rightarrow> u8 \<Rightarrow> vmkit_object \<Rightarrow> 's \<Rightarrow> 's option" where
  "descr_trace H m kinds procs tracer k obj s =
     (if length kinds \<le> unat k then None
      else case kinds ! unat k of
        None \<Rightarrow> Some s
      | Some kind \<Rightarrow>
          (let descr = ok_descriptor kind; tag = descr AND GC_DS_TAGS
           in if tag = GC_DS_LENGTH then mark_range_conservative H m tracer s obj (obj + descr)
              else if tag = GC_DS_BITMAP then bitmap_loop H m tracer s (descr AND NOT GC_DS_TAGS) obj
              else if tag = GC_DS_PROC then
                (case descr_proc procs descr of
                   None \<Rightarrow> Some s
                 | Some p \<Rightarrow> Some (p obj tracer (descr_env descr) s))
              else if descr AND SIGNB = 0 then descr_trace H m kinds procs tracer k obj s
              else (let type_descr = load64 m obj
                    in if type_descr = 0 then Some s
                       else (let descr = load64 m (type_descr +
                                   - (descr + (GC_INDIR_PER_OBJ_BIAS - GC_DS_PER_OBJECT)))
                             in if descr = 0 then Some s
                                else descr_trace H m kinds procs tracer k obj s))))"

definition conservative_trace ::
  "ext_lib \<Rightarrow> heap_view \<Rightarrow> memory \<Rightarrow> obj_kind option list \<Rightarrow> 's mark_proc option list
     \<Rightarrow> 's object_tracer \<Rightarrow> vmkit_object \<Rightarrow> 's \<Rightarrow> 's option" where
  "conservative_trace L H m kinds procs tracer obj s = do {
     md \<leftarrow> obj_metadata (bdwgc_layout L) m obj;
     if md_is_atomic L md then Some s
     else do {
       sz \<leftarrow> bytes_used (bdwgc_layout L) m obj;
       (case md_kind L md of
          Composite \<Rightarrow> do {
            cursor \<leftarrow> object_start (bdwgc_layout L) m obj;
            mark_range_conservative H m tracer s cursor (cursor + sz)
          }
        | WithDescr k \<Rightarrow> descr_trace H m kinds procs tracer k obj s)
     }
   }"

definition bdwgc_vm ::
  "ext_lib \<Rightarrow> heap_view \<Rightarrow> memory \<Rightarrow> obj_kind option list \<Rightarrow> ('s option) mark_proc option list
     \<Rightarrow> (bdwgc_metadata, 's option) vm" where
  "bdwgc_vm L H m kinds procs = bdwgc_with
     (TraceObject (\<lambda>obj tracer s. Option.bind (conservative_trace L H m kinds procs tracer obj s) (\<lambda>s. s))) L"

section \<open>Building descriptors\<close>

text \<open>
  The words of a bitmap are read from memory. The word index is computed with the size of a
  word in bytes, as the source does.
\<close>

definition gc_get_bit :: "memory \<Rightarrow> address \<Rightarrow> nat \<Rightarrow> bool" where
  "gc_get_bit m bm i \<longleftrightarrow>
     drop_bit (i mod 8) (load64 m (bm + 8 * word_of_nat (i div 8))) AND 1 \<noteq> (0 :: usize)"

definition BITMAP_BITS :: nat where
  "BITMAP_BITS = 64 - GC_DS_TAG_BITS"

text \<open>The loop down from bit \<^term>\<open>n - 1\<close> to the last bit that is set.\<close>

fun last_set_bit :: "memory \<Rightarrow> address \<Rightarrow> nat \<Rightarrow> nat option" where
  "last_set_bit m bm 0 = None"
| "last_set_bit m bm (Suc i) = (if gc_get_bit m bm i then Some i else last_set_bit m bm i)"

text \<open>The loop up from bit \<^term>\<open>i\<close> while the bits below \<^term>\<open>l\<close> are set.\<close>

function all_set_up_to :: "memory \<Rightarrow> address \<Rightarrow> nat \<Rightarrow> nat \<Rightarrow> nat" where
  "all_set_up_to m bm i l = (if i < l \<and> gc_get_bit m bm i then all_set_up_to m bm (i + 1) l else i)"
  by pat_completeness auto
termination by (relation "measure (\<lambda>(m, bm, i, l). l - i)") auto

declare all_set_up_to.simps [simp del]

text \<open>The loop that shifts the bits below bit \<^term>\<open>n\<close> into a word, from the top.\<close>

fun shift_bits :: "memory \<Rightarrow> address \<Rightarrow> nat \<Rightarrow> usize \<Rightarrow> usize" where
  "shift_bits m bm 0 d = d"
| "shift_bits m bm (Suc i) d =
     (let d = drop_bit 1 d in shift_bits m bm i (if gc_get_bit m bm i then d OR SIGNB else d))"

definition GC_make_descriptor :: "memory \<Rightarrow> address \<Rightarrow> usize \<Rightarrow> usize" where
  "GC_make_descriptor m bm len =
     (if sint (len - 1) < 0 then 0
      else case last_set_bit m bm (unat (len - 1) + 1) of
        None \<Rightarrow> 0
      | Some l \<Rightarrow>
          if all_set_up_to m bm 0 l = l then (word_of_nat l + 1) OR GC_DS_LENGTH
          else if l < BITMAP_BITS then (let d = shift_bits m bm l SIGNB in 0)
          else (word_of_nat l + 1) OR GC_DS_LENGTH)"

section \<open>Decoding the metadata\<close>

lemma object_kind_roundtrip [simp]: "object_kind_from_bitfield (object_kind_to_bitfield k) = k"
proof (cases k)
  case (WithDescr d)
  have l: "unat d < 2 ^ 8" using unsigned_less [of d] by simp
  then have "unat (ucast d :: usize) = unat d" by (simp add: unsigned_ucast_eq take_bit_nat_eq_self)
  then have d: "unat (ucast d :: usize) < 256" using l by simp
  then have "unat (2 + ucast d :: usize) = 2 + unat (ucast d :: usize)"
    by (subst unat_add_no_overflow) simp_all
  then have "2 + ucast d \<noteq> (0 :: usize)" by (metis add_eq_0_iff_both_eq_0 unat_0 zero_neq_numeral)
  moreover have "ucast (ucast d :: usize) = d" by (rule bit_word_eqI) (simp add: bit_simps)
  ultimately show ?thesis using WithDescr by (simp add: object_kind_from_bitfield_def)
qed (simp add: object_kind_from_bitfield_def)

definition kind_fits :: "object_kind \<Rightarrow> bool" where
  "kind_fits k \<longleftrightarrow> unat (object_kind_to_bitfield k) < 2 ^ 6"

definition make_metadata :: "ext_lib \<Rightarrow> usize \<Rightarrow> object_kind \<Rightarrow> bool \<Rightarrow> bdwgc_metadata" where
  "make_metadata L n k b = \<lparr> meta_word = (encode_size L n OR encode_kind L k) OR encode_atomic L b \<rparr>"

lemma encode_within:
  assumes "lib_ok L" and "sh + sz \<le> n" and "n \<le> 64" and "unat v < 2 ^ sz"
  shows "take_bit n (bf_encode L sh sz v) = bf_encode L sh sz v"
  using assms
  by (auto simp: bf_encode_eq bit_eq_iff bit_simps dest: field_bit_bound)

lemma metadata_fields:
  assumes "lib_ok L" and "unat n < 2 ^ 37" and "kind_fits k"
  shows "md_size L (make_metadata L n k b) = n * 8" and "md_kind L (make_metadata L n k b) = k"
    and "md_is_atomic L (make_metadata L n k b) = b"
    and "unat (meta_word (make_metadata L n k b)) < 2 ^ 44"
proof -
  note d = decode_or [OF assms(1)] decode_encode_same [OF assms(1)] decode_encode_other [OF assms(1)]
  have k: "unat (object_kind_to_bitfield k) < 64" using assms(3) by (simp add: kind_fits_def)
  have b: "unat (if b then 1 else 0 :: usize) < 2" by simp
  show "md_size L (make_metadata L n k b) = n * 8"
    using assms(2) k b by (simp add: md_size_def make_metadata_def encode_size_def encode_kind_def encode_atomic_def d)
  show "md_kind L (make_metadata L n k b) = k"
    using assms(2) k b by (simp add: md_kind_def make_metadata_def encode_size_def encode_kind_def encode_atomic_def d)
  show "md_is_atomic L (make_metadata L n k b) = b"
    using assms(2) k b by (simp add: md_is_atomic_def make_metadata_def encode_size_def encode_kind_def encode_atomic_def d)
  have "take_bit 44 (meta_word (make_metadata L n k b)) = meta_word (make_metadata L n k b)"
    using assms(2) k b
    by (simp add: make_metadata_def encode_size_def encode_kind_def encode_atomic_def take_bit_or encode_within [OF assms(1)])
  then show "unat (meta_word (make_metadata L n k b)) < 2 ^ 44"
    by (metis unat_take_bit mod_less_divisor zero_less_numeral zero_less_power)
qed

lemma bdwgc_config_simps [simp]:
  "ADDRESS_BASED_HASHING bdwgc_config" "METADATA_BIT_LIMIT bdwgc_config = 62" "MIN_ALIGNMENT bdwgc_config = 8"
  by (simp_all add: bdwgc_config_def default_vm_def METADATA_BIT_LIMIT_def)

lemma bdwgc_with_simps [simp]:
  "conf (bdwgc_with T L) = bdwgc_config" "lib (bdwgc_with T L) = L"
  "to_bitfield (meta (bdwgc_with T L)) = meta_word" "from_bitfield (meta (bdwgc_with T L)) = (\<lambda>w. \<lparr> meta_word = w \<rparr>)"
  "gc_metadata_of (meta (bdwgc_with T L)) md = CONSERVATIVE_METADATA L T"
  "is_object (meta (bdwgc_with T L)) md = False"
  by (simp_all add: bdwgc_with_def)

lemma obj_metadata_bdwgc [simp]: "obj_metadata (bdwgc_with T L) m obj = bdwgc_metadata_of L m obj"
  by (cases "obj_header m obj") (simp_all add: obj_metadata_def bdwgc_metadata_of_def header_metadata_def)

lemma hashing_bdwgc: "lib_ok L \<Longrightarrow> hashing_vm (bdwgc_with T L)"
  by (simp add: hashing_vm_def)

lemma storable_metadata:
  assumes "lib_ok L" and "unat n < 2 ^ 37" and "kind_fits k"
  shows "storable (bdwgc_with T L) (make_metadata L n k b)"
  using metadata_fields(4) [OF assms, of b] by (simp add: storable_def)

text \<open>The hash state an object's header is in, and the words of the object with its header.\<close>

definition object_hash_state :: "ext_lib \<Rightarrow> memory \<Rightarrow> vmkit_object \<Rightarrow> hash_state option" where
  "object_hash_state L m obj = obj_header m obj \<bind> header_hash_state (bdwgc_layout L)"

lemma layout_eq:
  "hashcode_overhead (bdwgc_with T L) b m obj = hashcode_overhead (bdwgc_layout L) b m obj"
  "bytes_used (bdwgc_with T L) m obj = bytes_used (bdwgc_layout L) m obj"
  "object_start (bdwgc_with T L) m obj = object_start (bdwgc_layout L) m obj"
  by (simp_all add: hashcode_overhead_def bytes_used_def object_start_def payload_size_def header_hash_state_def
      CONSERVATIVE_METADATA_def Let_def)

lemma align_up_id:
  assumes "lib_ok L" and "aligned 3 v" and "unat v + 8 < 2 ^ 64"
  shows "raw_align_up L v 8 = v"
proof -
  have b: "aligned 3 (raw_align_up L v 8)" "unat v \<le> unat (raw_align_up L v 8)" "unat (raw_align_up L v 8) < unat v + 8"
    using raw_align_up_bounds [OF assms(1), of 3 v] assms(3) by simp_all
  obtain i j where "unat v = 8 * i" "unat (raw_align_up L v 8) = 8 * j"
    using b(1) assms(2) by (auto simp: aligned_iff_dvd elim!: dvdE)
  then have "unat (raw_align_up L v 8) = unat v" using b(2,3) by simp
  then show ?thesis by (simp only: word_unat_eq_iff)
qed

definition hash_word :: "hash_state \<Rightarrow> usize" where
  "hash_word st = (if st = HashedAndMoved then 8 else 0)"

lemma overhead_eq:
  "object_hash_state L m obj = Some st \<Longrightarrow> hashcode_overhead (bdwgc_layout L) False m obj = Some (hash_word st)"
  by (auto simp: object_hash_state_def hashcode_overhead_def hash_word_def split: Option.bind_splits)

lemma object_layout:
  assumes "lib_ok L" and "bdwgc_metadata_of L m obj = Some md" and "object_hash_state L m obj = Some st"
  shows "object_start (bdwgc_layout L) m obj = Some (obj - 8 - hash_word st)"
    and "bytes_used (bdwgc_layout L) m obj = Some (hash_word st + md_size L md + 8)"
    and "unat (md_size L md) = 8 * unat (bf_decode L 0 37 (meta_word md))"
    and "unat (hash_word st + md_size L md + 8) = 8 * (unat (bf_decode L 0 37 (meta_word md)) + 1 + unat (hash_word st) div 8)"
proof -
  let ?n = "bf_decode L 0 37 (meta_word md)"
  have n: "unat ?n < 2 ^ 37" using decode_bound [OF assms(1), of 0 37] by simp
  then have "unat (?n * 8) = unat ?n * 8" by (subst unat_mult_lem [THEN iffD1]) simp_all
  then show u: "unat (md_size L md) = 8 * unat ?n" by (simp add: md_size_def)
  have "unat (hash_word st + md_size L md) = unat (hash_word st) + unat (md_size L md)"
    using u n by (intro unat_add_no_overflow) (simp add: hash_word_def)
  then have "unat (hash_word st + md_size L md + 8) = unat (hash_word st) + unat (md_size L md) + 8"
    using u n by (subst unat_add_no_overflow) (simp_all add: hash_word_def)
  then show t: "unat (hash_word st + md_size L md + 8) = 8 * (unat ?n + 1 + unat (hash_word st) div 8)"
    using u by (simp add: hash_word_def)
  have "raw_align_up L (hash_word st + md_size L md + 8) 8 = hash_word st + md_size L md + 8"
    using assms(1) by (rule align_up_id) (use t n in \<open>auto simp: aligned_iff_dvd hash_word_def\<close>)
  then show "bytes_used (bdwgc_layout L) m obj = Some (hash_word st + md_size L md + 8)"
    using assms(2) overhead_eq [OF assms(3)]
    by (simp add: bytes_used_def payload_size_def CONSERVATIVE_METADATA_def conservative_size_def)
  show "object_start (bdwgc_layout L) m obj = Some (obj - 8 - hash_word st)"
    using overhead_eq [OF assms(3)] by (simp add: object_start_def OBJECT_REF_OFFSET_def)
qed

section \<open>Ranges\<close>

text \<open>The first \<^term>\<open>n\<close> words from an address, in order, and the trace of all of them.\<close>

definition range_words :: "address \<Rightarrow> nat \<Rightarrow> address list" where
  "range_words a n = map (\<lambda>i. a + 8 * word_of_nat i) [0..<n]"

definition trace_words :: "heap_view \<Rightarrow> memory \<Rightarrow> 's object_tracer \<Rightarrow> address list \<Rightarrow> 's \<Rightarrow> 's" where
  "trace_words H m tracer as s = fold (\<lambda>a s. trace_word H tracer s (load64 m a)) as s"

lemma range_words_0 [simp]: "range_words a 0 = []"
  by (simp add: range_words_def)

lemma range_words_Suc: "range_words a (Suc n) = a # range_words (a + 8) n"
proof -
  have "[0..<Suc n] = 0 # map Suc [0..<n]" by (simp add: upt_conv_Cons map_Suc_upt del: upt_Suc)
  then show ?thesis by (simp add: range_words_def algebra_simps del: upt_Suc)
qed

lemma mark_range_words:
  assumes "unat end + 7 < 2 ^ 64" and "n = (unat end - unat start + 7) div 8"
  shows "mark_range_conservative H m tracer s start end = Some (trace_words H m tracer (range_words start n) s)"
  using assms(2)
proof (induction n arbitrary: start s)
  case 0
  then have "\<not> start < end" by (simp add: word_less_nat_alt)
  then show ?case by (subst mark_range_conservative.simps) (simp add: trace_words_def)
next
  case (Suc n)
  then have l: "unat start < unat end" by (cases "unat end - unat start") simp_all
  then have "unat (start + 8) = unat start + 8" using assms(1) by (subst unat_add_no_overflow) simp_all
  then have "n = (unat end - unat (start + 8) + 7) div 8" using Suc.prems by simp
  from Suc.IH [OF this] show ?case
    using l by (simp add: mark_range_conservative.simps [of H m tracer s start] word_less_nat_alt
        trace_words_def range_words_Suc)
qed

lemma trace_composite:
  assumes "lib_ok L" and "bdwgc_metadata_of L m obj = Some md" and "object_hash_state L m obj = Some st"
    and "\<not> md_is_atomic L md" and "md_kind L md = Composite"
    and "16 \<le> unat obj" and "unat obj + unat (md_size L md) + 7 < 2 ^ 64"
  shows "conservative_trace L H m kinds procs tracer obj s = Some (trace_words H m tracer
    (range_words (obj - 8 - hash_word st) (unat (md_size L md) div 8 + 1 + unat (hash_word st) div 8)) s)"
proof -
  note o = object_layout [OF assms(1-3)]
  let ?start = "obj - 8 - hash_word st" and ?sz = "hash_word st + md_size L md + 8"
  have h: "unat (hash_word st) = 0 \<or> unat (hash_word st) = 8" by (simp add: hash_word_def)
  have "unat (obj - 8) = unat obj - 8" using assms(6) by (simp add: unat_sub word_le_nat_alt)
  then have s: "unat ?start = unat obj - 8 - unat (hash_word st)"
    using h assms(6) by (subst unat_sub) (auto simp: word_le_nat_alt)
  have e: "?start + ?sz = obj + md_size L md" by simp
  have "unat (obj + md_size L md) = unat obj + unat (md_size L md)"
    using assms(7) by (intro unat_add_no_overflow) simp
  then have "unat (?start + ?sz) - unat ?start = unat (md_size L md) + 8 + unat (hash_word st)"
    and "unat (?start + ?sz) + 7 < 2 ^ 64"
    unfolding e s using h assms(6,7) by auto
  moreover have "(unat (md_size L md) + 8 + unat (hash_word st) + 7) div 8 =
      unat (md_size L md) div 8 + 1 + unat (hash_word st) div 8"
    using h o(3) by auto
  ultimately show ?thesis
    using assms(2,4,5) o(1,2) by (simp add: conservative_trace_def mark_range_words)
qed

section \<open>Bitmaps\<close>

definition leading_ones :: "nat \<Rightarrow> usize" where
  "leading_ones k = push_bit (64 - k) (mask k)"

lemma bit_leading_ones: "k \<le> 64 \<Longrightarrow> bit (leading_ones k) i \<longleftrightarrow> i < 64 \<and> 64 - k \<le> i"
  by (auto simp: leading_ones_def bit_simps)

lemma and_SIGNB: "d AND SIGNB = 0 \<longleftrightarrow> \<not> bit d 63"
  unfolding SIGNB_def push_bit_of_1 by (rule and_exp_eq_0_iff_not_bit)

lemma leading_ones_0 [simp]: "leading_ones 0 = 0"
  by (simp add: leading_ones_def)

lemma bit_double: "bit (d * 2) i \<longleftrightarrow> i < 64 \<and> 0 < i \<and> bit d (i - 1)" for d :: usize
proof -
  have "d * 2 = push_bit 1 d" by (simp add: push_bit_eq_mult)
  then show ?thesis by (auto simp only: bit_simps) auto
qed

lemma shift_leading_ones: "k < 64 \<Longrightarrow> leading_ones (Suc k) * 2 = leading_ones k"
  by (rule bit_word_eqI) (auto simp: bit_leading_ones bit_double)

lemma unshift_leading_ones:
  assumes "bit d 63" and "d * 2 = leading_ones k" and "k \<le> 64"
  shows "\<exists>k \<le> 64. d = leading_ones k"
proof -
  have e: "i < 64 \<and> 0 < i \<and> bit d (i - 1) \<longleftrightarrow> i < 64 \<and> 64 - k \<le> i" for i
    using bit_double [of d i] assms(3) unfolding assms(2) by (simp add: bit_leading_ones)
  from e [of 0] assms(3) have "k < 64" by (cases "k = 64") auto
  have "d = leading_ones (Suc k)"
  proof (rule bit_word_eqI)
    fix i assume "i < LENGTH(64)"
    then show "bit d i \<longleftrightarrow> bit (leading_ones (Suc k)) i"
      using e [of "i + 1"] assms(1) \<open>k < 64\<close> by (cases "i = 63") (auto simp: bit_leading_ones)
  qed
  then show ?thesis using \<open>k < 64\<close> by (intro exI [of _ "Suc k"]) simp
qed

text \<open>The part of a word that is a pointer into the heap is traced.\<close>

definition trace_heap_words :: "heap_view \<Rightarrow> memory \<Rightarrow> 's object_tracer \<Rightarrow> address list \<Rightarrow> 's \<Rightarrow> 's" where
  "trace_heap_words H m tracer as s = trace_words H m tracer
     (filter (\<lambda>a. starting_heap_address H \<le> load64 m a \<and> load64 m a \<le> last_heap_address H) as) s"

lemma bitmap_loop_ones:
  "k \<le> 64 \<Longrightarrow> bitmap_loop H m tracer s (leading_ones k) p =
     Some (trace_heap_words H m tracer (range_words p k) s)"
proof (induction k arbitrary: s p)
  case 0
  then show ?case by (simp add: bitmap_loop.simps trace_heap_words_def trace_words_def)
next
  case (Suc k)
  have b: "bit (leading_ones (Suc k)) 63" using Suc.prems by (simp add: bit_leading_ones)
  then have "leading_ones (Suc k) \<noteq> 0" "leading_ones (Suc k) AND SIGNB \<noteq> 0" by (auto simp: and_SIGNB)
  then show ?case
    using Suc by (simp add: bitmap_loop.simps [of H m tracer s "leading_ones (Suc k)"] shift_leading_ones
        trace_heap_words_def trace_words_def range_words_Suc Let_def)
qed

lemma bitmap_loop_returns:
  assumes "bitmap_loop H m tracer s d p = Some s'"
  shows "\<exists>k \<le> 64. d = leading_ones k"
proof (rule bitmap_loop.raw_induct [where P = "\<lambda>H m tracer s d p s'. \<exists>k \<le> 64. d = leading_ones k", OF _ assms])
  fix loop H m tracer s d p s'
  assume IH: "\<And>H m tracer s d p s'. loop H m tracer s d p = Some s' \<Longrightarrow> \<exists>k \<le> 64. d = leading_ones k"
    and r: "(if d \<noteq> 0 then if d AND SIGNB = 0 then loop H m tracer s d p
       else (let q = load64 m p;
                 s = (if starting_heap_address H \<le> q \<and> q \<le> last_heap_address H then trace_word H tracer s q else s)
             in loop H m tracer s (push_bit 1 d) (p + 8)) else Some s) = Some s'"
  show "\<exists>k \<le> 64. d = leading_ones k"
  proof (cases "d = 0 \<or> \<not> bit d 63")
    case True
    then have "d = leading_ones 0 \<or> loop H m tracer s d p = Some s'" using r by (auto simp: and_SIGNB split: if_splits)
    then show ?thesis using IH by (metis zero_le)
  next
    case False
    then have "\<exists>q. loop H m tracer q (d * 2) (p + 8) = Some s'"
      using r by (auto simp: and_SIGNB Let_def)
    then obtain k where "k \<le> 64" "d * 2 = leading_ones k" using IH by blast
    then show ?thesis using False unshift_leading_ones by blast
  qed
qed

section \<open>Descriptors that lead nowhere\<close>

lemma descr_trace_per_object:
  assumes "kinds ! unat k = Some kind" and "ok_descriptor kind AND GC_DS_TAGS = GC_DS_PER_OBJECT"
    and "ok_descriptor kind AND SIGNB = 0"
  shows "descr_trace H m kinds procs tracer k obj s = None \<or> length kinds \<le> unat k"
proof (rule ccontr)
  assume c: "\<not> (descr_trace H m kinds procs tracer k obj s = None \<or> length kinds \<le> unat k)"
  then obtain s' where r: "descr_trace H m kinds procs tracer k obj s = Some s'" by auto
  let ?P = "\<lambda>H m kinds procs tracer k obj s (s' :: 'a). unat k < length kinds \<longrightarrow>
    (\<forall>kind. kinds ! unat k = Some kind \<longrightarrow> ok_descriptor kind AND GC_DS_TAGS = GC_DS_PER_OBJECT \<longrightarrow>
      ok_descriptor kind AND SIGNB \<noteq> 0)"
  have "?P H m kinds procs tracer k obj s s'"
    by (rule descr_trace.raw_induct [where P = ?P, OF _ r])
      (fastforce simp: ds_defs Let_def not_less split: if_splits option.splits)
  then show False using assms c by simp
qed

lemma descr_trace_bitmap:
  assumes "unat k < length kinds" and "kinds ! unat k = Some kind"
    and "ok_descriptor kind AND GC_DS_TAGS = GC_DS_BITMAP"
  shows "descr_trace H m kinds procs tracer k obj s = bitmap_loop H m tracer s (ok_descriptor kind AND NOT GC_DS_TAGS) obj"
  using assms by (subst descr_trace.simps) (simp add: ds_defs Let_def)

lemma descr_trace_length:
  assumes "unat k < length kinds" and "kinds ! unat k = Some kind"
    and "ok_descriptor kind AND GC_DS_TAGS = GC_DS_LENGTH"
  shows "descr_trace H m kinds procs tracer k obj s = mark_range_conservative H m tracer s obj (obj + ok_descriptor kind)"
  using assms by (subst descr_trace.simps) (simp add: ds_defs Let_def)

text \<open>What \<open>GC_make_descriptor\<close> answers: the number of words when the bits set are the first ones.\<close>

lemma last_set_bit_prefix:
  assumes "\<forall>i < len. gc_get_bit m bm i \<longleftrightarrow> i < n" and "0 < n" and "n \<le> len"
  shows "last_set_bit m bm len = Some (n - 1)"
  using assms
proof (induction len)
  case (Suc len)
  then show ?case by (cases "n = Suc len") auto
qed simp

lemma all_set_prefix: "\<forall>i < l. gc_get_bit m bm i \<Longrightarrow> i \<le> l \<Longrightarrow> all_set_up_to m bm i l = l"
proof (induction m bm i l rule: all_set_up_to.induct)
  case (1 m bm i l)
  then show ?case by (cases "i = l") (simp_all add: all_set_up_to.simps [of m bm i l] all_set_up_to.simps [of m bm l l])
qed

lemma all_set_gap:
  "g < l \<Longrightarrow> \<not> gc_get_bit m bm g \<Longrightarrow> i \<le> g \<Longrightarrow> all_set_up_to m bm i l \<le> g"
proof (induction m bm i l rule: all_set_up_to.induct)
  case (1 m bm i l)
  then show ?case by (cases "i = g") (simp_all add: all_set_up_to.simps [of m bm i l] all_set_up_to.simps [of m bm g l])
qed

lemma descriptor_of_prefix:
  assumes "\<forall>i < unat len. gc_get_bit m bm i \<longleftrightarrow> i < n" and "0 < n" and "n \<le> unat len" and "unat len < 2 ^ 63"
  shows "GC_make_descriptor m bm len = word_of_nat n"
proof -
  have "len \<noteq> 0" using assms(2,3) by auto
  then have u: "unat (len - 1) + 1 = unat len" using assms(2,3) by (simp add: unat_minus_one)
  then have "\<not> sint (len - 1) < 0" using assms(4) sint_nonneg_iff [of "len - 1"] by simp
  moreover have "last_set_bit m bm (unat len) = Some (n - 1)"
    using assms(1-3) by (rule last_set_bit_prefix)
  moreover have "all_set_up_to m bm 0 (n - 1) = n - 1"
    using assms(1,3) by (intro all_set_prefix) auto
  moreover have "word_of_nat (n - 1) + 1 = (word_of_nat n :: usize)" using assms(2) by (simp add: of_nat_diff)
  ultimately show ?thesis unfolding GC_make_descriptor_def u by (simp add: ds_defs)
qed

text \<open>A gap among the first 62 bits: the descriptor that is built is discarded, and 0 is returned.\<close>

lemma descriptor_of_gap:
  assumes "last_set_bit m bm (unat (len - 1) + 1) = Some l" and "g < l" and "\<not> gc_get_bit m bm g" and "l < 62"
  shows "GC_make_descriptor m bm len = 0"
  using all_set_gap [OF assms(2,3), of 0] assms
  by (simp add: GC_make_descriptor_def BITMAP_BITS_def ds_defs)

section \<open>Properties\<close>

text \<open>A tracer that does not move objects and collects those it is given.\<close>

definition mark_tracer :: "address set object_tracer" where
  "mark_tracer s object = (object, insert object s)"

lemma trace_words_marks:
  "trace_words H m mark_tracer as s = s \<union> {ob. \<exists>a \<in> set as. find_object_from_internal_pointer H (load64 m a) 128 = Some ob}"
  by (induction as arbitrary: s)
    (auto simp: trace_words_def trace_word_def mark_tracer_def split: option.splits)

lemma set_range_words: "set (range_words a n) = words_from a n"
  by (auto simp: range_words_def words_from_def)

text \<open>
  C36: the conservative trace of an object without a descriptor. An atomic object is not read; of a
  composite one, every word from its start, header and hash word included, to its end is
  treated as a pointer, and exactly the objects these words point into are traced.
\<close>

theorem composite_object_fully_scanned:
  assumes "lib_ok L" and "bdwgc_metadata_of L m obj = Some md" and "object_hash_state L m obj = Some st"
    and "md_kind L md = Composite" and "aligned 3 obj"
    and "16 \<le> unat obj" and "unat obj + unat (md_size L md) + 7 < 2 ^ 64"
  shows "conservative_trace L H m kinds procs mark_tracer obj s = Some (if md_is_atomic L md then s else
    s \<union> {ob. \<exists>a. aligned 3 a \<and> unat obj - 8 - unat (hash_word st) \<le> unat a \<and> unat a < unat obj + unat (md_size L md) \<and>
          find_object_from_internal_pointer H (load64 m a) 128 = Some ob})"
proof (cases "md_is_atomic L md")
  case True
  then show ?thesis using assms(2) by (simp add: conservative_trace_def)
next
  case False
  let ?start = "obj - 8 - hash_word st" and ?n = "unat (md_size L md) div 8 + 1 + unat (hash_word st) div 8"
  have h: "unat (hash_word st) = 0 \<or> unat (hash_word st) = 8" by (simp add: hash_word_def)
  have "unat (obj - 8) = unat obj - 8" using assms(6) by (simp add: unat_sub word_le_nat_alt)
  then have s: "unat ?start = unat obj - 8 - unat (hash_word st)"
    using h assms(6) by (subst unat_sub) (auto simp: word_le_nat_alt)
  have "8 dvd unat obj" using assms(5) by (simp add: aligned_iff_dvd)
  then have a: "aligned 3 ?start" using h by (auto simp: aligned_iff_dvd s dvd_diff_nat)
  have e: "unat ?start + 8 * ?n = unat obj + unat (md_size L md)"
    using s h assms(6) object_layout(3) [OF assms(1-3)] by auto
  have "set (range_words ?start ?n) =
      {a. aligned 3 a \<and> unat obj - 8 - unat (hash_word st) \<le> unat a \<and> unat a < unat obj + unat (md_size L md)}"
    using words_from_eq [OF a, of ?n, unfolded e, unfolded s] assms(7) unfolding set_range_words by simp
  then show ?thesis
    using trace_composite [OF assms(1-3) False assms(4,6,7), of H kinds procs mark_tracer s] False
    by (auto simp: trace_words_marks)
qed

theorem composite_object_fully_scanned_witness:
  "conservative_trace std_lib heap_of_cells (obj_store_header (\<lambda>_. 0) 4096 2) [] [] mark_tracer 4096 {} =
     Some {ob. \<exists>a. aligned 3 a \<and> 4088 \<le> unat a \<and> unat a < 4112 \<and>
       load64 (obj_store_header (\<lambda>_. 0) 4096 2) a = ob}"
proof -
  let ?m = "obj_store_header (\<lambda>_. 0) 4096 2" and ?md = "\<lparr> meta_word = 2 \<rparr>"
  have md: "bdwgc_metadata_of std_lib ?m 4096 = Some ?md"
    by (simp add: bdwgc_metadata_of_def) (simp add: std_lib_def)
  have st: "object_hash_state std_lib ?m 4096 = Some Unhashed"
    by (simp add: object_hash_state_def header_hash_state_def) (simp add: std_lib_def)
  have f: "md_kind std_lib ?md = Composite" "md_size std_lib ?md = 16" "\<not> md_is_atomic std_lib ?md"
    by (simp_all add: md_kind_def md_size_def md_is_atomic_def object_kind_from_bitfield_def std_lib_def)
  have "aligned 3 (4096 :: address)" by (simp add: aligned_def)
  from composite_object_fully_scanned [OF lib_ok_std_lib md st f(1) this, of heap_of_cells "[]" "[]" "{}"] f
  show ?thesis by (simp add: hash_word_def heap_of_cells_def)
qed

text \<open>
  C39: the trace of a kind with a bitmap descriptor returns exactly if the bits set are the
  leading ones, and then traces that many words. With a gap before the last bit, the
  loop neither shifts the descriptor nor ends.
\<close>

theorem bitmap_trace_returns_iff_prefix:
  assumes "unat k < length kinds" and "kinds ! unat k = Some kind"
    and "ok_descriptor kind AND GC_DS_TAGS = GC_DS_BITMAP"
  shows "(\<exists>s'. descr_trace H m kinds procs tracer k obj s = Some s') =
      (\<exists>n \<le> 64. ok_descriptor kind AND NOT GC_DS_TAGS = leading_ones n) \<and>
    (n \<le> 64 \<longrightarrow> ok_descriptor kind AND NOT GC_DS_TAGS = leading_ones n \<longrightarrow>
      descr_trace H m kinds procs tracer k obj s = Some (trace_heap_words H m tracer (range_words obj n) s))"
proof (intro conjI impI)
  note t = descr_trace_bitmap [OF assms, of H m procs tracer obj s]
  show "(\<exists>s'. descr_trace H m kinds procs tracer k obj s = Some s') =
      (\<exists>n \<le> 64. ok_descriptor kind AND NOT GC_DS_TAGS = leading_ones n)"
    unfolding t using bitmap_loop_returns bitmap_loop_ones by metis
  show "descr_trace H m kinds procs tracer k obj s = Some (trace_heap_words H m tracer (range_words obj n) s)"
    if "n \<le> 64" and "ok_descriptor kind AND NOT GC_DS_TAGS = leading_ones n"
    unfolding t that(2) using that(1) by (rule bitmap_loop_ones)
qed

definition kind_of_descr :: "usize \<Rightarrow> obj_kind" where
  "kind_of_descr d = \<lparr> ok_freelist = 0, ok_reclaim_list = 0, ok_descriptor = d, ok_relocate_descr = False, ok_init = False \<rparr>"

lemma kind_of_descr_simp [simp]: "ok_descriptor (kind_of_descr d) = d"
  by (simp add: kind_of_descr_def)

theorem bitmap_trace_returns_iff_prefix_witness:
  "descr_trace heap_of_cells (\<lambda>_. 0) [Some (kind_of_descr 0xC000000000000001)] [] mark_tracer 0 4096 {} =
     Some (trace_heap_words heap_of_cells (\<lambda>_. 0) mark_tracer (range_words 4096 2) {})"
proof -
  have "leading_ones 2 = 0xC000000000000000" by (simp add: leading_ones_def mask_eq_exp_minus_1)
  then show ?thesis
    using bitmap_trace_returns_iff_prefix [of 0 "[Some (kind_of_descr 0xC000000000000001)]" "kind_of_descr 0xC000000000000001"
        heap_of_cells "\<lambda>_. 0" "[]" mark_tracer 4096 "{}" 2]
    by (simp add: ds_defs)
qed

text \<open>
  Descriptors of prefixes. For an object whose first \<^term>\<open>n\<close> words are pointers,
  \<open>GC_make_descriptor\<close> answers the number \<^term>\<open>n\<close> instead of a length in bytes; if \<^term>\<open>n\<close> leaves
  remainder 3 when divided by 4, its low bits are the tag of a descriptor kept in the object,
  and the trace of an object of a kind with it does not return.
\<close>

theorem prefix_descriptor_hangs:
  assumes "\<forall>i < unat len. gc_get_bit m bm i \<longleftrightarrow> i < n" and "n \<le> unat len" and "unat len < 2 ^ 63"
    and "n mod 4 = 3" and "unat k < length kinds" and "kinds ! unat k = Some kind"
    and "ok_descriptor kind = GC_make_descriptor m bm len"
  shows "ok_descriptor kind = word_of_nat n \<and> descr_trace H m' kinds procs tracer k obj s = None"
proof -
  have n: "0 < n" "n < 2 ^ 63" using assms(2-4) by (auto intro: Nat.gr0I)
  have d: "ok_descriptor kind = word_of_nat n"
    unfolding assms(7) using assms(1) n(1) assms(2,3) by (rule descriptor_of_prefix)
  have u: "unat (word_of_nat n :: usize) = n" using n(2) by (intro unat_word_of_nat) simp
  have "unat (take_bit 2 (word_of_nat n :: usize)) = 3" by (simp add: unat_take_bit u assms(4))
  moreover have "word_of_nat n AND (3 :: usize) = take_bit 2 (word_of_nat n)"
    using and_exp_minus_1 [of "word_of_nat n :: usize" 2] by simp
  ultimately have "word_of_nat n AND (3 :: usize) = 3" by (simp add: word_unat_eq_iff)
  moreover have "\<not> bit (word_of_nat n :: usize) 63"
    using field_bit_bound [of "word_of_nat n" 63 63] n(2) u by auto
  ultimately show ?thesis
    using descr_trace_per_object [OF assms(6), of H m' procs tracer obj s] assms(5) d by (simp add: and_SIGNB ds_defs)
qed

theorem prefix_descriptor_hangs_witness:
  "descr_trace heap_of_cells (\<lambda>_. 0) [Some (kind_of_descr (GC_make_descriptor (store64 (\<lambda>_. 0) 4096 7) 4096 3))] []
     mark_tracer 0 8192 {} = None"
proof -
  have "gc_get_bit (store64 (\<lambda>_. 0) 4096 7) 4096 i \<longleftrightarrow> i < 3" if "i < 3" for i
    using that by (auto simp: gc_get_bit_def numeral_3_eq_3 less_Suc_eq)
  then show ?thesis
    using prefix_descriptor_hangs [of 3 "store64 (\<lambda>_. 0) 4096 7" 4096 3 0
        "[Some (kind_of_descr (GC_make_descriptor (store64 (\<lambda>_. 0) 4096 7) 4096 3))]"
        "kind_of_descr (GC_make_descriptor (store64 (\<lambda>_. 0) 4096 7) 4096 3)"
        heap_of_cells "\<lambda>_. 0" "[]" mark_tracer 8192 "{}"]
    by auto
qed

end
