(* ===== verification/Vmkit_Finalization.thy ===== *)
theory Vmkit_Finalization
  imports Vmkit_Object "HOL-Library.Multiset"
begin

text \<open>
  \<open>object_model/finalization.rs\<close> and the finalizer of \<open>mm/ref_glue.rs\<close>: the registered and the
  pending finalizers, the pass the collector makes over them, and their execution. What is
  reachable, where an object was moved to and the tracing of an object are the collector's;
  its state \<^typ>\<open>'w\<close> changes when an object is traced. Callbacks are of an abstract type.
\<close>

datatype 'f finalizer_kind = Finalized | Unordered 'f | DropCallback 'f

record 'f finalizer =
  fin_object :: vmkit_object
  fin_kind :: "'f finalizer_kind"

definition kind_take :: "'f finalizer_kind \<Rightarrow> 'f finalizer_kind \<times> 'f finalizer_kind" where
  "kind_take k = (k, Finalized)"

definition is_finalized :: "'f finalizer_kind \<Rightarrow> bool" where
  "is_finalized k \<longleftrightarrow> k = Finalized"

text \<open>What running a finalizer does: nothing, a call with the object, or a call without it.\<close>

datatype 'f action = NoCall | CallWith 'f vmkit_object | Call 'f

definition finalizer_run :: "'f finalizer \<Rightarrow> 'f action \<times> 'f finalizer" where
  "finalizer_run fin =
     (let (k, rest) = kind_take (fin_kind fin);
          fin = fin \<lparr> fin_kind := rest \<rparr>
      in case k of
           Finalized \<Rightarrow> (NoCall, fin)
         | Unordered callback \<Rightarrow> (CallWith callback (fin_object fin), fin)
         | DropCallback callback \<Rightarrow> (Call callback, fin))"

record ('w, 'f) finalization =
  registered :: "'f finalizer list"
  pending :: "'f finalizer list"
  collector :: 'w

text \<open>The collector's answers.\<close>

record 'w reachability =
  is_reachable :: "'w \<Rightarrow> address \<Rightarrow> bool"
  get_forwarded_object :: "'w \<Rightarrow> address \<Rightarrow> address option"
  trace_object :: "'w \<Rightarrow> address \<Rightarrow> address \<times> 'w"

text \<open>
  The closure of \<open>retain_mut\<close>, for one registered finalizer: whether it is kept (and then as
  what), what is appended to the pending ones, and the collector's state.
\<close>

definition process_one ::
  "'w reachability \<Rightarrow> 'w \<Rightarrow> 'f finalizer \<Rightarrow> 'f finalizer option \<times> 'f finalizer list \<times> 'w" where
  "process_one G w fin =
     (case obj_try_into (fin_object fin) of
        None \<Rightarrow> (None, [], w)
      | Some obj \<Rightarrow>
          (if is_reachable G w obj
           then (let new_object = (case get_forwarded_object G w obj of Some o' \<Rightarrow> o' | None \<Rightarrow> obj)
                 in (Some (fin \<lparr> fin_object := new_object \<rparr>), [], w))
           else (let (new_object, w) = trace_object G w obj
                 in (None, [\<lparr> fin_object = new_object, fin_kind = fin_kind fin \<rparr>], w))))"

fun retain_finalizers ::
  "'w reachability \<Rightarrow> 'w \<Rightarrow> 'f finalizer list \<Rightarrow> 'f finalizer list \<times> 'f finalizer list \<times> 'w" where
  "retain_finalizers G w [] = ([], [], w)"
| "retain_finalizers G w (fin # fins) =
     (let (kept, moved, w) = process_one G w fin;
          (kepts, moveds, w) = retain_finalizers G w fins
      in ((case kept of Some fin \<Rightarrow> fin # kepts | None \<Rightarrow> kepts), moved @ moveds, w))"

definition fin_process ::
  "'w reachability \<Rightarrow> bool \<Rightarrow> ('w, 'f) finalization \<Rightarrow> (bool \<times> ('w, 'f) finalization) option" where
  "fin_process G gc_in_progress S =
     (if gc_in_progress
      then (let (kept, moved, w) = retain_finalizers G (collector S) (registered S)
            in Some (moved \<noteq> [], S \<lparr> registered := kept, pending := pending S @ moved, collector := w \<rparr>))
      else None)"

definition register_finalizer :: "vmkit_object \<Rightarrow> 'f \<Rightarrow> ('w, 'f) finalization \<Rightarrow> ('w, 'f) finalization" where
  "register_finalizer obj callback S =
     S \<lparr> registered := registered S @ [\<lparr> fin_object = obj, fin_kind = Unordered callback \<rparr>] \<rparr>"

definition get_finalized_object :: "('w, 'f) finalization \<Rightarrow> 'f finalizer option \<times> ('w, 'f) finalization" where
  "get_finalized_object S =
     (if pending S = [] then (None, S) else (Some (last (pending S)), S \<lparr> pending := butlast (pending S) \<rparr>))"

text \<open>
  \<open>run_finalizers\<close>: pops and runs until nothing is pending. A callback may do anything, also add
  pending finalizers, so the loop need not end; a panic in a callback is caught. The count is
  a \<open>usize\<close>.
\<close>

partial_function (option) run_finalizers_loop ::
  "('f action \<Rightarrow> ('w, 'f) finalization \<Rightarrow> ('w, 'f) finalization) \<Rightarrow> usize \<Rightarrow> ('w, 'f) finalization
     \<Rightarrow> (usize \<times> ('w, 'f) finalization) option" where
  "run_finalizers_loop exec cnt S =
     (case get_finalized_object S of
        (None, S) \<Rightarrow> Some (cnt, S)
      | (Some fin, S) \<Rightarrow> run_finalizers_loop exec (cnt + 1) (exec (fst (finalizer_run fin)) S))"

definition run_finalizers ::
  "('f action \<Rightarrow> ('w, 'f) finalization \<Rightarrow> ('w, 'f) finalization) \<Rightarrow> ('w, 'f) finalization
     \<Rightarrow> (usize \<times> ('w, 'f) finalization) option" where
  "run_finalizers exec S = run_finalizers_loop exec 0 S"

section \<open>The finalizer mmtk knows\<close>

record 'f glue_finalizer =
  gf_object :: vmkit_object
  gf_callback :: "'f option"

definition gf_run :: "'f glue_finalizer \<Rightarrow> 'f action \<times> 'f glue_finalizer" where
  "gf_run fin =
     (case gf_callback fin of
        Some callback \<Rightarrow> (CallWith callback (gf_object fin), fin \<lparr> gf_callback := None \<rparr>)
      | None \<Rightarrow> (NoCall, fin))"

definition gf_keep_alive :: "'w reachability \<Rightarrow> 'w \<Rightarrow> 'f glue_finalizer \<Rightarrow> 'f glue_finalizer \<times> 'w" where
  "gf_keep_alive G w fin =
     (let (new, w) = trace_object G w (gf_object fin) in (fin \<lparr> gf_object := new \<rparr>, w))"

definition gf_set_reference :: "'f glue_finalizer \<Rightarrow> address \<Rightarrow> 'f glue_finalizer" where
  "gf_set_reference fin obj = fin \<lparr> gf_object := obj \<rparr>"

section \<open>Properties\<close>

lemma process_one_kinds:
  "process_one G w fin = (kept, moved, w') \<Longrightarrow>
     mset (map fin_kind (case kept of Some f \<Rightarrow> [f] | None \<Rightarrow> [])) + mset (map fin_kind moved) =
       (if fin_object fin = NULL then {#} else {# fin_kind fin #})"
  by (auto simp: process_one_def obj_try_into_def case_prod_beta split: if_splits)

lemma retain_kinds:
  "retain_finalizers G w fins = (kept, moved, w') \<Longrightarrow>
     mset (map fin_kind kept) + mset (map fin_kind moved) =
       mset (map fin_kind (filter (\<lambda>f. fin_object f \<noteq> NULL) fins))"
proof (induction fins arbitrary: w kept moved w')
  case (Cons fin fins)
  obtain k1 m1 w1 where p: "process_one G w fin = (k1, m1, w1)" by (metis prod_cases3)
  obtain k2 m2 w2 where r: "retain_finalizers G w1 fins = (k2, m2, w2)" by (metis prod_cases3)
  have "kept = (case k1 of Some f \<Rightarrow> f # k2 | None \<Rightarrow> k2)" "moved = m1 @ m2"
    using Cons.prems p r by simp_all
  then show ?case
    using process_one_kinds [OF p] Cons.IH [OF r] by (auto split: option.splits)
qed simp

text \<open>
  C31: a collection loses no finalizer and runs none twice. Every registered finalizer of an
  object that is not null is afterwards either still registered or newly pending, exactly once
  and with its own callback; those pending before stay pending, and the collector is told to
  go on with the closure exactly when something became pending.
\<close>

theorem finalizers_are_conserved:
  assumes "fin_process G True S = Some (closure_required, S')"
  shows "mset (map fin_kind (registered S')) + mset (map fin_kind (pending S')) =
      mset (map fin_kind (filter (\<lambda>f. fin_object f \<noteq> NULL) (registered S))) + mset (map fin_kind (pending S)) \<and>
    take (length (pending S)) (pending S') = pending S \<and>
    (closure_required \<longleftrightarrow> pending S' \<noteq> pending S)"
proof -
  obtain kept moved w where r: "retain_finalizers G (collector S) (registered S) = (kept, moved, w)"
    by (metis prod_cases3)
  then show ?thesis
    using assms retain_kinds [OF r] by (auto simp: fin_process_def ac_simps)
qed

definition example_collector :: "address list reachability" where
  "example_collector = \<lparr> is_reachable = (\<lambda>w o'. o' \<in> set w), get_forwarded_object = (\<lambda>w o'. Some (o' + 4096)),
     trace_object = (\<lambda>w o'. (o' + 4096, o' # w)) \<rparr>"

definition example_finalization :: "(address list, string) finalization" where
  "example_finalization = \<lparr> registered = [\<lparr> fin_object = 64, fin_kind = Unordered ''a'' \<rparr>,
     \<lparr> fin_object = 128, fin_kind = Unordered ''b'' \<rparr>], pending = [], collector = [128] \<rparr>"

theorem finalizers_are_conserved_witness:
  "\<exists>S'. fin_process example_collector True example_finalization = Some (True, S') \<and>
     mset (map fin_kind (registered S')) + mset (map fin_kind (pending S')) = {# Unordered ''a'', Unordered ''b'' #}"
proof -
  obtain S' where S': "fin_process example_collector True example_finalization = Some (True, S')"
    by (simp add: fin_process_def example_collector_def example_finalization_def process_one_def obj_try_into_def)
  have f: "filter (\<lambda>f. fin_object f \<noteq> NULL) (registered example_finalization) = registered example_finalization"
    by (simp add: example_finalization_def)
  have "mset (map fin_kind (registered S')) + mset (map fin_kind (pending S')) =
      mset (map fin_kind (registered example_finalization)) + mset (map fin_kind (pending example_finalization))"
    using finalizers_are_conserved [OF S'] unfolding f by blast
  then show ?thesis
    unfolding S' by (simp add: example_finalization_def)
qed

lemma run_loop_all:
  assumes "\<And>a S. pending (exec a S) = pending S"
  shows "\<exists>S'. run_finalizers_loop exec cnt S = Some (cnt + word_of_nat (length (pending S)), S') \<and>
    pending S' = [] \<and>
    S' = foldl (\<lambda>S fin. exec (fst (finalizer_run fin)) (S \<lparr> pending := butlast (pending S) \<rparr>)) S (rev (pending S))"
proof (induction "pending S" arbitrary: S cnt rule: rev_induct)
  case Nil
  then show ?case by (subst run_finalizers_loop.simps) (simp add: get_finalized_object_def)
next
  case (snoc fin fins)
  let ?S = "exec (fst (finalizer_run fin)) (S \<lparr> pending := fins \<rparr>)"
  have p: "pending S = fins @ [fin]" using snoc.hyps(2) by simp
  have "fins = pending ?S" using assms by simp
  from snoc.hyps(1) [OF this, of "cnt + 1"] obtain S' where S':
    "run_finalizers_loop exec (cnt + 1) ?S = Some (cnt + 1 + word_of_nat (length fins), S')" "pending S' = []"
    "S' = foldl (\<lambda>S fin. exec (fst (finalizer_run fin)) (S \<lparr> pending := butlast (pending S) \<rparr>)) ?S (rev fins)"
    using assms by auto
  have "run_finalizers_loop exec cnt S = run_finalizers_loop exec (cnt + 1) ?S"
    by (subst run_finalizers_loop.simps) (simp add: get_finalized_object_def p)
  then show ?case using S' by (simp add: p add.assoc)
qed



text \<open>
  A \<open>Drop\<close> finalizer revives its object as well. For an unreachable object the pass over the
  finalizers traces the object whatever the kind of the finalizer is.
\<close>

theorem drop_finalizer_traces_object:
  assumes "obj \<noteq> NULL" and "\<not> is_reachable G w obj"
  shows "process_one G w \<lparr> fin_object = obj, fin_kind = DropCallback f \<rparr> =
    (None, [\<lparr> fin_object = fst (trace_object G w obj), fin_kind = DropCallback f \<rparr>], snd (trace_object G w obj))"
  using assms by (simp add: process_one_def obj_try_into_def case_prod_beta)

theorem drop_finalizer_traces_object_witness:
  "process_one example_collector [] \<lparr> fin_object = 64, fin_kind = DropCallback ''f'' \<rparr> =
     (None, [\<lparr> fin_object = 4160, fin_kind = DropCallback ''f'' \<rparr>], [64])"
  using drop_finalizer_traces_object [of 64 example_collector "[]" "''f''"] by (simp add: example_collector_def)

end
