(* ===== verification/Vmkit_BdwgcApi.thy ===== *)
theory Vmkit_BdwgcApi
  imports Vmkit_Bdwgc Vmkit_Alloc Vmkit_Finalization
begin

text \<open>
  \<open>bdwgc_shim.rs\<close>, second part: the C interface of the Boehm collector over vmkit: allocation
  and reallocation, object kinds and mark procedures, static roots, disappearing links,
  finalizers, statistics and settings. The virtual machine's own state is the record \<open>bdwgc\<close>;
  mmtk, the heap and the collector are the parameters of the theories this one builds on.
\<close>

section \<open>State\<close>

record dlink =
  dl_object :: vmkit_object
  dl_link :: address

text \<open>The hash sets of the source are lists without duplicates; their order is not specified.\<close>

record 's bdwgc =
  static_roots :: "(address \<times> address) list"
  disappearing_links :: "dlink list"
  mark_procs :: "'s mark_proc option list"
  n_procs :: usize
  obj_kinds :: "obj_kind option list"
  n_kinds :: usize

definition bdwgc_new :: "'s bdwgc" where
  "bdwgc_new = \<lparr> static_roots = [], disappearing_links = [], mark_procs = replicate GC_MAX_MARK_PROCS None,
     n_procs = 0, obj_kinds = replicate MAXOBJKINDS None, n_kinds = 0 \<rparr>"

section \<open>Allocation\<close>

definition GC_malloc :: "ext_lib \<Rightarrow> 'g mmtk \<Rightarrow> 'g mm_state \<Rightarrow> usize \<Rightarrow> (vmkit_object \<times> 'g mm_state) option" where
  "GC_malloc L K S sz =
     allocate (bdwgc_layout L) K S sz 8 \<lparr> meta_word = encode_size L (sz div 8) \<rparr> Default"

definition GC_malloc_atomic :: "ext_lib \<Rightarrow> 'g mmtk \<Rightarrow> 'g mm_state \<Rightarrow> usize \<Rightarrow> (vmkit_object \<times> 'g mm_state) option" where
  "GC_malloc_atomic L K S sz =
     allocate (bdwgc_layout L) K S sz 8
       \<lparr> meta_word = encode_size L (sz div 8) OR encode_kind L Composite OR encode_atomic L True \<rparr> Default"

definition GC_malloc_uncollectable ::
  "ext_lib \<Rightarrow> 'g mmtk \<Rightarrow> 'g mm_state \<Rightarrow> usize \<Rightarrow> (vmkit_object \<times> 'g mm_state) option" where
  "GC_malloc_uncollectable L K S sz =
     allocate (bdwgc_layout L) K S sz 8 \<lparr> meta_word = encode_size L (sz div 8) \<rparr> Immortal"

text \<open>The kind is a C \<open>int\<close> that is cut to 8 bits.\<close>

definition GC_generic_malloc ::
  "ext_lib \<Rightarrow> 'g mmtk \<Rightarrow> 'g mm_state \<Rightarrow> usize \<Rightarrow> i32 \<Rightarrow> (vmkit_object \<times> 'g mm_state) option" where
  "GC_generic_malloc L K S sz k =
     allocate (bdwgc_layout L) K S sz 8
       \<lparr> meta_word = encode_size L (sz div 8) OR encode_kind L (WithDescr (ucast k)) \<rparr> Default"

definition GC_generic_malloc_uncollectable ::
  "ext_lib \<Rightarrow> 'g mmtk \<Rightarrow> 'g mm_state \<Rightarrow> usize \<Rightarrow> i32 \<Rightarrow> (vmkit_object \<times> 'g mm_state) option" where
  "GC_generic_malloc_uncollectable L K S sz k =
     allocate (bdwgc_layout L) K S sz 8
       \<lparr> meta_word = encode_size L (sz div 8) OR encode_kind L (WithDescr (ucast k)) \<rparr> Immortal"

definition GC_generic_malloc_ignore_off_page ::
  "ext_lib \<Rightarrow> 'g mmtk \<Rightarrow> 'g mm_state \<Rightarrow> usize \<Rightarrow> i32 \<Rightarrow> (vmkit_object \<times> 'g mm_state) option" where
  "GC_generic_malloc_ignore_off_page L K S sz k =
     allocate (bdwgc_layout L) K S sz 8
       \<lparr> meta_word = encode_size L (sz div 8) OR encode_kind L (WithDescr (ucast k)) \<rparr> Default"

definition GC_malloc_stubborn :: "ext_lib \<Rightarrow> 'g mmtk \<Rightarrow> 'g mm_state \<Rightarrow> usize \<Rightarrow> (vmkit_object \<times> 'g mm_state) option" where
  "GC_malloc_stubborn L K S sz = GC_malloc L K S sz"

definition GC_malloc_ignore_off_page ::
  "ext_lib \<Rightarrow> 'g mmtk \<Rightarrow> 'g mm_state \<Rightarrow> usize \<Rightarrow> (vmkit_object \<times> 'g mm_state) option" where
  "GC_malloc_ignore_off_page L K S sz = GC_malloc L K S sz"

definition GC_malloc_atomic_ignore_off_page ::
  "ext_lib \<Rightarrow> 'g mmtk \<Rightarrow> 'g mm_state \<Rightarrow> usize \<Rightarrow> (vmkit_object \<times> 'g mm_state) option" where
  "GC_malloc_atomic_ignore_off_page L K S sz = GC_malloc_atomic L K S sz"

definition GC_malloc_explicitly_typed ::
  "ext_lib \<Rightarrow> 'g mmtk \<Rightarrow> 'g mm_state \<Rightarrow> usize \<Rightarrow> usize \<Rightarrow> (vmkit_object \<times> 'g mm_state) option" where
  "GC_malloc_explicitly_typed L K S sz descr = GC_malloc L K S sz"

definition GC_malloc_explicitly_typed_ignore_off_page ::
  "ext_lib \<Rightarrow> 'g mmtk \<Rightarrow> 'g mm_state \<Rightarrow> usize \<Rightarrow> usize \<Rightarrow> (vmkit_object \<times> 'g mm_state) option" where
  "GC_malloc_explicitly_typed_ignore_off_page L K S sz descr = GC_malloc_ignore_off_page L K S sz"

definition GC_free :: "address \<Rightarrow> 'g mm_state \<Rightarrow> 'g mm_state" where
  "GC_free ptr S = S"

section \<open>Pointers\<close>

definition GC_base :: "heap_view \<Rightarrow> address \<Rightarrow> address" where
  "GC_base H ptr = (case find_object_from_internal_pointer H ptr 128 of Some object \<Rightarrow> object | None \<Rightarrow> 0)"

definition GC_is_heap_ptr :: "(address \<Rightarrow> bool) \<Rightarrow> address \<Rightarrow> i32" where
  "GC_is_heap_ptr is_mapped_address ptr = (if is_mapped_address ptr then 1 else 0)"

definition GC_size :: "ext_lib \<Rightarrow> heap_view \<Rightarrow> memory \<Rightarrow> address \<Rightarrow> usize option" where
  "GC_size L H m ptr =
     (case find_object_from_internal_pointer H ptr 128 of
        Some object \<Rightarrow> bytes_used (bdwgc_layout L) m object
      | None \<Rightarrow> Some 0)"

definition GC_is_visible :: "address \<Rightarrow> address" where
  "GC_is_visible p = p"

definition GC_realloc ::
  "ext_lib \<Rightarrow> 'g mmtk \<Rightarrow> 'g mm_state \<Rightarrow> address \<Rightarrow> usize \<Rightarrow> (vmkit_object \<times> 'g mm_state) option" where
  "GC_realloc L K S old sz = do {
     md \<leftarrow> bdwgc_metadata_of L (mm_mem S) old;
     (mem, S) \<leftarrow> (if md_is_atomic L md then GC_malloc_atomic L K S sz else GC_malloc L K S sz);
     Some (mem, S \<lparr> mm_mem := copy_bytes (mm_mem S) old mem sz \<rparr>)
   }"

section \<open>Strings\<close>

text \<open>\<open>CStr::from_ptr\<close>: the bytes before the terminator.\<close>

partial_function (option) c_string :: "memory \<Rightarrow> address \<Rightarrow> u8 list option" where
  "c_string m p = (if m p = 0 then Some [] else Option.bind (c_string m (p + 1)) (\<lambda>bs. Some (m p # bs)))"

text \<open>
  \<open>to_string_lossy\<close>: valid UTF-8 is kept, and each longest prefix of a sequence that cannot be
  continued is replaced by the replacement character.
\<close>

definition continuation :: "u8 \<Rightarrow> bool" where
  "continuation b \<longleftrightarrow> 0x80 \<le> b \<and> b \<le> 0xBF"

definition second_byte_ok :: "u8 \<Rightarrow> u8 \<Rightarrow> bool" where
  "second_byte_ok b c \<longleftrightarrow>
     (if b = 0xE0 then 0xA0 \<le> c \<and> c \<le> 0xBF else if b = 0xED then 0x80 \<le> c \<and> c \<le> 0x9F
      else if b = 0xF0 then 0x90 \<le> c \<and> c \<le> 0xBF else if b = 0xF4 then 0x80 \<le> c \<and> c \<le> 0x8F
      else continuation c)"

definition utf8_width :: "u8 \<Rightarrow> nat" where
  "utf8_width b = (if b < 0x80 then 1 else if 0xC2 \<le> b \<and> b \<le> 0xDF then 2
     else if 0xE0 \<le> b \<and> b \<le> 0xEF then 3 else if 0xF0 \<le> b \<and> b \<le> 0xF4 then 4 else 0)"

definition replacement :: "u8 list" where
  "replacement = [0xEF, 0xBF, 0xBD]"

text \<open>How many continuation bytes that fit follow the first byte, \<^term>\<open>n\<close> at most.\<close>

fun continuations :: "nat \<Rightarrow> u8 list \<Rightarrow> nat" where
  "continuations (Suc n) (c # cs) = (if continuation c then Suc (continuations n cs) else 0)"
| "continuations _ _ = 0"

definition sequence_length :: "u8 \<Rightarrow> u8 list \<Rightarrow> nat" where
  "sequence_length b bs =
     (case bs of
        c # cs \<Rightarrow> (if utf8_width b \<ge> 2 \<and> second_byte_ok b c then 2 + continuations (utf8_width b - 2) cs else 1)
      | [] \<Rightarrow> 1)"

function to_string_lossy :: "u8 list \<Rightarrow> u8 list" where
  "to_string_lossy [] = []"
| "to_string_lossy (b # bs) =
     (let n = sequence_length b bs
      in (if n = utf8_width b then take n (b # bs) else replacement) @ to_string_lossy (drop (n - 1) bs))"
  by pat_completeness auto
termination by (relation "measure length") auto

definition store_list :: "memory \<Rightarrow> address \<Rightarrow> u8 list \<Rightarrow> memory" where
  "store_list m a bs = (\<lambda>x. if unat (x - a) < length bs then bs ! unat (x - a) else m x)"

definition GC_strdup :: "ext_lib \<Rightarrow> 'g mmtk \<Rightarrow> 'g mm_state \<Rightarrow> address \<Rightarrow> (address \<times> 'g mm_state) option" where
  "GC_strdup L K S s =
     (if s = 0 then Some (0, S)
      else do {
        str \<leftarrow> c_string (mm_mem S) s;
        let bytes = to_string_lossy str;
        (ns, S) \<leftarrow> GC_malloc_atomic L K S (word_of_nat (length bytes));
        Some (ns, S \<lparr> mm_mem := store_list (mm_mem S) ns bytes \<rparr>)
      })"

definition GC_strndup ::
  "ext_lib \<Rightarrow> 'g mmtk \<Rightarrow> 'g mm_state \<Rightarrow> address \<Rightarrow> usize \<Rightarrow> (address \<times> 'g mm_state) option" where
  "GC_strndup L K S s n = do {
     (ns, S) \<leftarrow> GC_malloc_atomic L K S n;
     Some (ns, S \<lparr> mm_mem := copy_bytes (mm_mem S) s ns n \<rparr>)
   }"

section \<open>Kinds and mark procedures\<close>

definition GC_new_kind :: "address \<Rightarrow> usize \<Rightarrow> i32 \<Rightarrow> i32 \<Rightarrow> 's bdwgc \<Rightarrow> (usize \<times> 's bdwgc) option" where
  "GC_new_kind fl descr adjust clear B =
     (let result = n_kinds B
      in if unat result < MAXOBJKINDS
         then Some (result, B \<lparr> n_kinds := n_kinds B + 1,
                obj_kinds := (obj_kinds B)[unat result := Some
                  \<lparr> ok_freelist = fl, ok_reclaim_list = 0, ok_descriptor = descr,
                     ok_relocate_descr = (adjust \<noteq> 0), ok_init = (clear \<noteq> 0) \<rparr>] \<rparr>)
         else None)"

definition GC_new_proc :: "'s mark_proc \<Rightarrow> 's bdwgc \<Rightarrow> (usize \<times> 's bdwgc) option" where
  "GC_new_proc p B =
     (let result = n_procs B
      in if unat result < GC_MAX_MARK_PROCS
         then Some (result, B \<lparr> n_procs := n_procs B + 1, mark_procs := (mark_procs B)[unat result := Some p] \<rparr>)
         else None)"

text \<open>The mark stack a procedure passes on is the tracer; nothing is pushed.\<close>

definition GC_mark_and_push :: "heap_view \<Rightarrow> 's object_tracer \<Rightarrow> 's \<Rightarrow> address \<Rightarrow> 's" where
  "GC_mark_and_push H tracer s obj =
     (case find_object_from_internal_pointer H obj 128 of
        Some object \<Rightarrow> snd (tracer s object)
      | None \<Rightarrow> s)"

definition GC_new_free_list :: address where
  "GC_new_free_list = 0"

section \<open>Static roots\<close>

definition GC_clear_roots :: "'s bdwgc \<Rightarrow> 's bdwgc" where
  "GC_clear_roots B = B \<lparr> static_roots := [] \<rparr>"

definition GC_add_roots :: "address \<Rightarrow> address \<Rightarrow> 's bdwgc \<Rightarrow> 's bdwgc" where
  "GC_add_roots low high B = B \<lparr> static_roots := List.insert (low, high) (static_roots B) \<rparr>"

definition GC_remove_roots :: "address \<Rightarrow> address \<Rightarrow> 's bdwgc \<Rightarrow> 's bdwgc" where
  "GC_remove_roots low high B = B \<lparr> static_roots := removeAll (low, high) (static_roots B) \<rparr>"

definition GC_exclude_static_roots :: "address \<Rightarrow> address \<Rightarrow> 's bdwgc \<Rightarrow> 's bdwgc" where
  "GC_exclude_static_roots low high B = B"

fun add_spans ::
  "ext_lib \<Rightarrow> heap_view \<Rightarrow> memory \<Rightarrow> (address \<times> address) list \<Rightarrow> conservative_roots \<Rightarrow> conservative_roots option" where
  "add_spans L H m [] R = Some R"
| "add_spans L H m ((start, end) # spans) R = Option.bind (add_span L H m R start end) (add_spans L H m spans)"

text \<open>\<open>dynamic_libraries_sections\<close> asks the platform, so its answer is an argument.\<close>

definition scan_vm_specific_roots ::
  "ext_lib \<Rightarrow> heap_view \<Rightarrow> memory \<Rightarrow> (address \<times> address) list \<Rightarrow> 's bdwgc \<Rightarrow> conservative_roots option" where
  "scan_vm_specific_roots L H m sections B = do {
     croots \<leftarrow> add_spans L H m sections (roots_new 256);
     add_spans L H m (static_roots B) croots
   }"

section \<open>Disappearing links\<close>

text \<open>
  Inserting a link into the hash set, or removing it, computes the hash code of its object, which
  is recorded in the header of the object. \<open>compute_hashcode\<close> of the shim is the address.
\<close>

definition hash_link :: "ext_lib \<Rightarrow> memory \<Rightarrow> dlink \<Rightarrow> memory option" where
  "hash_link L m dl = map_option snd (obj_hashcode (bdwgc_layout L) (\<lambda>obj. obj) m (dl_object dl))"

definition GC_register_disappearing_link ::
  "ext_lib \<Rightarrow> heap_view \<Rightarrow> address \<Rightarrow> memory \<times> 's bdwgc \<Rightarrow> (memory \<times> 's bdwgc) option" where
  "GC_register_disappearing_link L H link = (\<lambda>(m, B). do {
     let dlink = \<lparr> dl_object = GC_base H link, dl_link = link \<rparr>;
     m \<leftarrow> hash_link L m dlink;
     Some (m, B \<lparr> disappearing_links := List.insert dlink (disappearing_links B) \<rparr>)
   })"

definition GC_unregister_disappearing_link ::
  "ext_lib \<Rightarrow> heap_view \<Rightarrow> address \<Rightarrow> memory \<times> 's bdwgc \<Rightarrow> (memory \<times> 's bdwgc) option" where
  "GC_unregister_disappearing_link L H link = (\<lambda>(m, B). do {
     let dlink = \<lparr> dl_object = GC_base H link, dl_link = link \<rparr>;
     m \<leftarrow> hash_link L m dlink;
     Some (m, B \<lparr> disappearing_links := removeAll dlink (disappearing_links B) \<rparr>)
   })"

definition GC_general_register_disappearing_link ::
  "ext_lib \<Rightarrow> address \<Rightarrow> address \<Rightarrow> memory \<times> 's bdwgc \<Rightarrow> (i32 \<times> memory \<times> 's bdwgc) option" where
  "GC_general_register_disappearing_link L link obj = (\<lambda>(m, B). do {
     let dlink = \<lparr> dl_object = obj, dl_link = link \<rparr>;
     m \<leftarrow> hash_link L m dlink;
     Some (if dlink \<in> set (disappearing_links B) then 1 else 0, m,
           B \<lparr> disappearing_links := List.insert dlink (disappearing_links B) \<rparr>)
   })"

text \<open>The pass over the links: those of unreachable objects are cleared and dropped.\<close>

fun retain_links :: "(address \<Rightarrow> bool) \<Rightarrow> memory \<Rightarrow> dlink list \<Rightarrow> memory \<times> dlink list" where
  "retain_links reachable m [] = (m, [])"
| "retain_links reachable m (dl # dls) =
     (if \<not> reachable (dl_object dl) then retain_links reachable (store64 m (dl_link dl) 0) dls
      else (let (m, kept) = retain_links reachable m dls in (m, dl # kept)))"

definition bdwgc_process_weak_refs ::
  "'w reachability \<Rightarrow> bool \<Rightarrow> memory \<times> 's bdwgc \<times> ('w, 'f) finalization
     \<Rightarrow> (bool \<times> memory \<times> 's bdwgc \<times> ('w, 'f) finalization) option" where
  "bdwgc_process_weak_refs G gc_in_progress = (\<lambda>(m, B, F). do {
     let (m, links) = retain_links (is_reachable G (collector F)) m (disappearing_links B);
     (closure_required, F) \<leftarrow> fin_process G gc_in_progress F;
     Some (closure_required, m, B \<lparr> disappearing_links := links \<rparr>, F)
   })"

section \<open>Finalizers\<close>

text \<open>A C finalizer with its client data; the old finalizer is not reported.\<close>

definition GC_register_finalizer ::
  "heap_view \<Rightarrow> address \<Rightarrow> 'fn \<Rightarrow> address \<Rightarrow> ('w, 'fn \<times> address) finalization \<Rightarrow> ('w, 'fn \<times> address) finalization" where
  "GC_register_finalizer H obj fn cd F =
     (let object = GC_base H obj in if object = 0 then F else register_finalizer object (fn, cd) F)"

definition GC_register_finalizer_ignore_self ::
  "heap_view \<Rightarrow> address \<Rightarrow> 'fn \<Rightarrow> address \<Rightarrow> ('w, 'fn \<times> address) finalization \<Rightarrow> ('w, 'fn \<times> address) finalization" where
  "GC_register_finalizer_ignore_self H obj fn cd F =
     (let object = GC_base H obj in if object = 0 then F else register_finalizer object (fn, cd) F)"

definition GC_register_finalizer_no_order ::
  "heap_view \<Rightarrow> address \<Rightarrow> 'fn \<Rightarrow> address \<Rightarrow> ('w, 'fn \<times> address) finalization \<Rightarrow> ('w, 'fn \<times> address) finalization" where
  "GC_register_finalizer_no_order H obj fn cd F =
     (let object = GC_base H obj in if object = 0 then F else register_finalizer object (fn, cd) F)"

definition GC_register_finalizer_unreachable ::
  "heap_view \<Rightarrow> address \<Rightarrow> 'fn \<Rightarrow> address \<Rightarrow> ('w, 'fn \<times> address) finalization \<Rightarrow> ('w, 'fn \<times> address) finalization" where
  "GC_register_finalizer_unreachable H obj fn cd F =
     (let object = GC_base H obj in if object = 0 then F else register_finalizer object (fn, cd) F)"

definition GC_invoke_finalizers ::
  "(('fn \<times> address) action \<Rightarrow> ('w, 'fn \<times> address) finalization \<Rightarrow> ('w, 'fn \<times> address) finalization)
     \<Rightarrow> ('w, 'fn \<times> address) finalization \<Rightarrow> (usize \<times> ('w, 'fn \<times> address) finalization) option" where
  "GC_invoke_finalizers exec F = run_finalizers exec F"

section \<open>Switching collections off\<close>

definition GC_enable :: "usize \<Rightarrow> usize" where
  "GC_enable gc_disabled_depth = enable_gc gc_disabled_depth"

definition GC_disable :: "usize \<Rightarrow> usize" where
  "GC_disable gc_disabled_depth = disable_gc gc_disabled_depth"

definition GC_is_enabled :: "usize \<Rightarrow> i32" where
  "GC_is_enabled gc_disabled_depth = (if is_gc_enabled gc_disabled_depth then 1 else 0)"

section \<open>Tables\<close>

text \<open>A table with a fixed number of entries, filled from the front.\<close>

definition table_ok :: "nat \<Rightarrow> 'e option list \<Rightarrow> usize \<Rightarrow> bool" where
  "table_ok cap es n \<longleftrightarrow> length es = cap \<and> unat n \<le> cap \<and> (\<forall>i < cap. (es ! i = None) = (unat n \<le> i))"

text \<open>Object kinds and mark procedures are registered in the same way.\<close>

locale bounded_table =
  fixes register :: "'a \<Rightarrow> 's \<Rightarrow> (usize \<times> 's) option"
    and stored :: "'a \<Rightarrow> 'e"
    and entries :: "'s \<Rightarrow> 'e option list"
    and used :: "'s \<Rightarrow> usize"
    and cap :: nat
  assumes register_room: "unat (used s) < cap \<Longrightarrow> register a s = Some (i, s') \<Longrightarrow>
      i = used s \<and> used s' = used s + 1 \<and> entries s' = (entries s)[unat (used s) := Some (stored a)]"
    and register_returns: "unat (used s) < cap \<Longrightarrow> register a s \<noteq> None"
    and register_full: "cap \<le> unat (used s) \<Longrightarrow> register a s = None"
    and cap_small: "cap < 2 ^ 63"
begin

lemma registered:
  assumes "table_ok cap (entries s) (used s)" and "register a s = Some (i, s')"
  shows "unat i < cap \<and> entries s ! unat i = None \<and> entries s' = (entries s)[unat i := Some (stored a)] \<and>
    table_ok cap (entries s') (used s')"
proof -
  have l: "unat (used s) < cap" using assms(2) register_full by (metis not_less option.distinct(1))
  note r = register_room [OF l assms(2)]
  have "unat (used s + 1) = unat (used s) + 1"
    using l cap_small by (subst unat_add_no_overflow) simp_all
  then show ?thesis using r l assms(1) by (auto simp: table_ok_def nth_list_update)
qed

lemma registered_kept:
  assumes "table_ok cap (entries s) (used s)" and "register a s = Some (i, s')" and "entries s ! unat j = Some e"
    and "unat j < cap"
  shows "entries s' ! unat j = Some e"
  using registered [OF assms(1,2)] assms(3) by (metis nth_list_update_neq option.distinct(1))

lemma registered_found:
  assumes "table_ok cap (entries s) (used s)" and "register a s = Some (i, s')"
  shows "entries s' ! unat i = Some (stored a)"
  using registered [OF assms] assms(1) by (auto simp: table_ok_def)

lemma registration_returns_iff:
  assumes "table_ok cap (entries s) (used s)"
  shows "register a s = None \<longleftrightarrow> None \<notin> set (entries s)"
proof -
  have "None \<in> set (entries s) \<longleftrightarrow> (\<exists>i < cap. unat (used s) \<le> i)"
    using assms by (auto simp: table_ok_def in_set_conv_nth)
  also have "\<dots> \<longleftrightarrow> unat (used s) < cap" by (auto intro: le_less_trans)
  finally show ?thesis using register_returns register_full by (metis not_less)
qed

end

definition new_kind :: "(address \<times> usize \<times> i32 \<times> i32) \<Rightarrow> 's bdwgc \<Rightarrow> (usize \<times> 's bdwgc) option" where
  "new_kind = (\<lambda>(fl, descr, adjust, clear). GC_new_kind fl descr adjust clear)"

definition kind_entry :: "(address \<times> usize \<times> i32 \<times> i32) \<Rightarrow> obj_kind" where
  "kind_entry = (\<lambda>(fl, descr, adjust, clear). \<lparr> ok_freelist = fl, ok_reclaim_list = 0, ok_descriptor = descr,
     ok_relocate_descr = (adjust \<noteq> 0), ok_init = (clear \<noteq> 0) \<rparr>)"

interpretation kind_table: bounded_table new_kind kind_entry obj_kinds n_kinds 24
  by unfold_locales (auto simp: new_kind_def kind_entry_def GC_new_kind_def MAXOBJKINDS_def Let_def split: if_splits)

interpretation proc_table: bounded_table GC_new_proc "\<lambda>p. p" mark_procs n_procs 64
  by unfold_locales (auto simp: GC_new_proc_def GC_MAX_MARK_PROCS_def Let_def split: if_splits)

definition bdwgc_ok :: "'s bdwgc \<Rightarrow> bool" where
  "bdwgc_ok B \<longleftrightarrow> table_ok 24 (obj_kinds B) (n_kinds B) \<and> table_ok 64 (mark_procs B) (n_procs B) \<and>
     distinct (static_roots B) \<and> distinct (disappearing_links B)"

lemma bdwgc_ok_new [simp]: "bdwgc_ok bdwgc_new"
  by (simp add: bdwgc_ok_def bdwgc_new_def table_ok_def MAXOBJKINDS_def GC_MAX_MARK_PROCS_def)

lemma kind_and_proc_frame:
  "GC_new_kind fl d a c B = Some (i, B') \<Longrightarrow> mark_procs B' = mark_procs B \<and> n_procs B' = n_procs B \<and>
     static_roots B' = static_roots B \<and> disappearing_links B' = disappearing_links B"
  "GC_new_proc p B = Some (i, B') \<Longrightarrow> obj_kinds B' = obj_kinds B \<and> n_kinds B' = n_kinds B \<and>
     static_roots B' = static_roots B \<and> disappearing_links B' = disappearing_links B"
  by (auto simp: GC_new_kind_def GC_new_proc_def Let_def split: if_splits)

lemma retain_links_kept: "snd (retain_links f m dls) = filter (\<lambda>dl. f (dl_object dl)) dls"
  by (induction f m dls rule: retain_links.induct) (auto simp: case_prod_beta Let_def)

lemma new_kind_ok:
  assumes "bdwgc_ok B"
  shows "(GC_new_kind fl d a c B = None) = (None \<notin> set (obj_kinds B))"
    and "GC_new_kind fl d a c B = Some (i, B') \<Longrightarrow> bdwgc_ok B' \<and> unat i < 24 \<and> obj_kinds B ! unat i = None \<and>
       obj_kinds B' = (obj_kinds B)[unat i := Some (kind_entry (fl, d, a, c))]"
proof -
  have k: "new_kind (fl, d, a, c) B = GC_new_kind fl d a c B" by (simp add: new_kind_def)
  have t: "table_ok 24 (obj_kinds B) (n_kinds B)" using assms by (simp add: bdwgc_ok_def)
  show "(GC_new_kind fl d a c B = None) = (None \<notin> set (obj_kinds B))"
    using kind_table.registration_returns_iff [OF t, of "(fl, d, a, c)"] unfolding k .
  assume r: "GC_new_kind fl d a c B = Some (i, B')"
  show "bdwgc_ok B' \<and> unat i < 24 \<and> obj_kinds B ! unat i = None \<and>
       obj_kinds B' = (obj_kinds B)[unat i := Some (kind_entry (fl, d, a, c))]"
    using kind_table.registered [OF t, of "(fl, d, a, c)" i B'] kind_and_proc_frame(1) [OF r] r assms
    unfolding k by (auto simp: bdwgc_ok_def)
qed

lemma new_proc_ok:
  assumes "bdwgc_ok B"
  shows "(GC_new_proc p B = None) = (None \<notin> set (mark_procs B))"
    and "GC_new_proc p B = Some (i, B') \<Longrightarrow> bdwgc_ok B' \<and> unat i < 64 \<and> mark_procs B ! unat i = None \<and>
       mark_procs B' = (mark_procs B)[unat i := Some p]"
proof -
  have t: "table_ok 64 (mark_procs B) (n_procs B)" using assms by (simp add: bdwgc_ok_def)
  show "(GC_new_proc p B = None) = (None \<notin> set (mark_procs B))"
    using t by (rule proc_table.registration_returns_iff)
  assume r: "GC_new_proc p B = Some (i, B')"
  show "bdwgc_ok B' \<and> unat i < 64 \<and> mark_procs B ! unat i = None \<and> mark_procs B' = (mark_procs B)[unat i := Some p]"
    using proc_table.registered [OF t r] kind_and_proc_frame(2) [OF r] assms by (auto simp: bdwgc_ok_def)
qed

lemma roots_ok:
  assumes "bdwgc_ok B"
  shows "bdwgc_ok (GC_add_roots lo hi B)" "bdwgc_ok (GC_remove_roots lo hi B)" "bdwgc_ok (GC_clear_roots B)"
  using assms by (simp_all add: bdwgc_ok_def GC_add_roots_def GC_remove_roots_def GC_clear_roots_def distinct_removeAll)

lemma links_ok_update: "bdwgc_ok B \<Longrightarrow> distinct dls \<Longrightarrow> bdwgc_ok (B \<lparr> disappearing_links := dls \<rparr>)"
  by (simp add: bdwgc_ok_def)

lemma bdwgc_ok_links: "bdwgc_ok B \<Longrightarrow> distinct (disappearing_links B)"
  by (simp add: bdwgc_ok_def)

lemma links_ok:
  assumes "bdwgc_ok B"
  shows "GC_register_disappearing_link L H link (m, B) = Some (m', B') \<Longrightarrow> bdwgc_ok B'"
    and "GC_unregister_disappearing_link L H link (m, B) = Some (m', B') \<Longrightarrow> bdwgc_ok B'"
    and "GC_general_register_disappearing_link L link obj (m, B) = Some (r, m', B') \<Longrightarrow> bdwgc_ok B'"
    and "bdwgc_process_weak_refs G gc (m, B, F) = Some (again, m', B', F') \<Longrightarrow> bdwgc_ok B'"
  using links_ok_update [OF assms] bdwgc_ok_links [OF assms]
  by (auto simp: GC_register_disappearing_link_def GC_unregister_disappearing_link_def distinct_removeAll
      GC_general_register_disappearing_link_def bdwgc_process_weak_refs_def case_prod_beta Let_def
      retain_links_kept split: Option.bind_splits)

text \<open>
  C37: the state of the shim stays well-formed. Every operation of the interface keeps both tables
  filled from the front and the sets of roots and links free of duplicates. A kind or a mark
  procedure gets the number of a free entry and is found under it, the entries of earlier
  ones stay, and registration panics exactly when the table is full.
\<close>

theorem shim_state_well_formed:
  assumes "bdwgc_ok B"
  shows "(GC_new_kind fl d a c B = None) = (None \<notin> set (obj_kinds B)) \<and>
    (GC_new_kind fl d a c B = Some (i, B') \<longrightarrow> bdwgc_ok B' \<and> unat i < 24 \<and> obj_kinds B ! unat i = None \<and>
       obj_kinds B' = (obj_kinds B)[unat i := Some (kind_entry (fl, d, a, c))]) \<and>
    (GC_new_proc p B = None) = (None \<notin> set (mark_procs B)) \<and>
    (GC_new_proc p B = Some (i, B') \<longrightarrow> bdwgc_ok B' \<and> unat i < 64 \<and> mark_procs B ! unat i = None \<and>
       mark_procs B' = (mark_procs B)[unat i := Some p]) \<and>
    bdwgc_ok (GC_add_roots lo hi B) \<and> bdwgc_ok (GC_remove_roots lo hi B) \<and> bdwgc_ok (GC_clear_roots B) \<and>
    (GC_register_disappearing_link L H link (m, B) = Some (m', B') \<longrightarrow> bdwgc_ok B') \<and>
    (GC_unregister_disappearing_link L H link (m, B) = Some (m', B') \<longrightarrow> bdwgc_ok B') \<and>
    (GC_general_register_disappearing_link L link obj (m, B) = Some (r, m', B') \<longrightarrow> bdwgc_ok B') \<and>
    (bdwgc_process_weak_refs G gc (m, B, F) = Some (again, m', B', F') \<longrightarrow> bdwgc_ok B')"
  using new_kind_ok [OF assms] new_proc_ok [OF assms] roots_ok [OF assms] links_ok [OF assms]
  by (intro conjI impI) blast+

theorem shim_state_well_formed_witness:
  "\<exists>i B'. GC_new_kind 0 16 0 1 (bdwgc_new :: unit bdwgc) = Some (i, B') \<and> bdwgc_ok B' \<and>
     obj_kinds B' ! unat i = Some (kind_entry (0, 16, 0, 1))"
proof -
  let ?B = "bdwgc_new :: unit bdwgc"
  obtain i B' where r: "GC_new_kind 0 16 0 1 ?B = Some (i, B')"
    by (simp add: GC_new_kind_def bdwgc_new_def MAXOBJKINDS_def Let_def)
  have "bdwgc_ok B' \<and> unat i < 24 \<and> obj_kinds B' = (obj_kinds ?B)[unat i := Some (kind_entry (0, 16, 0, 1))]"
    using shim_state_well_formed [OF bdwgc_ok_new, of 0 16 0 1 i B'] r by blast
  then show ?thesis using r by (intro exI [of _ i] exI [of _ B']) (simp add: bdwgc_new_def MAXOBJKINDS_def)
qed

section \<open>Roots\<close>

text \<open>The word addresses the scan of a span looks at, and the spans it accepts.\<close>

definition span_words :: "ext_lib \<Rightarrow> address \<times> address \<Rightarrow> address set" where
  "span_words L = (\<lambda>(start, end). {a. aligned 3 a \<and> unat (raw_align_down L (min start end) 8) \<le> unat a \<and>
     unat a < unat (raw_align_up L (max start end) 8)})"

definition span_ok :: "address \<times> address \<Rightarrow> bool" where
  "span_ok = (\<lambda>(start, end). start \<noteq> 0 \<and> end \<noteq> 0 \<and> unat (max start end) + 16 \<le> 2 ^ 64)"

lemma add_spans_exact:
  assumes "lib_ok L" and "\<forall>p \<in> set spans. span_ok p"
  shows "\<exists>R'. add_spans L H m spans R = Some R' \<and> internal_pointer_limit R' = internal_pointer_limit R \<and>
    roots R' = roots R \<union> (\<Union>p \<in> set spans. pointed H m (internal_pointer_limit R) (span_words L p))"
  using assms(2)
proof (induction spans arbitrary: R)
  case (Cons p spans)
  obtain x y where p: "p = (x, y)" by fastforce
  have "x \<noteq> 0" "y \<noteq> 0" "unat (max x y) + 8 \<le> 2 ^ 64 - 8"
    using Cons.prems by (auto simp: p span_ok_def)
  from span_scanned [OF assms(1) this(1,2) refl refl this(3), of H m R]
  obtain R1 where R1: "add_span L H m R x y = Some R1" "internal_pointer_limit R1 = internal_pointer_limit R"
    "roots R1 = roots R \<union> pointed H m (internal_pointer_limit R) (span_words L p)"
    by (auto simp: span_words_def p)
  moreover obtain R' where "add_spans L H m spans R1 = Some R'" "internal_pointer_limit R' = internal_pointer_limit R1"
    "roots R' = roots R1 \<union> (\<Union>p \<in> set spans. pointed H m (internal_pointer_limit R1) (span_words L p))"
    using Cons.IH [of R1] Cons.prems by auto
  ultimately show ?case by (intro exI [of _ R']) (auto simp: p)
qed simp

text \<open>
  Static roots are scanned completely. If the sections of the libraries and the registered
  ranges are proper ranges, the scan returns, and its roots are exactly the objects that the
  words of these ranges point into; so an object referred to from a range that was added and
  not removed since is a root, and a range that was removed is not read.
\<close>

theorem static_roots_scanned:
  assumes "lib_ok L" and "\<forall>p \<in> set sections. span_ok p" and "\<forall>p \<in> set (static_roots B). span_ok p" and "span_ok (lo, hi)"
  shows "\<exists>R R'. scan_vm_specific_roots L H m sections (GC_add_roots lo hi B) = Some R \<and>
    roots R = (\<Union>p \<in> set sections \<union> set (static_roots B) \<union> {(lo, hi)}. pointed H m 256 (span_words L p)) \<and>
    scan_vm_specific_roots L H m sections (GC_remove_roots lo hi B) = Some R' \<and>
    roots R' = (\<Union>p \<in> set sections \<union> (set (static_roots B) - {(lo, hi)}). pointed H m 256 (span_words L p))"
proof -
  obtain R0 where R0: "add_spans L H m sections (roots_new 256) = Some R0" "internal_pointer_limit R0 = 256"
    "roots R0 = (\<Union>p \<in> set sections. pointed H m 256 (span_words L p))"
    using add_spans_exact [OF assms(1,2), of H m "roots_new 256"] by (auto simp: roots_new_def)
  have "\<exists>R. scan_vm_specific_roots L H m sections B' = Some R \<and>
      roots R = (\<Union>p \<in> set sections \<union> set (static_roots B'). pointed H m 256 (span_words L p))"
    if "\<forall>p \<in> set (static_roots B'). span_ok p" for B' :: "'a bdwgc"
    using add_spans_exact [OF assms(1) that, of H m R0] R0 by (auto simp: scan_vm_specific_roots_def)
  from this [of "GC_add_roots lo hi B"] this [of "GC_remove_roots lo hi B"] show ?thesis
    using assms(3,4) by (simp add: GC_add_roots_def GC_remove_roots_def Un_insert_right)
qed

theorem static_roots_scanned_witness:
  "\<exists>R. scan_vm_specific_roots std_lib heap_of_cells (\<lambda>_. 7) [(0x1000, 0x2000)] (GC_add_roots 0x4000 0x3000 (bdwgc_new :: unit bdwgc)) = Some R \<and>
     roots R = pointed heap_of_cells (\<lambda>_. 7) 256 (span_words std_lib (0x1000, 0x2000)) \<union>
       pointed heap_of_cells (\<lambda>_. 7) 256 (span_words std_lib (0x4000, 0x3000))"
proof -
  have "\<forall>p \<in> set (static_roots (bdwgc_new :: unit bdwgc)). span_ok p" by (simp add: bdwgc_new_def)
  moreover have "\<forall>p \<in> set [(0x1000, 0x2000)]. span_ok p" "span_ok (0x4000, 0x3000)"
    by (simp_all add: span_ok_def)
  ultimately show ?thesis
    using static_roots_scanned [OF lib_ok_std_lib, of "[(0x1000, 0x2000)]" "bdwgc_new :: unit bdwgc" "0x4000" "0x3000"
        heap_of_cells "\<lambda>_. 7"]
    by (auto simp: bdwgc_new_def Un_commute)
qed

section \<open>Links\<close>

lemma load_zero_iff: "(\<forall>i < 8. m (a + word_of_nat i) = 0) \<Longrightarrow> load64 m a = 0"
  by (rule bit_word_eqI) (simp add: bit_load_bytes)

lemma retain_links_memory:
  "fst (retain_links f m dls) x =
     (if \<exists>dl \<in> set dls. \<not> f (dl_object dl) \<and> unat (x - dl_link dl) < 8 then 0 else m x)"
  by (induction f m dls rule: retain_links.induct) (auto simp: case_prod_beta Let_def store_bytes_def)

text \<open>
  Disappearing links. When the collector processes weak references, the links of unreachable
  objects are cleared and forgotten, those of reachable objects are kept, and no byte outside the
  cleared links is written. The finalizers are processed in the same pass, and it is they
  that decide whether another closure is needed.
\<close>

theorem unreachable_links_cleared:
  assumes "bdwgc_process_weak_refs G True (m, B, F) = Some (again, m', B', F')"
  shows "(\<forall>dl \<in> set (disappearing_links B). \<not> is_reachable G (collector F) (dl_object dl) \<longrightarrow> load64 m' (dl_link dl) = 0) \<and>
    disappearing_links B' = filter (\<lambda>dl. is_reachable G (collector F) (dl_object dl)) (disappearing_links B) \<and>
    (\<forall>x. (\<forall>dl \<in> set (disappearing_links B). \<not> is_reachable G (collector F) (dl_object dl) \<longrightarrow> 8 \<le> unat (x - dl_link dl)) \<longrightarrow>
       m' x = m x) \<and>
    fin_process G True F = Some (again, F')"
proof -
  let ?f = "is_reachable G (collector F)"
  have r: "m' = fst (retain_links ?f m (disappearing_links B))"
    "B' = B \<lparr> disappearing_links := filter (\<lambda>dl. ?f (dl_object dl)) (disappearing_links B) \<rparr>"
    "fin_process G True F = Some (again, F')"
    using assms by (auto simp: bdwgc_process_weak_refs_def case_prod_beta Let_def retain_links_kept split: Option.bind_splits)
  have "load64 m' (dl_link dl) = 0" if "dl \<in> set (disappearing_links B)" "\<not> ?f (dl_object dl)" for dl
  proof (rule load_zero_iff, intro allI impI)
    fix i :: nat assume "i < 8"
    then have "unat (dl_link dl + word_of_nat i - dl_link dl) < 8" by (simp add: unat_word_of_nat)
    then show "m' (dl_link dl + word_of_nat i) = 0"
      using that unfolding r(1) retain_links_memory by auto
  qed
  moreover have "m' x = m x" if "\<forall>dl \<in> set (disappearing_links B). \<not> ?f (dl_object dl) \<longrightarrow> 8 \<le> unat (x - dl_link dl)" for x
    using that unfolding r(1) retain_links_memory by (auto simp: not_less [symmetric])
  ultimately show ?thesis using r(2,3) by simp
qed

theorem unreachable_links_cleared_witness:
  "\<exists>again m' B' F'. bdwgc_process_weak_refs \<lparr> is_reachable = (\<lambda>_ ob. ob = 64), get_forwarded_object = (\<lambda>_ _. None),
       trace_object = (\<lambda>w ob. (ob, w)) \<rparr> True
     (store64 (\<lambda>_. 0) 800 128, (bdwgc_new :: unit bdwgc) \<lparr> disappearing_links :=
        [\<lparr> dl_object = 128, dl_link = 800 \<rparr>, \<lparr> dl_object = 64, dl_link = 1600 \<rparr>] \<rparr>,
      \<lparr> registered = [] :: nat finalizer list, pending = [], collector = () \<rparr>) = Some (again, m', B', F') \<and>
     load64 m' 800 = 0 \<and> disappearing_links B' = [\<lparr> dl_object = 64, dl_link = 1600 \<rparr>]"
    (is "\<exists>again m' B' F'. bdwgc_process_weak_refs ?G True (?m, ?B, ?F) = _ \<and> _")
proof -
  obtain again m' B' F' where r: "bdwgc_process_weak_refs ?G True (?m, ?B, ?F) = Some (again, m', B', F')"
    by (auto simp: bdwgc_process_weak_refs_def fin_process_def case_prod_beta Let_def)
  from unreachable_links_cleared [OF this] have "load64 m' 800 = 0" "disappearing_links B' = [\<lparr> dl_object = 64, dl_link = 1600 \<rparr>]"
    by auto
  then show ?thesis using r by blast
qed

section \<open>Objects\<close>

lemma unat_ucast_byte: "unat (ucast b :: usize) = unat b" for b :: u8
proof -
  have "unat b < 2 ^ 8" using unsigned_less [of b] by simp
  then show ?thesis by (simp add: unsigned_ucast_eq take_bit_nat_eq_self)
qed

lemma encode_zero [simp]: "lib_ok L \<Longrightarrow> sh + sz \<le> 64 \<Longrightarrow> bf_encode L sh sz 0 = 0"
  by (simp add: bf_encode_eq)

lemma malloc_metadata_eq:
  assumes "lib_ok L"
  shows "\<lparr> meta_word = encode_size L n \<rparr> = make_metadata L n Composite False"
    and "\<lparr> meta_word = encode_size L n OR encode_kind L (WithDescr k) \<rparr> = make_metadata L n (WithDescr k) False"
    and "\<lparr> meta_word = encode_size L n OR encode_kind L Composite OR encode_atomic L True \<rparr> =
      make_metadata L n Composite True"
  using assms by (simp_all add: make_metadata_def encode_kind_def encode_atomic_def or.assoc)

text \<open>What the collector will find out about an object: size, kind and atomicity.\<close>

definition carries_request :: "ext_lib \<Rightarrow> memory \<Rightarrow> vmkit_object \<Rightarrow> usize \<Rightarrow> object_kind \<Rightarrow> bool \<Rightarrow> bool" where
  "carries_request L m obj sz k b \<longleftrightarrow> (\<exists>md. bdwgc_metadata_of L m obj = Some md \<and>
     unat (md_size L md) = 8 * (unat sz div 8) \<and> md_kind L md = k \<and> md_is_atomic L md = b \<and>
     object_hash_state L m obj = Some Unhashed)"

lemma allocate_carries:
  assumes "lib_ok L" and "unat sz < 2 ^ 40" and "kind_fits k"
    and "fast_path (bdwgc_layout L) S sz (2 ^ 3) Default"
    and "request_fits (tl_tlab (mm_thread S)) (raw_align_up L (sz + 8) (2 ^ 3), 3, OBJECT_REF_OFFSET)"
    and "allocate (bdwgc_layout L) K S sz 8 (make_metadata L (sz div 8) k b) Default = Some (obj, S')"
    and "8 \<le> unat (VO_BIT_SIDE_METADATA_ADDR K + drop_bit 6 obj - (obj - 8))" and "obj \<noteq> 0"
  shows "carries_request L (mm_mem S') obj sz k b"
proof -
  have n: "unat (sz div 8) = unat sz div 8" by (simp add: unat_div)
  then have small: "unat (sz div 8) < 2 ^ 37" using assms(2) by simp
  note o = fast_path_object [OF hashing_bdwgc [OF assms(1)] storable_metadata [OF assms(1) small assms(3)] assms(4)]
  have "obj_metadata (bdwgc_layout L) (mm_mem S') obj = Some (make_metadata L (sz div 8) k b) \<and>
      object_hash_state L (mm_mem S') obj = Some Unhashed"
    using o [OF _ _ assms(7,8), of b] assms(5,6) by (simp add: object_hash_state_def)
  moreover have "unat (sz div 8 * 8) = 8 * (unat sz div 8)"
    using small by (subst unat_mult_lem [THEN iffD1]) (simp_all add: n)
  ultimately show ?thesis
    using metadata_fields [OF assms(1) small assms(3), of b] by (simp add: carries_request_def)
qed



text \<open>
  \<open>GC_size\<close> counts the header. The number of bytes it answers for an object, counted from
  the pointer the program has, goes one word, or two for a moved object with a hash word,
  beyond the end of the object's memory.
\<close>

theorem gc_size_exceeds_object:
  assumes "lib_ok L" and "bdwgc_metadata_of L m obj = Some md" and "object_hash_state L m obj = Some st"
    and "find_object_from_internal_pointer H obj 128 = Some obj"
  shows "\<exists>n start used. GC_size L H m obj = Some n \<and> object_start (bdwgc_layout L) m obj = Some start \<and>
    bytes_used (bdwgc_layout L) m obj = Some used \<and> obj + n = (start + used) + 8 + hash_word st"
  using object_layout(1,2) [OF assms(1-3)] assms(4) by (simp add: GC_size_def)

theorem gc_size_exceeds_object_witness:
  "\<exists>n. GC_size std_lib heap_of_cells (obj_store_header (\<lambda>_. 0) 65536 2) 65536 = Some n \<and> 65536 + n = 65528 + 24 + (8 :: usize)"
proof -
  let ?m = "obj_store_header (\<lambda>_. 0) 65536 2" and ?md = "\<lparr> meta_word = 2 \<rparr>"
  have md: "bdwgc_metadata_of std_lib ?m 65536 = Some ?md"
    by (simp add: bdwgc_metadata_of_def) (simp add: std_lib_def)
  have st: "object_hash_state std_lib ?m 65536 = Some Unhashed"
    by (simp add: object_hash_state_def header_hash_state_def) (simp add: std_lib_def)
  have "md_size std_lib ?md = 16" by (simp add: md_size_def std_lib_def)
  then have u: "bytes_used (bdwgc_layout std_lib) ?m 65536 = Some 24" "object_start (bdwgc_layout std_lib) ?m 65536 = Some 65528"
    using object_layout(1,2) [OF lib_ok_std_lib md st] by (simp_all add: hash_word_def)
  have "find_object_from_internal_pointer heap_of_cells 65536 128 = Some 65536" by (simp add: heap_of_cells_def)
  from gc_size_exceeds_object [OF lib_ok_std_lib md st this] u show ?thesis by (auto simp: hash_word_def)
qed

text \<open>
  Reallocation. \<open>GC_realloc\<close> of null panics. Otherwise the new object is atomic if the old one
  was, and gets the bytes behind the old pointer, as many as the new size says, also when the
  old object is smaller; nothing else changes after the allocation.
\<close>

theorem realloc_copies_contents:
  assumes "GC_realloc L K S old sz = Some (new, S')"
  shows "old \<noteq> 0 \<and> (\<exists>md S1. bdwgc_metadata_of L (mm_mem S) old = Some md \<and>
    (if md_is_atomic L md then GC_malloc_atomic L K S sz else GC_malloc L K S sz) = Some (new, S1) \<and>
    (\<forall>i < sz. mm_mem S' (new + i) = mm_mem S1 (old + i)) \<and>
    (\<forall>x. \<not> x - new < sz \<longrightarrow> mm_mem S' x = mm_mem S1 x) \<and>
    mm_mmtk S' = mm_mmtk S1 \<and> mm_thread S' = mm_thread S1)"
proof -
  obtain md S1 where md: "bdwgc_metadata_of L (mm_mem S) old = Some md"
    and a: "(if md_is_atomic L md then GC_malloc_atomic L K S sz else GC_malloc L K S sz) = Some (new, S1)"
    and S': "S' = S1 \<lparr> mm_mem := copy_bytes (mm_mem S1) old new sz \<rparr>"
    using assms by (auto simp: GC_realloc_def split: Option.bind_splits)
  moreover have "old \<noteq> 0"
    using md by (auto simp: bdwgc_metadata_of_def obj_header_Some_iff)
  ultimately show ?thesis by (intro conjI exI [of _ md] exI [of _ S1]) (simp_all add: copy_bytes_def)
qed

theorem realloc_copies_contents_witness:
  "\<exists>S' S1. GC_realloc std_lib bump_mmtk (bump_state \<lparr> mm_mem := obj_store_header (\<lambda>x. ucast x) 65536 2 \<rparr>) 65536 24 = Some (4104, S') \<and>
     mm_mem S' (4104 + 20) = mm_mem S1 (65536 + 20) \<and>
     GC_malloc std_lib bump_mmtk (bump_state \<lparr> mm_mem := obj_store_header (\<lambda>x. ucast x) 65536 2 \<rparr>) 24 = Some (4104, S1)"
proof -
  let ?S = "bump_state \<lparr> mm_mem := obj_store_header (\<lambda>x. ucast x) 65536 2 \<rparr>"
  have md: "bdwgc_metadata_of std_lib (mm_mem ?S) 65536 = Some \<lparr> meta_word = 2 \<rparr>"
    by (simp add: bdwgc_metadata_of_def) (simp add: std_lib_def)
  have at: "\<not> md_is_atomic std_lib \<lparr> meta_word = 2 \<rparr>" by (simp add: md_is_atomic_def std_lib_def)
  have n: "raw_align_up std_lib (24 + 8) (2 ^ 3) = 32" by (simp add: std_lib_def)
  have t: "tlab_allocate std_lib (tl_tlab (mm_thread ?S)) (raw_align_up std_lib (24 + 8) (2 ^ 3)) (2 ^ 3)
      OBJECT_REF_OFFSET = (4096, \<lparr> cursor = 4128, limit = 8192 \<rparr>)"
    unfolding n by (simp add: tlab_allocate_def align_allocation_no_fill_def std_lib_def OBJECT_REF_OFFSET_def)
  then have p: "fast_path (bdwgc_layout std_lib) ?S 24 (2 ^ 3) Default"
    by (simp add: fast_path_def choose_semantics_def)
  obtain S1 where S1: "GC_malloc std_lib bump_mmtk ?S 24 = Some (4104, S1)"
    using allocate_fast [OF p, of 4096] t by (simp add: GC_malloc_def OBJECT_REF_OFFSET_def)
  then have r: "GC_realloc std_lib bump_mmtk ?S 65536 24 =
      Some (4104, S1 \<lparr> mm_mem := copy_bytes (mm_mem S1) 65536 4104 24 \<rparr>)"
    using md at by (simp add: GC_realloc_def)
  have e: "\<forall>i < 24. mm_mem (S1 \<lparr> mm_mem := copy_bytes (mm_mem S1) 65536 4104 24 \<rparr>) (4104 + i) = mm_mem S1 (65536 + i)"
    using realloc_copies_contents [OF r] md at S1 by auto
  show ?thesis
    by (intro exI conjI, rule r, rule e [rule_format], simp, rule S1)
qed

section \<open>Strings\<close>

lemma to_string_lossy_ascii: "\<forall>b \<in> set bs. b < 0x80 \<Longrightarrow> to_string_lossy bs = bs"
  by (induction bs) (simp_all add: utf8_width_def sequence_length_def split: list.split)

text \<open>
  \<open>GC_strdup\<close> stores the bytes of the string and no terminator: the byte behind them is what
  the allocation left there.
\<close>

lemma strdup_unterminated:
  assumes "GC_strdup L K S s = Some (ns, S')" and "s \<noteq> 0" and "c_string (mm_mem S) s = Some str"
    and "\<forall>b \<in> set str. b < 0x80" and "length str < 2 ^ 63"
  shows "\<exists>S1. GC_malloc_atomic L K S (word_of_nat (length str)) = Some (ns, S1) \<and>
    (\<forall>i < length str. mm_mem S' (ns + word_of_nat i) = str ! i) \<and>
    mm_mem S' (ns + word_of_nat (length str)) = mm_mem S1 (ns + word_of_nat (length str))"
proof -
  have "unat (word_of_nat i :: usize) = i" if "i \<le> length str" for i
    using that assms(5) by (intro unat_word_of_nat) simp
  then show ?thesis
    using assms(1-3) by (auto simp: GC_strdup_def to_string_lossy_ascii [OF assms(4)] store_list_def Let_def
        split: Option.bind_splits)
qed

end
