(* ===== verification/Vmkit_BdwgcSettings.thy ===== *)
theory Vmkit_BdwgcSettings
  imports Vmkit_Prelude
begin

text \<open>
  \<open>bdwgc_shim.rs\<close>, third part: the settings and the statistics of the C interface. Most settings
  of the Boehm collector have no counterpart in mmtk: their setters do nothing and their getters
  answer a constant. What mmtk reports about the heap is a record of numbers.
\<close>

section \<open>Settings with an effect\<close>

record 'fn settings =
  mmtk_threads :: usize
  oom_func :: "'fn option"
  dont_precollect :: i32

text \<open>mmtk's options check a value before they take it.\<close>

definition GC_get_parallel :: "'fn settings \<Rightarrow> i32" where
  "GC_get_parallel B = ucast (mmtk_threads B)"

definition GC_set_markers_count :: "(usize \<Rightarrow> bool) \<Rightarrow> i32 \<Rightarrow> 'fn settings \<Rightarrow> 'fn settings" where
  "GC_set_markers_count accepts cnt B =
     (if accepts (scast cnt) then B \<lparr> mmtk_threads := scast cnt \<rparr> else B)"

definition GC_set_oom_fn :: "'fn \<Rightarrow> 'fn settings \<Rightarrow> 'fn settings" where
  "GC_set_oom_fn func B = B \<lparr> oom_func := Some func \<rparr>"

definition GC_get_oom_fn :: "'fn settings \<Rightarrow> 'fn option" where
  "GC_get_oom_fn B = oom_func B"

text \<open>What happens when memory runs out: a call of the function, or the end of the process.\<close>

datatype 'fn oom_action = CallOomFunc 'fn usize | ExitProcess i32

definition bdwgc_out_of_memory :: "'fn settings \<Rightarrow> 'fn oom_action" where
  "bdwgc_out_of_memory B = (case oom_func B of Some func \<Rightarrow> CallOomFunc func 0 | None \<Rightarrow> ExitProcess 1)"

definition GC_set_dont_precollect :: "i32 \<Rightarrow> 'fn settings \<Rightarrow> 'fn settings" where
  "GC_set_dont_precollect v B = B \<lparr> dont_precollect := v \<rparr>"

definition GC_get_dont_precollect :: "'fn settings \<Rightarrow> i32" where
  "GC_get_dont_precollect B = dont_precollect B"

section \<open>Settings without an effect\<close>

record gc_timeval =
  tv_sec :: usize
  tv_usec :: usize

definition GC_set_find_leak :: "i32 \<Rightarrow> 'fn settings \<Rightarrow> 'fn settings" where
  "GC_set_find_leak v B = B"

definition GC_set_all_interior_pointers :: "i32 \<Rightarrow> 'fn settings \<Rightarrow> 'fn settings" where
  "GC_set_all_interior_pointers v B = B"

definition GC_set_finalize_on_demand :: "i32 \<Rightarrow> 'fn settings \<Rightarrow> 'fn settings" where
  "GC_set_finalize_on_demand v B = B"

definition GC_set_full_freq :: "i32 \<Rightarrow> 'fn settings \<Rightarrow> 'fn settings" where
  "GC_set_full_freq v B = B"

definition GC_set_non_gc_bytes :: "usize \<Rightarrow> 'fn settings \<Rightarrow> 'fn settings" where
  "GC_set_non_gc_bytes v B = B"

definition GC_set_no_dls :: "i32 \<Rightarrow> 'fn settings \<Rightarrow> 'fn settings" where
  "GC_set_no_dls v B = B"

definition GC_set_free_space_divisor :: "usize \<Rightarrow> 'fn settings \<Rightarrow> 'fn settings" where
  "GC_set_free_space_divisor v B = B"

definition GC_set_max_retries :: "usize \<Rightarrow> 'fn settings \<Rightarrow> 'fn settings" where
  "GC_set_max_retries v B = B"

definition GC_set_time_limit :: "usize \<Rightarrow> 'fn settings \<Rightarrow> 'fn settings" where
  "GC_set_time_limit v B = B"

definition GC_set_time_limit_tv :: "gc_timeval \<Rightarrow> 'fn settings \<Rightarrow> 'fn settings" where
  "GC_set_time_limit_tv v B = B"

definition GC_set_allocd_bytes_per_finalizer :: "usize \<Rightarrow> 'fn settings \<Rightarrow> 'fn settings" where
  "GC_set_allocd_bytes_per_finalizer v B = B"

definition GC_set_pages_executable :: "i32 \<Rightarrow> 'fn settings \<Rightarrow> 'fn settings" where
  "GC_set_pages_executable v B = B"

definition GC_set_min_bytes_allocd :: "usize \<Rightarrow> 'fn settings \<Rightarrow> 'fn settings" where
  "GC_set_min_bytes_allocd v B = B"

definition GC_set_max_prior_attempts :: "i32 \<Rightarrow> 'fn settings \<Rightarrow> 'fn settings" where
  "GC_set_max_prior_attempts v B = B"

definition GC_set_handle_fork :: "i32 \<Rightarrow> 'fn settings \<Rightarrow> 'fn settings" where
  "GC_set_handle_fork v B = B"

definition GC_register_displacement :: "usize \<Rightarrow> 'fn settings \<Rightarrow> 'fn settings" where
  "GC_register_displacement v B = B"

definition GC_debug_register_displacement :: "usize \<Rightarrow> 'fn settings \<Rightarrow> 'fn settings" where
  "GC_debug_register_displacement v B = B"

definition GC_expand_hp :: "usize \<Rightarrow> 'fn settings \<Rightarrow> 'fn settings" where
  "GC_expand_hp v B = B"

definition GC_get_find_leak :: i32 where
  "GC_get_find_leak = 0"

definition GC_get_all_interior_pointers :: i32 where
  "GC_get_all_interior_pointers = 1"

definition GC_get_finalize_on_demand :: i32 where
  "GC_get_finalize_on_demand = 0"

definition GC_get_full_freq :: i32 where
  "GC_get_full_freq = 0"

definition GC_get_non_gc_bytes :: usize where
  "GC_get_non_gc_bytes = 0"

definition GC_get_no_dls :: i32 where
  "GC_get_no_dls = 0"

definition GC_get_free_space_divisor :: usize where
  "GC_get_free_space_divisor = 0"

definition GC_get_max_retries :: usize where
  "GC_get_max_retries = 0"

definition GC_get_time_limit :: usize where
  "GC_get_time_limit = 0"

definition GC_get_allocd_bytes_per_finalizer :: usize where
  "GC_get_allocd_bytes_per_finalizer = 0"

definition GC_get_full_gc_total_time :: usize where
  "GC_get_full_gc_total_time = 0"

definition GC_get_stopped_mark_total_time :: usize where
  "GC_get_stopped_mark_total_time = 0"

definition GC_get_avg_stopped_mark_time_ns :: usize where
  "GC_get_avg_stopped_mark_time_ns = 0"

definition GC_get_pages_executable :: i32 where
  "GC_get_pages_executable = 0"

definition GC_get_min_bytes_allocd :: usize where
  "GC_get_min_bytes_allocd = 0"

definition GC_get_max_prior_attempts :: i32 where
  "GC_get_max_prior_attempts = 0"

definition GC_get_expl_freed_bytes_since_gc :: usize where
  "GC_get_expl_freed_bytes_since_gc = 0"

definition GC_get_time_limit_tv :: gc_timeval where
  "GC_get_time_limit_tv = \<lparr> tv_sec = 0, tv_usec = 0 \<rparr>"

definition GC_get_stop_func :: "'fn option" where
  "GC_get_stop_func = None"

section \<open>Statistics\<close>

record heap_statistics =
  total_bytes :: usize
  used_bytes :: usize
  free_bytes :: usize
  live_bytes_in_last_gc :: "usize list"

definition GC_get_heap_size :: "heap_statistics \<Rightarrow> usize" where
  "GC_get_heap_size st = used_bytes st"

definition GC_get_free_bytes :: "heap_statistics \<Rightarrow> usize" where
  "GC_get_free_bytes st = free_bytes st"

definition GC_get_unmapped_bytes :: "heap_statistics \<Rightarrow> usize" where
  "GC_get_unmapped_bytes st = (let total = total_bytes st; used = used_bytes st in total - used)"

text \<open>The live bytes of each space; the other statistics of a space are not read.\<close>

definition GC_get_bytes_since_gc :: "heap_statistics \<Rightarrow> usize" where
  "GC_get_bytes_since_gc st = foldl (\<lambda>x stats. stats + x) 0 (live_bytes_in_last_gc st)"

definition GC_get_total_bytes :: "heap_statistics \<Rightarrow> usize" where
  "GC_get_total_bytes st = total_bytes st"

section \<open>Collections\<close>

text \<open>mmtk's answer to a request for a collection, and its effect, are a parameter.\<close>

type_synonym 'g collection_request = "'g \<Rightarrow> bool \<times> 'g"

definition request_gc :: "'g collection_request \<Rightarrow> 'g \<Rightarrow> bool \<times> 'g" where
  "request_gc handle_user_collection_request g = handle_user_collection_request g"

definition GC_gcollect :: "'g collection_request \<Rightarrow> 'g \<Rightarrow> 'g" where
  "GC_gcollect handle g = snd (request_gc handle g)"

definition GC_gcollect_and_unmap :: "'g collection_request \<Rightarrow> 'g \<Rightarrow> 'g" where
  "GC_gcollect_and_unmap handle g = GC_gcollect handle g"

definition GC_collect_a_little :: "'g collection_request \<Rightarrow> 'g \<Rightarrow> 'g" where
  "GC_collect_a_little handle g = GC_gcollect handle g"

definition GC_try_to_collect :: "'g collection_request \<Rightarrow> 'g \<Rightarrow> i32 \<times> 'g" where
  "GC_try_to_collect handle g = (let (done, g) = request_gc handle g in (if done then 1 else 0, g))"

lemma heap_size_accounts:
  "GC_get_heap_size st + GC_get_unmapped_bytes st = GC_get_total_bytes st"
  by (simp add: GC_get_heap_size_def GC_get_unmapped_bytes_def GC_get_total_bytes_def)

lemma markers_count_read_back:
  assumes "accepts (scast cnt)"
  shows "GC_get_parallel (GC_set_markers_count accepts cnt B) = cnt"
  using assms
  by (simp add: GC_get_parallel_def GC_set_markers_count_def) (rule bit_word_eqI, simp add: bit_simps)

end
