(* ===== verification/Vmkit_Suspend.thy ===== *)
theory Vmkit_Suspend
  imports Vmkit_ThreadManager Vmkit_Roots
begin

text \<open>
  The suspension of threads by signals (\<open>threading.rs\<close>), which the uncooperative mode uses instead
  of yieldpoints. The caller of \<open>suspend\<close> or \<open>resume\<close> holds the global suspension lock, so
  there is one at a time; it sends a signal and waits on a global semaphore. The handler runs on
  the target thread: for a suspension it saves its stack pointer, posts the semaphore and
  sleeps in \<open>sigsuspend\<close> until the signal of \<open>resume\<close> comes. The signal is blocked while the
  handler runs, except in \<open>sigsuspend\<close>. Delivery of signals and the stack pointer at that time
  are the platform's, so they are arguments; the saved registers are not kept.
\<close>

section \<open>State\<close>

text \<open>
  Where a thread is: in its own code, in the handler between posting and \<open>sigsuspend\<close> (with the
  thread the handler took from \<open>TARGET_THREAD\<close>), in \<open>sigsuspend\<close>, or after it.
\<close>

datatype run_phase = Executing | InHandler thread_ref | Sleeping | Woken

datatype suspender = SuspenderIdle | Suspending thread_ref | Resuming thread_ref

record 'g suspension =
  su_thread :: "thread_ref \<Rightarrow> barrier_selector thread"
  su_mutator :: "thread_ref \<Rightarrow> 'g"
  su_phase :: "thread_ref \<Rightarrow> run_phase"
  su_pending :: "thread_ref \<Rightarrow> bool"
  su_mem :: memory
  TARGET_THREAD :: "thread_ref option"
  su_semaphore :: semaphore
  su_caller :: suspender

definition su_set :: "thread_ref \<Rightarrow> barrier_selector thread \<Rightarrow> 'g suspension \<Rightarrow> 'g suspension" where
  "su_set r t S = S \<lparr> su_thread := (su_thread S)(r := t) \<rparr>"

text \<open>What \<open>pthread_kill\<close> answers: 0, \<open>ESRCH\<close>, or another error.\<close>

datatype kill_result = Delivered | NoSuchThread | OtherError

definition send_signal :: "kill_result \<Rightarrow> thread_ref \<Rightarrow> 'g suspension \<Rightarrow> 'g suspension" where
  "send_signal k r S = (if k = Delivered then S \<lparr> su_pending := (su_pending S)(r := True) \<rparr> else S)"

section \<open>Suspending\<close>

text \<open>
  A function that waits on the semaphore is split there. It answers what it returns, or
  \<^const>\<open>None\<close> while it waits. The native thread is established already.
\<close>

definition signal_and_wait :: "kill_result \<Rightarrow> thread_ref \<Rightarrow> 'g suspension \<Rightarrow> bool option \<times> 'g suspension" where
  "signal_and_wait k r S =
     (if k \<noteq> Delivered then (Some False, S \<lparr> su_caller := SuspenderIdle \<rparr>)
      else (None, (send_signal k r S) \<lparr> su_caller := Suspending r \<rparr>))"

definition count_suspension :: "thread_ref \<Rightarrow> 'g suspension \<Rightarrow> 'g suspension" where
  "count_suspension r S =
     su_set r ((su_thread S r) \<lparr> suspend_count := suspend_count (su_thread S r) + 1 \<rparr>) S \<lparr> su_caller := SuspenderIdle \<rparr>"

definition suspend_begin :: "kill_result \<Rightarrow> thread_ref \<Rightarrow> 'g suspension \<Rightarrow> bool option \<times> 'g suspension" where
  "suspend_begin k r S =
     (if suspend_count (su_thread S r) = 0 then signal_and_wait k r (S \<lparr> TARGET_THREAD := Some r \<rparr>)
      else (Some True, count_suspension r S))"

definition suspend_woken :: "kill_result \<Rightarrow> thread_ref \<Rightarrow> 'g suspension \<Rightarrow> (bool option \<times> 'g suspension) option" where
  "suspend_woken k r S =
     (case sem_wait (su_semaphore S) of
        Proceeds sem \<Rightarrow>
          (let S = S \<lparr> su_semaphore := sem \<rparr>
           in Some (if stack_pointer (su_thread S r) \<noteq> 0 then (Some True, count_suspension r S)
                    else signal_and_wait k r S))
      | _ \<Rightarrow> None)"

section \<open>Resuming\<close>

definition uncount_suspension :: "thread_ref \<Rightarrow> 'g suspension \<Rightarrow> 'g suspension" where
  "uncount_suspension r S =
     su_set r ((su_thread S r) \<lparr> suspend_count := suspend_count (su_thread S r) - 1 \<rparr>) S \<lparr> su_caller := SuspenderIdle \<rparr>"

definition resume_begin :: "kill_result \<Rightarrow> thread_ref \<Rightarrow> 'g suspension \<Rightarrow> 'g suspension" where
  "resume_begin k r S =
     (if suspend_count (su_thread S r) = 1
      then (let S = S \<lparr> TARGET_THREAD := Some r \<rparr>
            in if k = NoSuchThread then S \<lparr> su_caller := SuspenderIdle \<rparr>
               else (send_signal k r S) \<lparr> su_caller := Resuming r \<rparr>)
      else uncount_suspension r S)"

definition resume_woken :: "thread_ref \<Rightarrow> 'g suspension \<Rightarrow> 'g suspension option" where
  "resume_woken r S =
     (case sem_wait (su_semaphore S) of
        Proceeds sem \<Rightarrow> Some (uncount_suspension r (S \<lparr> su_semaphore := sem \<rparr>))
      | _ \<Rightarrow> None)"

section \<open>The handler\<close>

definition su_post :: "nat \<Rightarrow> 'g suspension \<Rightarrow> 'g suspension option" where
  "su_post SEM_VALUE_MAX S =
     (case sem_post SEM_VALUE_MAX (su_semaphore S) of
        Proceeds sem \<Rightarrow> Some (S \<lparr> su_semaphore := sem \<rparr>)
      | _ \<Rightarrow> None)"

text \<open>The handler empties the allocation buffer of the thread it takes from \<open>TARGET_THREAD\<close>.\<close>

definition su_flush :: "'g mmtk \<Rightarrow> thread_ref \<Rightarrow> 'g suspension \<Rightarrow> 'g suspension option" where
  "su_flush K r S = map_option
     (\<lambda>M. (su_set r (mm_thread M) S) \<lparr> su_mutator := (su_mutator S)(r := mm_mmtk M), su_mem := mm_mem M \<rparr>)
     (flush_tlab K \<lparr> mm_thread = su_thread S r, mm_mmtk = su_mutator S r, mm_mem = su_mem S \<rparr>)"

text \<open>
  The handler on thread \<^term>\<open>w\<close> with stack pointer \<^term>\<open>sp\<close>. If the thread is counted as suspended,
  this is the signal that ends \<open>sigsuspend\<close>.
\<close>

definition signal_handler ::
  "'g mmtk \<Rightarrow> nat \<Rightarrow> (thread_ref \<Rightarrow> stack_bounds) \<Rightarrow> address \<Rightarrow> thread_ref \<Rightarrow> 'g suspension \<Rightarrow> 'g suspension option" where
  "signal_handler K SEM_VALUE_MAX bounds sp w S = do {
     target \<leftarrow> TARGET_THREAD S;
     S \<leftarrow> su_flush K target (S \<lparr> su_pending := (su_pending S)(w := False) \<rparr>);
     if suspend_count (su_thread S target) \<noteq> 0
     then Some (if su_phase S w = Sleeping then S \<lparr> su_phase := (su_phase S)(w := Woken) \<rparr> else S)
     else if \<not> sb_contains (bounds target) sp
     then su_post SEM_VALUE_MAX (su_set target ((su_thread S target) \<lparr> stack_pointer := 0 \<rparr>) S)
     else map_option (\<lambda>S. S \<lparr> su_phase := (su_phase S)(w := InHandler target) \<rparr>)
            (su_post SEM_VALUE_MAX (su_set target ((su_thread S target) \<lparr> stack_pointer := sp \<rparr>) S))
   }"

definition handler_sleep ::
  "barrier_selector block_adapter list \<Rightarrow> thread_ref \<Rightarrow> thread_ref \<Rightarrow> 'g suspension \<Rightarrow> 'g suspension" where
  "handler_sleep Xs w target S =
     (su_set target (acknowledge_block_requests Xs (su_thread S target)) S)
       \<lparr> su_phase := (su_phase S)(w := Sleeping) \<rparr>"

definition handler_finish :: "nat \<Rightarrow> thread_ref \<Rightarrow> 'g suspension \<Rightarrow> 'g suspension option" where
  "handler_finish SEM_VALUE_MAX w S = do {
     target \<leftarrow> TARGET_THREAD S;
     S \<leftarrow> su_post SEM_VALUE_MAX (su_set target ((su_thread S target) \<lparr> stack_pointer := 0 \<rparr>) S);
     Some (S \<lparr> su_phase := (su_phase S)(w := Executing) \<rparr>)
   }"

section \<open>Whole operations\<close>

text \<open>
  \<open>suspend\<close> and \<open>resume\<close> with their waits: \<^term>\<open>env\<close> is what all other threads do until the caller
  looks at the semaphore again, \<^term>\<open>kill\<close> what \<open>pthread_kill\<close> answers.
\<close>

partial_function (option) suspend_wait ::
  "('g suspension \<Rightarrow> 'g suspension) \<Rightarrow> ('g suspension \<Rightarrow> kill_result) \<Rightarrow> thread_ref \<Rightarrow> 'g suspension
     \<Rightarrow> (bool \<times> 'g suspension) option" where
  "suspend_wait env kill r S =
     (case suspend_woken (kill S) r S of
        None \<Rightarrow> suspend_wait env kill r (env S)
      | Some (None, S) \<Rightarrow> suspend_wait env kill r (env S)
      | Some (Some b, S) \<Rightarrow> Some (b, S))"

definition suspend ::
  "('g suspension \<Rightarrow> 'g suspension) \<Rightarrow> ('g suspension \<Rightarrow> kill_result) \<Rightarrow> thread_ref \<Rightarrow> 'g suspension
     \<Rightarrow> (bool \<times> 'g suspension) option" where
  "suspend env kill r S =
     (case suspend_begin (kill S) r S of
        (Some b, S) \<Rightarrow> Some (b, S)
      | (None, S) \<Rightarrow> suspend_wait env kill r (env S))"

partial_function (option) resume_wait ::
  "('g suspension \<Rightarrow> 'g suspension) \<Rightarrow> thread_ref \<Rightarrow> 'g suspension \<Rightarrow> 'g suspension option" where
  "resume_wait env r S =
     (case resume_woken r S of
        None \<Rightarrow> resume_wait env r (env S)
      | Some S \<Rightarrow> Some S)"

definition resume ::
  "('g suspension \<Rightarrow> 'g suspension) \<Rightarrow> ('g suspension \<Rightarrow> kill_result) \<Rightarrow> thread_ref \<Rightarrow> 'g suspension
     \<Rightarrow> 'g suspension option" where
  "resume env kill r S =
     (let S = resume_begin (kill S) r S
      in if su_caller S = Resuming r then resume_wait env r (env S) else Some S)"

text \<open>The loops over the registered threads when all mutators are stopped and resumed.\<close>

fun suspend_each ::
  "('g suspension \<Rightarrow> 'g suspension) \<Rightarrow> ('g suspension \<Rightarrow> kill_result) \<Rightarrow> thread_ref list \<Rightarrow> 'g suspension
     \<Rightarrow> (thread_ref list \<times> 'g suspension) option" where
  "suspend_each env kill [] S = Some ([], S)"
| "suspend_each env kill (r # rs) S =
     (let t = su_thread S r
      in if \<not> has_collector_context t \<and> \<not> ignore_handshakes_and_gc t \<and> \<not> is_about_to_terminate t
         then do {
           (_, S) \<leftarrow> suspend env kill r S;
           (handshake_threads, S) \<leftarrow> suspend_each env kill rs S;
           Some (r # handshake_threads, S)
         }
         else suspend_each env kill rs S)"

fun resume_each ::
  "slot \<Rightarrow> ('g suspension \<Rightarrow> 'g suspension) \<Rightarrow> ('g suspension \<Rightarrow> kill_result) \<Rightarrow> thread_ref list \<Rightarrow> 'g suspension
     \<Rightarrow> 'g suspension option" where
  "resume_each me env kill [] S = Some S"
| "resume_each me env kill (r # rs) S =
     (let t = su_thread S r
      in if \<not> has_collector_context t \<and> \<not> ignore_handshakes_and_gc t
         then do {
           S \<leftarrow> resume env kill r S;
           S \<leftarrow> (if is_blocked_for_gc (su_thread S r)
                 then Option.bind (unblock GCBlockAdapter me (su_thread S r)) (\<lambda>t. Some (su_set r t S))
                 else Some S);
           resume_each me env kill rs S
         }
         else resume_each me env kill rs S)"

section \<open>All interleavings\<close>

text \<open>
  The caller suspends or resumes any threads, in any order; a thread is resumed only if it is
  suspended, and is not suspended \<open>2 ^ 64\<close> times. A thread that executes its own code does not
  change the fields of the protocol.
\<close>

inductive susp_step ::
  "barrier_selector block_adapter list \<Rightarrow> 'g mmtk \<Rightarrow> nat \<Rightarrow> (thread_ref \<Rightarrow> stack_bounds)
     \<Rightarrow> 'g suspension \<Rightarrow> 'g suspension \<Rightarrow> bool"
  for Xs :: "barrier_selector block_adapter list" and K :: "'g mmtk" and maxv :: nat
    and bounds :: "thread_ref \<Rightarrow> stack_bounds" where
  suspend: "su_caller S = SuspenderIdle \<Longrightarrow> suspend_count (su_thread S r) \<noteq> - 1 \<Longrightarrow> suspend_begin k r S = (res, S') \<Longrightarrow>
    susp_step Xs K maxv bounds S S'"
| suspend_wake: "su_caller S = Suspending r \<Longrightarrow> suspend_woken k r S = Some (res, S') \<Longrightarrow> susp_step Xs K maxv bounds S S'"
| resume: "su_caller S = SuspenderIdle \<Longrightarrow> suspend_count (su_thread S r) \<noteq> 0 \<Longrightarrow>
    susp_step Xs K maxv bounds S (resume_begin k r S)"
| resume_wake: "su_caller S = Resuming r \<Longrightarrow> resume_woken r S = Some S' \<Longrightarrow> susp_step Xs K maxv bounds S S'"
| handle: "su_pending S w \<Longrightarrow> su_phase S w = Executing \<or> su_phase S w = Sleeping \<Longrightarrow>
    signal_handler K maxv bounds sp w S = Some S' \<Longrightarrow> susp_step Xs K maxv bounds S S'"
| sleep: "su_phase S w = InHandler t \<Longrightarrow> susp_step Xs K maxv bounds S (handler_sleep Xs w t S)"
| finish: "su_phase S w = Woken \<Longrightarrow> handler_finish maxv w S = Some S' \<Longrightarrow> susp_step Xs K maxv bounds S S'"

text \<open>At the start no thread is suspended; the saved stack pointers are arbitrary.\<close>

definition unsuspended :: "'g suspension \<Rightarrow> bool" where
  "unsuspended S \<longleftrightarrow> su_caller S = SuspenderIdle \<and> sem_value (su_semaphore S) = 0 \<and>
     (\<forall>w. su_phase S w = Executing \<and> \<not> su_pending S w \<and> suspend_count (su_thread S w) = 0)"

inductive susp_reachable ::
  "barrier_selector block_adapter list \<Rightarrow> 'g mmtk \<Rightarrow> nat \<Rightarrow> (thread_ref \<Rightarrow> stack_bounds) \<Rightarrow> 'g suspension \<Rightarrow> bool"
  for Xs :: "barrier_selector block_adapter list" and K :: "'g mmtk" and maxv :: nat
    and bounds :: "thread_ref \<Rightarrow> stack_bounds" where
  initial: "unsuspended S \<Longrightarrow> susp_reachable Xs K maxv bounds S"
| step: "susp_reachable Xs K maxv bounds S \<Longrightarrow> susp_step Xs K maxv bounds S S' \<Longrightarrow> susp_reachable Xs K maxv bounds S'"

section \<open>The invariant\<close>

definition stopped_phase :: "run_phase \<Rightarrow> bool" where
  "stopped_phase p \<longleftrightarrow> p = Sleeping \<or> (\<exists>t. p = InHandler t)"

lemma stopped_phase_simps [simp]:
  "stopped_phase Sleeping" "stopped_phase (InHandler t)" "\<not> stopped_phase Executing" "\<not> stopped_phase Woken"
  by (simp_all add: stopped_phase_def)

text \<open>A thread nobody is suspending or resuming at the moment.\<close>

definition at_rest :: "'g suspension \<Rightarrow> thread_ref \<Rightarrow> bool" where
  "at_rest S w \<longleftrightarrow> \<not> su_pending S w \<and>
     (if suspend_count (su_thread S w) = 0 then su_phase S w = Executing else stopped_phase (su_phase S w))"

definition others_rest :: "'g suspension \<Rightarrow> thread_ref \<Rightarrow> bool" where
  "others_rest S r \<longleftrightarrow> (\<forall>w. w \<noteq> r \<longrightarrow> at_rest S w)"

definition subject_inv :: "'g suspension \<Rightarrow> suspender \<Rightarrow> bool" where
  "subject_inv S c = (case c of
     SuspenderIdle \<Rightarrow> sem_value (su_semaphore S) = 0 \<and> (\<forall>w. at_rest S w)
   | Suspending r \<Rightarrow> TARGET_THREAD S = Some r \<and> suspend_count (su_thread S r) = 0 \<and> others_rest S r \<and>
       (su_pending S r \<and> su_phase S r = Executing \<and> sem_value (su_semaphore S) = 0 \<or>
        \<not> su_pending S r \<and> sem_value (su_semaphore S) = 1 \<and>
          (if stack_pointer (su_thread S r) = 0 then su_phase S r = Executing else stopped_phase (su_phase S r)))
   | Resuming r \<Rightarrow> TARGET_THREAD S = Some r \<and> suspend_count (su_thread S r) = 1 \<and> others_rest S r \<and>
       (stopped_phase (su_phase S r) \<and> sem_value (su_semaphore S) = 0 \<or>
        \<not> su_pending S r \<and> su_phase S r = Woken \<and> sem_value (su_semaphore S) = 0 \<or>
        \<not> su_pending S r \<and> su_phase S r = Executing \<and> sem_value (su_semaphore S) = 1))"

definition own_handler :: "'g suspension \<Rightarrow> bool" where
  "own_handler S \<longleftrightarrow> (\<forall>w t. su_phase S w = InHandler t \<longrightarrow> t = w)"

definition susp_inv :: "'g suspension \<Rightarrow> bool" where
  "susp_inv S \<longleftrightarrow> own_handler S \<and> subject_inv S (su_caller S)"

lemma all_rest_iff: "(\<forall>w. at_rest S w) \<longleftrightarrow> at_rest S r \<and> others_rest S r"
  by (auto simp: others_rest_def)

text \<open>A step that changes one thread leaves the others at rest.\<close>

definition same_but :: "thread_ref \<Rightarrow> 'g suspension \<Rightarrow> 'g suspension \<Rightarrow> bool" where
  "same_but r S S' \<longleftrightarrow> (\<forall>w. w \<noteq> r \<longrightarrow> su_phase S' w = su_phase S w \<and> su_pending S' w = su_pending S w \<and>
     suspend_count (su_thread S' w) = suspend_count (su_thread S w))"

lemma others_rest_frame: "same_but r S S' \<Longrightarrow> others_rest S' r \<longleftrightarrow> others_rest S r"
  by (simp add: same_but_def others_rest_def at_rest_def)

lemma own_handler_frame: "su_phase S' = su_phase S \<Longrightarrow> own_handler S' \<longleftrightarrow> own_handler S"
  by (simp add: own_handler_def)

lemmas su_unfold = su_set_def send_signal_def signal_and_wait_def count_suspension_def uncount_suspension_def

lemma sem_ops:
  "sem_wait sem = Proceeds sem' \<longleftrightarrow> sem_value sem \<noteq> 0 \<and> sem' = sem \<lparr> sem_value := sem_value sem - 1 \<rparr>"
  "sem_post n sem = Proceeds sem' \<longleftrightarrow> sem_value sem < n \<and> sem' = sem \<lparr> sem_value := sem_value sem + 1 \<rparr>"
  by (auto simp: sem_wait_def sem_post_def)

lemma su_post_Some: "su_post n S = Some S' \<longleftrightarrow>
    sem_value (su_semaphore S) < n \<and> S' = S \<lparr> su_semaphore := (su_semaphore S) \<lparr> sem_value := sem_value (su_semaphore S) + 1 \<rparr> \<rparr>"
  by (auto simp: su_post_def sem_post_def)

lemma flush_keeps:
  assumes "su_flush K r S = Some S'"
  shows "su_phase S' = su_phase S" "su_pending S' = su_pending S" "TARGET_THREAD S' = TARGET_THREAD S"
    "su_semaphore S' = su_semaphore S" "su_caller S' = su_caller S"
    "suspend_count (su_thread S' w) = suspend_count (su_thread S w)"
    "stack_pointer (su_thread S' w) = stack_pointer (su_thread S w)"
  using assms
  by (auto simp: su_flush_def su_set_def flush_tlab_def case_prod_beta Let_def split: if_splits allocator_selector.splits)

definition known_adapters :: "'b block_adapter list \<Rightarrow> bool" where
  "known_adapters Xs \<longleftrightarrow> set Xs \<subseteq> {GCBlockAdapter, UnitBlockAdapter}"

lemma acknowledge_keeps:
  assumes "known_adapters Xs"
  shows "suspend_count (acknowledge_block_requests Xs t) = suspend_count t"
    and "stack_pointer (acknowledge_block_requests Xs t) = stack_pointer t"
proof -
  have "suspend_count (snd (list_acknowledge_block_requests Xs t)) = suspend_count t \<and>
      stack_pointer (snd (list_acknowledge_block_requests Xs t)) = stack_pointer t"
    using assms
    by (induction Xs arbitrary: t)
      (auto simp: known_adapters_def GCBlockAdapter_def UnitBlockAdapter_def case_prod_beta Let_def)
  then show "suspend_count (acknowledge_block_requests Xs t) = suspend_count t"
    and "stack_pointer (acknowledge_block_requests Xs t) = stack_pointer t"
    by (simp_all add: acknowledge_block_requests_def thread_notify_all_def case_prod_beta Let_def)
qed

lemma caller_frames:
  "suspend_begin k r S = (res, S') \<Longrightarrow> same_but r S S' \<and> su_phase S' = su_phase S"
  "suspend_woken k r S = Some (res, S') \<Longrightarrow> same_but r S S' \<and> su_phase S' = su_phase S"
  "same_but r S (resume_begin k r S) \<and> su_phase (resume_begin k r S) = su_phase S"
  "resume_woken r S = Some S' \<Longrightarrow> same_but r S S' \<and> su_phase S' = su_phase S"
  by (auto simp: same_but_def suspend_begin_def suspend_woken_def resume_begin_def resume_woken_def su_unfold Let_def
      split: if_splits outcome.splits)

lemma suspend_begin_inv:
  assumes "susp_inv S" and "su_caller S = SuspenderIdle" and "suspend_count (su_thread S r) \<noteq> - 1"
    and "suspend_begin k r S = (res, S')"
  shows "susp_inv S'"
proof -
  have n: "suspend_count (su_thread S r) + 1 \<noteq> 0" using assms(3) by (metis add.commute add_eq_0_iff)
  note f = caller_frames(1) [OF assms(4)]
  have S: "sem_value (su_semaphore S) = 0" "at_rest S r" "others_rest S r" "own_handler S"
    using assms(1,2) all_rest_iff [of S r] by (auto simp: susp_inv_def subject_inv_def)
  then have "others_rest S' r" "own_handler S'" using f others_rest_frame own_handler_frame by blast+
  then show ?thesis
    using assms(4) S(1,2) n
    by (auto simp: susp_inv_def subject_inv_def all_rest_iff [of _ r] at_rest_def suspend_begin_def su_unfold split: if_splits)
qed

lemma suspend_woken_inv:
  assumes "susp_inv S" and "su_caller S = Suspending r" and "suspend_woken k r S = Some (res, S')"
  shows "susp_inv S'"
proof -
  note f = caller_frames(2) [OF assms(3)]
  have "others_rest S' r" "own_handler S'"
    using assms(1,2) f others_rest_frame [of r S S'] own_handler_frame [of S' S] by (auto simp: susp_inv_def subject_inv_def)
  then show ?thesis
    using assms
    by (auto simp: susp_inv_def subject_inv_def all_rest_iff [of _ r] at_rest_def suspend_woken_def su_unfold
        sem_wait_def Let_def split: if_splits)
qed

lemma resume_begin_inv:
  assumes "susp_inv S" and "su_caller S = SuspenderIdle" and "suspend_count (su_thread S r) \<noteq> 0"
  shows "susp_inv (resume_begin k r S)"
proof -
  note f = caller_frames(3) [of r S k]
  have S: "sem_value (su_semaphore S) = 0" "at_rest S r" "others_rest S r" "own_handler S"
    using assms(1,2) all_rest_iff [of S r] by (auto simp: susp_inv_def subject_inv_def)
  then have "others_rest (resume_begin k r S) r" "own_handler (resume_begin k r S)"
    using f others_rest_frame own_handler_frame by blast+
  then show ?thesis
    using S(1,2) assms(2,3)
    by (auto simp: susp_inv_def subject_inv_def all_rest_iff [of _ r] at_rest_def resume_begin_def su_unfold Let_def
        split: if_splits)
qed

lemma resume_woken_inv:
  assumes "susp_inv S" and "su_caller S = Resuming r" and "resume_woken r S = Some S'"
  shows "susp_inv S'"
proof -
  note f = caller_frames(4) [OF assms(3)]
  have "others_rest S' r" "own_handler S'"
    using assms(1,2) f others_rest_frame [of r S S'] own_handler_frame [of S' S] by (auto simp: susp_inv_def subject_inv_def)
  then show ?thesis
    using assms
    by (auto simp: susp_inv_def subject_inv_def all_rest_iff [of _ r] at_rest_def resume_woken_def su_unfold
        sem_wait_def split: if_splits)
qed

lemma rest_or_subject:
  assumes "susp_inv S"
  obtains "at_rest S w" | "su_caller S = Suspending w" | "su_caller S = Resuming w"
proof (cases "su_caller S")
  case SuspenderIdle
  then show ?thesis using assms that(1) by (simp add: susp_inv_def subject_inv_def)
next
  case (Suspending r)
  then show ?thesis
    using assms that(1,2) by (cases "r = w") (auto simp: susp_inv_def subject_inv_def others_rest_def)
next
  case (Resuming r)
  then show ?thesis
    using assms that(1,3) by (cases "r = w") (auto simp: susp_inv_def subject_inv_def others_rest_def)
qed

text \<open>The signal is pending for the subject only.\<close>

lemma pending_subject:
  assumes "susp_inv S" and "su_pending S w"
  shows "TARGET_THREAD S = Some w \<and> others_rest S w \<and>
    (su_caller S = Suspending w \<and> suspend_count (su_thread S w) = 0 \<and> su_phase S w = Executing \<or>
     su_caller S = Resuming w \<and> suspend_count (su_thread S w) = 1 \<and> stopped_phase (su_phase S w)) \<and>
    sem_value (su_semaphore S) = 0"
  using assms(1)
  by (rule rest_or_subject [of S w]) (use assms in \<open>auto simp: susp_inv_def subject_inv_def at_rest_def\<close>)

lemma signal_handler_inv:
  assumes "susp_inv S" and "su_pending S w" and "su_phase S w = Executing \<or> su_phase S w = Sleeping"
    and "signal_handler K maxv bounds sp w S = Some S'"
  shows "susp_inv S'"
proof -
  note p = pending_subject [OF assms(1,2)]
  obtain S1 where S1: "su_flush K w (S \<lparr> su_pending := (su_pending S)(w := False) \<rparr>) = Some S1"
    and h: "(if suspend_count (su_thread S1 w) \<noteq> 0
      then Some (if su_phase S1 w = Sleeping then S1 \<lparr> su_phase := (su_phase S1)(w := Woken) \<rparr> else S1)
      else if \<not> sb_contains (bounds w) sp
      then su_post maxv (su_set w ((su_thread S1 w) \<lparr> stack_pointer := 0 \<rparr>) S1)
      else map_option (\<lambda>S. S \<lparr> su_phase := (su_phase S)(w := InHandler w) \<rparr>)
        (su_post maxv (su_set w ((su_thread S1 w) \<lparr> stack_pointer := sp \<rparr>) S1))) = Some S'"
    using assms(4) p by (auto simp: signal_handler_def split: Option.bind_splits)
  note f = flush_keeps [OF S1]
  have sp: "sb_contains (bounds w) sp \<Longrightarrow> sp \<noteq> 0" by (auto simp: sb_contains_def)
  have "same_but w S S1" using f by (simp add: same_but_def)
  then have o1: "others_rest S1 w" using p others_rest_frame by blast
  have own: "own_handler S1" using assms(1) f own_handler_frame [of S1 S] by (simp add: susp_inv_def)
  have "same_but w S1 S'"
    using h by (auto simp: same_but_def su_set_def su_post_Some split: if_splits)
  then have o2: "others_rest S' w" using o1 others_rest_frame by blast
  have "own_handler S'" using h own by (auto simp: own_handler_def su_set_def su_post_Some split: if_splits)
  then show ?thesis
    using h p o2 f assms(3) sp
    by (auto simp: susp_inv_def subject_inv_def su_set_def su_post_Some split: if_splits)
qed

lemma handler_sleep_inv:
  assumes "susp_inv S" and "su_phase S w = InHandler t" and "known_adapters Xs"
  shows "susp_inv (handler_sleep Xs w t S)"
proof -
  have t: "t = w" using assms(1,2) by (simp add: susp_inv_def own_handler_def)
  have "own_handler (handler_sleep Xs w t S)"
    using assms(1) by (simp add: susp_inv_def own_handler_def handler_sleep_def su_set_def)
  moreover have r: "at_rest (handler_sleep Xs w t S) v \<longleftrightarrow> at_rest S v" for v
    using assms(2) acknowledge_keeps [OF assms(3)]
    by (auto simp: at_rest_def handler_sleep_def su_set_def t)
  moreover from r have "others_rest (handler_sleep Xs w t S) v \<longleftrightarrow> others_rest S v" for v by (simp add: others_rest_def)
  moreover have "su_caller (handler_sleep Xs w t S) = su_caller S"
    "su_semaphore (handler_sleep Xs w t S) = su_semaphore S" "TARGET_THREAD (handler_sleep Xs w t S) = TARGET_THREAD S"
    "su_pending (handler_sleep Xs w t S) = su_pending S"
    "suspend_count (su_thread (handler_sleep Xs w t S) v) = suspend_count (su_thread S v)"
    "stack_pointer (su_thread (handler_sleep Xs w t S) v) = stack_pointer (su_thread S v)"
    "su_phase (handler_sleep Xs w t S) v = (if v = w then Sleeping else su_phase S v)" for v
    using acknowledge_keeps [OF assms(3)] by (simp_all add: handler_sleep_def su_set_def t)
  ultimately show ?thesis
    using assms(1,2) by (cases "su_caller S") (auto simp: susp_inv_def subject_inv_def t)
qed

lemma handler_finish_inv:
  assumes "susp_inv S" and "su_phase S w = Woken" and "handler_finish maxv w S = Some S'"
  shows "susp_inv S'"
proof -
  have c: "su_caller S = Resuming w"
    using assms(1) by (rule rest_or_subject [of S w])
      (use assms(1,2) in \<open>auto simp: susp_inv_def subject_inv_def at_rest_def split: if_splits\<close>)
  then have p: "TARGET_THREAD S = Some w" "others_rest S w" "suspend_count (su_thread S w) = 1" "\<not> su_pending S w"
    "sem_value (su_semaphore S) = 0"
    using assms(1,2) by (auto simp: susp_inv_def subject_inv_def)
  have h: "S' = (su_set w ((su_thread S w) \<lparr> stack_pointer := 0 \<rparr>) S)
      \<lparr> su_semaphore := (su_semaphore S) \<lparr> sem_value := 1 \<rparr>, su_phase := (su_phase S)(w := Executing) \<rparr>"
    using assms(3) p by (auto simp: handler_finish_def su_post_Some su_set_def split: Option.bind_splits)
  have "same_but w S S'" using h by (simp add: same_but_def su_set_def)
  then have "others_rest S' w" using p(2) others_rest_frame by blast
  moreover have "own_handler S'" using assms(1) h by (simp add: susp_inv_def own_handler_def su_set_def)
  ultimately show ?thesis using h p c by (simp add: susp_inv_def subject_inv_def su_set_def)
qed

lemma susp_step_inv:
  "susp_step Xs K maxv bounds S S' \<Longrightarrow> known_adapters Xs \<Longrightarrow> susp_inv S \<Longrightarrow> susp_inv S'"
  by (induction rule: susp_step.induct)
    (blast intro: suspend_begin_inv suspend_woken_inv resume_begin_inv resume_woken_inv signal_handler_inv
      handler_sleep_inv handler_finish_inv)+

lemma susp_reachable_inv:
  assumes "susp_reachable Xs K maxv bounds S" and "known_adapters Xs"
  shows "susp_inv S"
  using assms
proof (induction rule: susp_reachable.induct)
  case (initial S)
  then show ?case by (auto simp: unsuspended_def susp_inv_def own_handler_def subject_inv_def at_rest_def)
next
  case (step S S')
  then show ?case using susp_step_inv by blast
qed

section \<open>Properties\<close>


text \<open>A state with one thread, number 0, on a stack, for the witnesses.\<close>

definition one_suspension :: "unit suspension" where
  "one_suspension = \<lparr> su_thread = (\<lambda>_. the (for_mutator NoBarrier 1 False)), su_mutator = (\<lambda>_. ()),
     su_phase = (\<lambda>_. Executing), su_pending = (\<lambda>_. False), su_mem = (\<lambda>_. 0), TARGET_THREAD = None,
     su_semaphore = \<lparr> sem_value = 0 \<rparr>, su_caller = SuspenderIdle \<rparr>"

definition no_tlab_mmtk :: "unit mmtk" where
  "no_tlab_mmtk = \<lparr> mmtk_alloc = (\<lambda>g m n al off s. (0, g, m)), mmtk_alloc_slow = (\<lambda>g m n al off s. (0, g, m)),
     mmtk_post_alloc = (\<lambda>g m a n s. (g, m)), mmtk_write_slow = (\<lambda>g m src slot target. (g, m)),
     default_selector = FreeList, bump_pointer = (\<lambda>g. (0, 0)), bump_reset = (\<lambda>g c l. g),
     VO_BIT_SIDE_METADATA_ADDR = 0, GLOBAL_SIDE_METADATA_VM_BASE_ADDRESS = 0 \<rparr>"

definition one_stack :: "thread_ref \<Rightarrow> stack_bounds" where
  "one_stack = (\<lambda>_. \<lparr> origin = 0x20000, bound = 0x10000 \<rparr>)"

lemma new_mutator_fields:
  "suspend_count (the (for_mutator NB i b)) = 0" "stack_pointer (the (for_mutator NB i b)) = 0"
  "tl_tlab (the (for_mutator NB i b)) = tlab_new" "exec_status (the (for_mutator NB i b)) = New"
  by (simp_all add: for_mutator_def new_unchecked_def)

lemma flush_empty_tlab:
  "tl_tlab (su_thread S r) = tlab_new \<Longrightarrow> \<exists>S1. su_flush K r S = Some S1"
  by (simp add: su_flush_def flush_tlab_def tlab_take_def tlab_reset_def tlab_new_def Let_def)

text \<open>
  Suspension succeeds. If the signal is delivered and the thread is on its own stack when the
  handler runs, \<open>suspend\<close> returns true, and then the thread is in the handler with its
  stack pointer saved.
\<close>

theorem suspend_stops_thread:
  assumes "suspend_count (su_thread S r) = 0" and "sem_value (su_semaphore S) = 0" and "kill S = Delivered"
    and "sb_contains (bounds r) sp"
    and "signal_handler K maxv bounds sp r (snd (suspend_begin Delivered r S)) = Some (env (snd (suspend_begin Delivered r S)))"
  shows "\<exists>S'. suspend env kill r S = Some (True, S') \<and> su_phase S' r = InHandler r \<and>
    stack_pointer (su_thread S' r) = sp \<and> suspend_count (su_thread S' r) = 1"
proof -
  let ?S0 = "S \<lparr> TARGET_THREAD := Some r, su_pending := (su_pending S)(r := True), su_caller := Suspending r \<rparr>"
  have b: "suspend_begin (kill S) r S = (None, ?S0)"
    using assms(1,3) by (simp add: suspend_begin_def su_unfold)
  then have e: "signal_handler K maxv bounds sp r ?S0 = Some (env ?S0)" using assms(3,5) by simp
  then obtain S1 where S1: "su_flush K r (?S0 \<lparr> su_pending := (su_pending ?S0)(r := False) \<rparr>) = Some S1"
    by (auto simp: signal_handler_def split: Option.bind_splits)
  note f = flush_keeps [OF this]
  have env: "env ?S0 = (su_set r ((su_thread S1 r) \<lparr> stack_pointer := sp \<rparr>) S1)
      \<lparr> su_semaphore := (su_semaphore S1) \<lparr> sem_value := 1 \<rparr>, su_phase := (su_phase S1)(r := InHandler r) \<rparr>"
    using e S1 f assms(1,2,4) by (auto simp: signal_handler_def su_post_Some su_set_def)
  have "sp \<noteq> 0" using assms(4) by (auto simp: sb_contains_def)
  then have "\<exists>S'. suspend_woken (kill (env ?S0)) r (env ?S0) = Some (Some True, S') \<and> su_phase S' r = InHandler r \<and>
      stack_pointer (su_thread S' r) = sp \<and> suspend_count (su_thread S' r) = 1"
    unfolding env using f assms(1) by (simp add: suspend_woken_def sem_wait_def su_unfold)
  then show ?thesis by (auto simp: suspend_def b suspend_wait.simps [of env])
qed

lemma handler_on_one_stack:
  assumes "tl_tlab (su_thread S 0) = tlab_new" and "TARGET_THREAD S = Some 0" and "sem_value (su_semaphore S) = 0"
  shows "\<exists>S'. signal_handler no_tlab_mmtk 1 one_stack sp 0 S = Some S'"
proof -
  obtain S1 where S1: "su_flush no_tlab_mmtk 0 (S \<lparr> su_pending := (su_pending S)(0 := False) \<rparr>) = Some S1"
    using flush_empty_tlab [of "S \<lparr> su_pending := (su_pending S)(0 := False) \<rparr>" 0 no_tlab_mmtk] assms(1) by auto
  then show ?thesis
    using flush_keeps(4) [OF S1] assms(2,3) by (auto simp: signal_handler_def su_post_Some su_set_def)
qed

theorem suspend_stops_thread_witness:
  "\<exists>S'. suspend (\<lambda>S. the (signal_handler no_tlab_mmtk 1 one_stack 0x18000 0 S)) (\<lambda>_. Delivered) 0 one_suspension = Some (True, S') \<and>
     su_phase S' 0 = InHandler 0"
proof -
  let ?S = "snd (suspend_begin Delivered 0 one_suspension)"
  have "\<exists>S'. signal_handler no_tlab_mmtk 1 one_stack 0x18000 0 ?S = Some S'"
    by (rule handler_on_one_stack) (simp_all add: suspend_begin_def one_suspension_def new_mutator_fields su_unfold)
  then have h: "signal_handler no_tlab_mmtk 1 one_stack 0x18000 0 ?S = Some (the (signal_handler no_tlab_mmtk 1 one_stack 0x18000 0 ?S))"
    by auto
  have "suspend_count (su_thread one_suspension 0) = 0" "sem_value (su_semaphore one_suspension) = 0"
    "sb_contains (one_stack 0) 0x18000"
    by (simp_all add: one_suspension_def new_mutator_fields one_stack_def sb_contains_def sb_is_empty_def)
  from suspend_stops_thread [where kill = "\<lambda>_. Delivered" and S = one_suspension and r = 0
      and env = "\<lambda>S. the (signal_handler no_tlab_mmtk 1 one_stack 0x18000 0 S)", OF this(1,2) refl this(3) h] show ?thesis by blast
qed

text \<open>
  Resuming a thread that is not suspended makes it immune to suspension. \<open>resume\<close> decrements
  a count of 0, which wraps around, and the next \<open>suspend\<close> answers true without
  stopping the thread. All threads are resumed after a collection, also those that were
  registered during it or were about to terminate when it began.
\<close>

theorem stray_resume_defeats_suspension:
  assumes "suspend_count (su_thread S r) = 0" and "su_caller S = SuspenderIdle"
  shows "\<exists>S1 S2. resume env kill r S = Some S1 \<and> suspend_count (su_thread S1 r) = - 1 \<and>
    suspend env kill r S1 = Some (True, S2) \<and> su_phase S2 r = su_phase S r \<and> su_pending S2 = su_pending S \<and>
    suspend_count (su_thread S2 r) = 0"
  using assms by (simp add: resume_def resume_begin_def suspend_def suspend_begin_def su_unfold Let_def)

theorem stray_resume_defeats_suspension_witness:
  "\<exists>S1 S2. resume id (\<lambda>_. Delivered) 0 one_suspension = Some S1 \<and>
     suspend id (\<lambda>_. Delivered) 0 S1 = Some (True, S2) \<and> su_phase S2 0 = Executing"
proof -
  have "suspend_count (su_thread one_suspension 0) = 0" "su_caller one_suspension = SuspenderIdle"
    "su_phase one_suspension 0 = Executing"
    by (simp_all add: one_suspension_def new_mutator_fields)
  with stray_resume_defeats_suspension [OF this(1,2), of id "\<lambda>_. Delivered"] show ?thesis by auto
qed

text \<open>
  A thread on an alternative signal stack can be counted as suspended while it runs. The handler
  stores a null stack pointer to ask for another attempt, but \<open>enter_native\<close> stores the stack pointer
  in the same field: if the thread enters native code before the caller looks at the
  field, \<open>suspend\<close> answers true.
\<close>

theorem entering_native_fakes_suspension:
  assumes "suspend_count (su_thread S r) = 0" and "sem_value (su_semaphore S) = 0"
    and "TARGET_THREAD S = Some r" and "su_phase S r = Executing" and "\<not> sb_contains (bounds r) sp"
    and "signal_handler K maxv bounds sp r S = Some S1" and "native_sp \<noteq> 0"
    and "enter_native Xs me native_sp (su_thread S1 r) = Some t" and "exec_status (su_thread S1 r) = InManaged"
  shows "\<exists>S2. suspend_woken k r (su_set r t S1) = Some (Some True, S2) \<and> su_phase S2 r = Executing \<and>
    suspend_count (su_thread S2 r) = 1"
proof -
  obtain S0 where S0: "su_flush K r (S \<lparr> su_pending := (su_pending S)(r := False) \<rparr>) = Some S0"
    using assms(3,6) by (auto simp: signal_handler_def split: Option.bind_splits)
  note f = flush_keeps [OF this]
  have S1: "S1 = (su_set r ((su_thread S0 r) \<lparr> stack_pointer := 0 \<rparr>) S0) \<lparr> su_semaphore := (su_semaphore S0) \<lparr> sem_value := 1 \<rparr> \<rparr>"
    using assms(1-3,5,6) S0 f by (auto simp: signal_handler_def su_post_Some su_set_def split: if_splits)
  have "t = (su_thread S1 r) \<lparr> stack_pointer := native_sp, exec_status := InNative \<rparr>"
    using assms(8,9) by (simp add: enter_native_def attempt_fast_exec_status_transition_def)
  then show ?thesis
    using assms(1,4,7) f by (simp add: S1 suspend_woken_def sem_wait_def su_unfold)
qed

theorem entering_native_fakes_suspension_witness:
  "\<exists>S1 t S2. signal_handler no_tlab_mmtk 1 one_stack 0x30000 0
       (one_suspension \<lparr> su_thread := (\<lambda>_. (the (for_mutator NoBarrier 1 False)) \<lparr> exec_status := InManaged \<rparr>),
          TARGET_THREAD := Some 0 \<rparr>) = Some S1 \<and>
     enter_native [] 1 0x30000 (su_thread S1 0) = Some t \<and>
     suspend_woken Delivered 0 (su_set 0 t S1) = Some (Some True, S2) \<and> su_phase S2 0 = Executing"
proof -
  let ?S = "one_suspension \<lparr> su_thread := (\<lambda>_. (the (for_mutator NoBarrier 1 False)) \<lparr> exec_status := InManaged \<rparr>), TARGET_THREAD := Some 0 \<rparr>"
  have c: "suspend_count (su_thread ?S 0) = 0" "sem_value (su_semaphore ?S) = 0" "TARGET_THREAD ?S = Some 0"
    "su_phase ?S 0 = Executing" "\<not> sb_contains (one_stack 0) 0x30000"
    by (simp_all add: one_suspension_def new_mutator_fields one_stack_def sb_contains_def)
  obtain S1 where S1: "signal_handler no_tlab_mmtk 1 one_stack 0x30000 0 ?S = Some S1"
    using handler_on_one_stack [of ?S "0x30000"] c(2,3) by (auto simp: new_mutator_fields)
  have "exec_status (su_thread S1 0) = InManaged"
    using S1 c by (auto simp: signal_handler_def su_post_Some su_set_def su_flush_def flush_tlab_def tlab_take_def tlab_reset_def
        tlab_new_def new_mutator_fields Let_def split: Option.bind_splits if_splits)
  moreover from this obtain t where t: "enter_native [] 1 0x30000 (su_thread S1 0) = Some t"
    by (simp add: enter_native_def)
  ultimately show ?thesis
    using entering_native_fakes_suspension [OF c S1 _ t] S1 by auto
qed

text \<open>A run of one suspension, step by step.\<close>

lemma one_suspension_run:
  "\<exists>S. susp_reachable [GCBlockAdapter] no_tlab_mmtk 1 one_stack S \<and> suspend_count (su_thread S 0) = 1 \<and>
     su_caller S = SuspenderIdle"
proof -
  let ?R = "susp_reachable [GCBlockAdapter] no_tlab_mmtk 1 one_stack"
  let ?S0 = "snd (suspend_begin Delivered 0 one_suspension)"
  have "?R one_suspension" by (rule susp_reachable.initial) (simp add: unsuspended_def one_suspension_def new_mutator_fields)
  moreover have "susp_step [GCBlockAdapter] no_tlab_mmtk 1 one_stack one_suspension ?S0"
    by (rule susp_step.suspend [where k = Delivered and r = 0, OF _ _ prod.collapse [symmetric]])
      (simp_all add: one_suspension_def new_mutator_fields)
  ultimately have R0: "?R ?S0" by (rule susp_reachable.step)
  obtain S1 where S1: "signal_handler no_tlab_mmtk 1 one_stack 0x18000 0 ?S0 = Some S1"
    using handler_on_one_stack [of ?S0 "0x18000"]
    by (auto simp: suspend_begin_def one_suspension_def new_mutator_fields su_unfold)
  have "su_pending ?S0 0" "su_phase ?S0 0 = Executing"
    by (simp_all add: suspend_begin_def one_suspension_def new_mutator_fields su_unfold)
  then have R1: "?R S1" using susp_step.handle [OF _ _ S1] R0 susp_reachable.step by blast
  have S1f: "su_caller S1 = Suspending 0" "sem_value (su_semaphore S1) = 1" "stack_pointer (su_thread S1 0) = 0x18000"
    "suspend_count (su_thread S1 0) = 0"
    using S1 by (auto simp: signal_handler_def su_post_Some su_set_def su_flush_def flush_tlab_def tlab_take_def tlab_reset_def
        tlab_new_def new_mutator_fields suspend_begin_def one_suspension_def signal_and_wait_def send_signal_def
        one_stack_def sb_contains_def sb_is_empty_def Let_def split: Option.bind_splits if_splits)
  then obtain S2 where S2: "suspend_woken Delivered 0 S1 = Some (Some True, S2)" "suspend_count (su_thread S2 0) = 1"
    "su_caller S2 = SuspenderIdle"
    by (simp add: suspend_woken_def sem_wait_def su_unfold)
  then show ?thesis using susp_step.suspend_wake [OF S1f(1) S2(1)] R1 susp_reachable.step by blast
qed


end
