(* ===== verification/Vmkit_Collection.thy ===== *)
theory Vmkit_Collection
  imports Vmkit_StopAll Vmkit_StopWorld
begin
text \<open>
  \<open>mm/collection.rs\<close>: what mmtk calls around a collection. Stopping the mutators combines the
  thread manager with the allocation buffers: every stopped thread hands its buffer to mmtk
  before mmtk's visitor sees its mutator. Also the ends of a thread's life that go through the
  thread-local \<open>CURRENT_THREAD\<close> (\<open>threading.rs\<close>).
\<close>

section \<open>Stopping, blocking and resuming\<close>

text \<open>
  What the collector sees: the table of threads, mmtk's mutator of each thread, and the memory.
  The mutators and the memory are as the threads have left them when they have stopped.
\<close>

record 'g machine =
  ma_registry :: "barrier_selector registry"
  ma_mutator :: "thread_ref \<Rightarrow> 'g"
  ma_mem :: memory

definition flush_thread :: "'g mmtk \<Rightarrow> thread_ref \<Rightarrow> 'g machine \<Rightarrow> 'g machine option" where
  "flush_thread K r W = map_option
     (\<lambda>M. W \<lparr> ma_registry := set_thread r (mm_thread M) (ma_registry W),
              ma_mutator := (ma_mutator W)(r := mm_mmtk M), ma_mem := mm_mem M \<rparr>)
     (flush_tlab K \<lparr> mm_thread = reg_thread (ma_registry W) r, mm_mmtk = ma_mutator W r, mm_mem = ma_mem W \<rparr>)"

text \<open>The visitor may change the mutator and a state of its own; a thread without a mutator is undefined.\<close>

fun visit_mutators ::
  "'g mmtk \<Rightarrow> (thread_ref \<Rightarrow> 'g \<Rightarrow> 'v \<Rightarrow> 'g \<times> 'v) \<Rightarrow> thread_ref list \<Rightarrow> 'v \<Rightarrow> 'g machine \<Rightarrow> ('v \<times> 'g machine) option" where
  "visit_mutators K visitor [] v W = Some (v, W)"
| "visit_mutators K visitor (r # rs) v W = do {
     W \<leftarrow> flush_thread K r W;
     if mutator_bound (reg_thread (ma_registry W) r)
     then (let (g, v) = visitor r (ma_mutator W r) v
           in visit_mutators K visitor rs v (W \<lparr> ma_mutator := (ma_mutator W)(r := g) \<rparr>))
     else None
   }"

definition stop_all_mutators ::
  "(barrier_selector registry \<Rightarrow> barrier_selector registry) \<Rightarrow> slot \<Rightarrow> 'g mmtk
     \<Rightarrow> (thread_ref \<Rightarrow> 'g \<Rightarrow> 'v \<Rightarrow> 'g \<times> 'v) \<Rightarrow> 'v \<Rightarrow> 'g machine \<Rightarrow> ('v \<times> 'g machine) option" where
  "stop_all_mutators env gc K visitor v W = do {
     (mutators, S) \<leftarrow> block_all_mutators_for_gc env gc (ma_registry W);
     visit_mutators K visitor mutators v (W \<lparr> ma_registry := S \<rparr>)
   }"

text \<open>\<open>block_for_gc\<close> runs on the thread that is to be blocked.\<close>

definition block_for_gc ::
  "barrier_selector block_adapter list \<Rightarrow> slot \<Rightarrow> address \<Rightarrow> barrier_selector thread \<Rightarrow> barrier_selector thread blocking option" where
  "block_for_gc Xs me sp tls = block_self Xs GCBlockAdapter me sp tls"

definition resume_mutators :: "slot \<Rightarrow> 'g machine \<Rightarrow> 'g machine option" where
  "resume_mutators gc W =
     map_option (\<lambda>S. W \<lparr> ma_registry := S \<rparr>) (unblock_all_mutators_for_gc gc (ma_registry W))"

definition is_collection_enabled :: bool where
  "is_collection_enabled = True"

text \<open>\<open>spawn_gc_thread\<close> creates the thread and starts it; the native thread then runs mmtk's worker.\<close>

definition spawn_gc_thread :: "'b \<Rightarrow> 'b registry \<Rightarrow> (thread_ref \<times> 'b registry) option" where
  "spawn_gc_thread NB S = do {
     t \<leftarrow> for_collector NB (reg_ids S) (collector_started S);
     let r = reg_next S;
     let S = set_thread r t (S \<lparr> reg_next := reg_next S + 1, reg_ids := reg_ids S + 1 \<rparr>);
     Some (r, thread_start r S)
   }"

section \<open>The current thread\<close>

text \<open>
  The thread-local variables of every native thread, and how many of the references to a
  thread they own. A null \<open>CURRENT_THREAD\<close> is \<^const>\<open>None\<close>; using it is undefined.
\<close>

record current_threads =
  CURRENT_THREAD :: "slot \<Rightarrow> thread_ref option"
  REGISTERED :: "slot \<Rightarrow> bool"
  owned_references :: "thread_ref \<Rightarrow> nat"

definition current_thread :: "slot \<Rightarrow> current_threads \<Rightarrow> thread_ref option" where
  "current_thread me C = CURRENT_THREAD C me"

definition try_current_thread :: "slot \<Rightarrow> current_threads \<Rightarrow> thread_ref option" where
  "try_current_thread me C = CURRENT_THREAD C me"

definition init_current_thread :: "slot \<Rightarrow> thread_ref \<Rightarrow> current_threads \<Rightarrow> current_threads" where
  "init_current_thread me r C = C \<lparr> CURRENT_THREAD := (CURRENT_THREAD C)(me := Some r),
     REGISTERED := (REGISTERED C)(me := True),
     owned_references := (owned_references C)(r := owned_references C r + 1) \<rparr>"

definition deinit_current_thread :: "slot \<Rightarrow> current_threads \<Rightarrow> current_threads option" where
  "deinit_current_thread me C =
     map_option (\<lambda>r. C \<lparr> CURRENT_THREAD := (CURRENT_THREAD C)(me := None), REGISTERED := (REGISTERED C)(me := False),
         owned_references := (owned_references C)(r := owned_references C r - 1) \<rparr>) (CURRENT_THREAD C me)"

definition is_current_thread_registered :: "slot \<Rightarrow> current_threads \<Rightarrow> bool" where
  "is_current_thread_registered me C = REGISTERED C me"

text \<open>\<open>terminate\<close> on the current thread with its thread-local variables, and its manual form.\<close>

definition terminate_with_tls ::
  "slot \<Rightarrow> thread_ref \<Rightarrow> 'b registry \<times> current_threads \<Rightarrow> ('b registry \<times> current_threads) option" where
  "terminate_with_tls me r = (\<lambda>(S, C). do {
     t \<leftarrow> thread_terminate me (reg_thread S r);
     current \<leftarrow> current_thread me C;
     S \<leftarrow> add_about_to_terminate_current current (set_thread r t S);
     C \<leftarrow> deinit_current_thread me C;
     Some (S, C)
   })"

definition unregister_mutator_manual ::
  "slot \<Rightarrow> 'b registry \<times> current_threads \<Rightarrow> ('b registry \<times> current_threads) option" where
  "unregister_mutator_manual me = (\<lambda>(S, C). do {
     current \<leftarrow> current_thread me C;
     terminate_with_tls me current (S, C)
   })"

section \<open>Visiting the mutators\<close>

text \<open>No buffer is in use, as far as the flush can tell.\<close>

definition buffers_ok :: "'g mmtk \<Rightarrow> 'b registry \<Rightarrow> bool" where
  "buffers_ok K S \<longleftrightarrow> (\<forall>r. (cursor (tl_tlab (reg_thread S r)) = 0 \<longrightarrow> limit (tl_tlab (reg_thread S r)) = 0) \<and>
     (cursor (tl_tlab (reg_thread S r)) \<noteq> 0 \<longrightarrow> has_tlab K))"

definition flushed :: "barrier_selector thread \<Rightarrow> barrier_selector thread" where
  "flushed t = t \<lparr> tl_tlab := tlab_new \<rparr>"

lemma tlab_set_both: "t \<lparr> cursor := c, limit := l \<rparr> = \<lparr> cursor = c, limit = l \<rparr>"
  by (cases t) simp

lemma flush_thread_sound:
  assumes "flush_thread K r W = Some W'"
  shows "ma_registry W' = set_thread r (flushed (reg_thread (ma_registry W) r)) (ma_registry W)"
  using assms
  by (auto simp: flush_thread_def flush_tlab_def tlab_take_def tlab_reset_def tlab_new_def flushed_def tlab_set_both Let_def
      split: if_splits allocator_selector.splits)

lemma visit_mutators_sound:
  "visit_mutators K (\<lambda>r g log. (f r g, log @ [r])) rs log W = Some (log', W') \<Longrightarrow>
     log' = log @ rs \<and> reg_threads (ma_registry W') = reg_threads (ma_registry W) \<and>
     (\<forall>r. reg_thread (ma_registry W') r = (if r \<in> set rs then flushed (reg_thread (ma_registry W) r)
        else reg_thread (ma_registry W) r))"
proof (induction rs arbitrary: log W)
  case (Cons r rs)
  obtain W1 where W1: "flush_thread K r W = Some W1"
    using Cons.prems by (auto split: Option.bind_splits)
  note s = flush_thread_sound [OF W1]
  have "visit_mutators K (\<lambda>r g log. (f r g, log @ [r])) rs (log @ [r]) (W1 \<lparr> ma_mutator := (ma_mutator W1)(r := f r (ma_mutator W1 r)) \<rparr>)
      = Some (log', W')"
    using Cons.prems W1 by (auto split: if_splits)
  from Cons.IH [OF this] show ?case by (auto simp: s flushed_def)
qed simp


section \<open>The pause ends\<close>

text \<open>What stopping the threads does not touch: their buffers and mutators.\<close>

definition buffer_view :: "'b thread \<Rightarrow> tlab \<times> bool" where
  "buffer_view t = (tl_tlab t, mutator_bound t)"

definition views :: "(thread_ref \<Rightarrow> tlab \<times> bool \<Rightarrow> bool) \<Rightarrow> 'b registry \<Rightarrow> bool" where
  "views Q S \<longleftrightarrow> (\<forall>r. Q r (buffer_view (reg_thread S r)))"

lemma buffer_view_simps [simp]:
  "buffer_view (t \<lparr> monitor := M \<rparr>) = buffer_view t" "buffer_view (thread_unlock t) = buffer_view t"
  "buffer_view (thread_notify_all t) = buffer_view t" "buffer_view (t \<lparr> exec_status := st \<rparr>) = buffer_view t"
  "buffer_view (t \<lparr> should_block_for_gc := b \<rparr>) = buffer_view t" "buffer_view (t \<lparr> is_blocked_for_gc := b \<rparr>) = buffer_view t"
  "buffer_view (t \<lparr> take_yieldpoint := y \<rparr>) = buffer_view t"
  by (simp_all add: buffer_view_def thread_unlock_def thread_notify_all_def)

lemma views_set:
  "views Q S \<Longrightarrow> buffer_view t = buffer_view (reg_thread S r) \<Longrightarrow> views Q (set_thread r t S)"
  by (simp add: views_def)

lemma thread_lock_view: "thread_lock gc t = Some t' \<Longrightarrow> buffer_view t' = buffer_view t"
  by (auto dest!: thread_lock_monitor)

lemma block_wait_view:
  "block_wait GCBlockAdapter tok gc t = Parked s (st, t') \<Longrightarrow> buffer_view t' = buffer_view t"
  "block_wait GCBlockAdapter tok gc t = Returned (st, t') \<Longrightarrow> buffer_view t' = buffer_view t"
  by (auto simp: block_wait_def Let_def split: if_splits prod.splits)

lemma block_unchecked_view:
  "block_unchecked GCBlockAdapter gc asynchronous t = Some (Parked s (st, t')) \<Longrightarrow> buffer_view t' = buffer_view t"
  "block_unchecked GCBlockAdapter gc asynchronous t = Some (Returned (st, t')) \<Longrightarrow> buffer_view t' = buffer_view t"
  by (auto simp: block_unchecked_def set_blocked_eq Let_def
      dest!: thread_lock_view block_wait_view split: Option.bind_splits if_splits)

lemma block_wake_view:
  "block_wake GCBlockAdapter tok gc s t = Some (Parked s' (st, t')) \<Longrightarrow> buffer_view t' = buffer_view t"
  "block_wake GCBlockAdapter tok gc s t = Some (Returned (st, t')) \<Longrightarrow> buffer_view t' = buffer_view t"
  by (auto simp: block_wake_def dest!: block_wait_view split: Option.bind_splits)

lemma wait_until_blocked_views:
  assumes "wait_until_blocked env gc r s S = Some S'" and "\<forall>S. views Q S \<longrightarrow> views Q (env S)" and "views Q S"
  shows "views Q S'"
proof -
  let ?P = "\<lambda>env (gc :: slot) r (s :: usize \<times> slot) S S'.
    (\<forall>S :: 'a registry. views Q S \<longrightarrow> views Q (env S)) \<longrightarrow> views Q (S :: 'a registry) \<longrightarrow> views Q (S' :: 'a registry)"
  have "?P env gc r s S S'"
    by (rule wait_until_blocked.raw_induct [where P = ?P, OF _ assms(1)])
      (auto split: option.splits blocking.splits dest!: block_wake_view intro: views_set; blast intro: views_set)
  then show ?thesis using assms(2,3) by blast
qed

lemma block_one_views:
  assumes "block_one env gc r S = Some S'" and "\<forall>S. views Q S \<longrightarrow> views Q (env S)" and "views Q S"
  shows "views Q S'"
proof -
  obtain t b S1 where t: "thread_lock gc (reg_thread S r) = Some t"
    and b: "block_unchecked GCBlockAdapter gc False t = Some b"
    and S1: "(case b of Returned (_, t) \<Rightarrow> Some (set_thread r t S)
      | Parked s (_, t) \<Rightarrow> wait_until_blocked env gc r s (set_thread r t S)) = Some S1"
    and S': "S' = set_thread r (thread_unlock (reg_thread S1 r)) S1"
    using assms(1) by (auto simp: block_one_def split: Option.bind_splits)
  have "views Q S1"
    using S1 b t assms(2,3)
    by (auto split: blocking.splits dest!: block_unchecked_view thread_lock_view
        intro: views_set wait_until_blocked_views [OF _ assms(2) views_set])
  then show ?thesis by (auto simp: S' intro!: views_set)
qed

lemma block_each_views:
  "block_each env gc rs S = Some S' \<Longrightarrow> \<forall>S. views Q S \<longrightarrow> views Q (env S) \<Longrightarrow> views Q S \<Longrightarrow> views Q S'"
  by (induction rs arbitrary: S) (auto split: Option.bind_splits intro: block_one_views)

lemma retain_one_view: "retain_one gc t = Some (keep, t') \<Longrightarrow> buffer_view t' = buffer_view t"
  by (auto simp: retain_one_def dest!: thread_lock_view block_unchecked_view
      split: Option.bind_splits if_splits blocking.splits)

lemma retain_running_views:
  "retain_running gc rs S = Some (left, S') \<Longrightarrow> views Q S \<Longrightarrow> views Q S'"
proof (induction rs arbitrary: S left)
  case (Cons r rs)
  then show ?case
    by (auto split: Option.bind_splits prod.splits dest!: retain_one_view intro: views_set)
qed simp

lemma block_rounds_views:
  assumes "block_rounds env gc S = Some S'" and "\<forall>S. views Q S \<longrightarrow> views Q (env S)" and "views Q S"
  shows "views Q S'"
proof -
  let ?P = "\<lambda>env (gc :: slot) S S'.
    (\<forall>S :: 'a registry. views Q S \<longrightarrow> views Q (env S)) \<longrightarrow> views Q (S :: 'a registry) \<longrightarrow> views Q (S' :: 'a registry)"
  have "?P env gc S S'"
  proof (rule block_rounds.raw_induct [where P = ?P, OF _ assms(1)])
    fix again :: "('a registry \<Rightarrow> 'a registry) \<Rightarrow> slot \<Rightarrow> 'a registry \<Rightarrow> 'a registry option"
      and env :: "'a registry \<Rightarrow> 'a registry" and gc :: slot and S S2 :: "'a registry"
    assume IH: "\<And>env gc S S'. again env gc S = Some S' \<Longrightarrow> ?P env gc S S'"
      and run: "Option.bind (retain_running gc (handshake_candidates S) S) (\<lambda>(left, S).
        if left = [] then Some S else Option.bind (block_each env gc (rev left) S) (\<lambda>S. again env gc S)) = Some S2"
    obtain left S1 where r: "retain_running gc (handshake_candidates S) S = Some (left, S1)"
      using run by (auto split: Option.bind_splits)
    show "?P env gc S S2"
    proof (intro impI)
      assume e: "\<forall>S. views Q S \<longrightarrow> views Q (env S)" and q: "views Q S"
      note q1 = retain_running_views [OF r q]
      show "views Q S2"
      proof (cases "left = []")
        case False
        then obtain S3 where "block_each env gc (rev left) S1 = Some S3" "again env gc S3 = Some S2"
          using run r by (auto split: Option.bind_splits)
        then show ?thesis using block_each_views [OF _ e q1] IH e by blast
      qed (use run r q1 in simp)
    qed
  qed
  then show ?thesis using assms(2,3) by blast
qed

text \<open>
  The buffers are as the allocation routes leave them, and the registered threads have mutators.
\<close>

definition ready :: "'g mmtk \<Rightarrow> thread_ref set \<Rightarrow> 'b registry \<Rightarrow> bool" where
  "ready K L S \<longleftrightarrow> views (\<lambda>r (b, bound). (cursor b = 0 \<longrightarrow> limit b = 0) \<and> (cursor b \<noteq> 0 \<longrightarrow> has_tlab K) \<and>
     (r \<in> L \<longrightarrow> bound)) S"

lemma flush_thread_returns:
  assumes "ready K L (ma_registry W)"
  shows "\<exists>W'. flush_thread K r W = Some W' \<and> ma_registry W' = set_thread r (flushed (reg_thread (ma_registry W) r)) (ma_registry W)"
proof -
  have "mm_ok K \<lparr> mm_thread = reg_thread (ma_registry W) r, mm_mmtk = ma_mutator W r, mm_mem = ma_mem W \<rparr>"
    using assms by (auto simp: ready_def views_def buffer_view_def mm_ok_def Let_def)
  from flush_tlab_ok [OF this] show ?thesis by (simp add: flush_thread_def flushed_def)
qed

lemma ready_flushed: "ready K L S \<Longrightarrow> ready K L (set_thread r (flushed (reg_thread S r)) S)"
  by (auto simp: ready_def views_def buffer_view_def flushed_def tlab_new_def)

lemma visit_mutators_returns:
  assumes "ready K L (ma_registry W)" and "set rs \<subseteq> L" and "quiet (ma_registry W)"
  shows "\<exists>v' W'. visit_mutators K visitor rs v W = Some (v', W') \<and> quiet (ma_registry W') \<and>
    live_threads (ma_registry W') = live_threads (ma_registry W) \<and>
    (\<forall>r. has_collector_context (reg_thread (ma_registry W') r) = has_collector_context (reg_thread (ma_registry W) r))"
  using assms
proof (induction rs arbitrary: v W)
  case (Cons r rs)
  obtain W1 where W1: "flush_thread K r W = Some W1"
    "ma_registry W1 = set_thread r (flushed (reg_thread (ma_registry W) r)) (ma_registry W)"
    using flush_thread_returns [OF Cons.prems(1)] by blast
  obtain g v1 where g: "visitor r (ma_mutator W1 r) v = (g, v1)" by (cases "visitor r (ma_mutator W1 r) v")
  have b: "mutator_bound (reg_thread (ma_registry W1) r)"
    using Cons.prems(1,2) by (auto simp: W1(2) ready_def views_def buffer_view_def flushed_def)
  have q: "quiet (ma_registry W1)" using Cons.prems(3) by (simp add: W1(2) quiet_def flushed_def)
  have l: "live_threads (ma_registry W1) = live_threads (ma_registry W)"
    "has_collector_context (reg_thread (ma_registry W1) r') = has_collector_context (reg_thread (ma_registry W) r')" for r'
    by (simp_all add: W1(2) live_threads_def flushed_def)
  show ?case
    using Cons.IH [of "W1 \<lparr> ma_mutator := (ma_mutator W1)(r := g) \<rparr>" v1] ready_flushed [OF Cons.prems(1)] Cons.prems(2) W1 q b g l
    by simp
qed simp

lemma pause_ends:
  assumes "cooperative gc env" and "gc \<noteq> 0" and "quiet (ma_registry W)" and "reg_dying (ma_registry W) = []"
    and "ready K (set (live_threads (ma_registry W))) (ma_registry W)"
    and "\<forall>S. ready K (set (live_threads (ma_registry W))) S \<longrightarrow> ready K (set (live_threads (ma_registry W))) (env S)"
  shows "\<exists>v' W1 W2. stop_all_mutators env gc K visitor v W = Some (v', W1) \<and> resume_mutators gc W1 = Some W2 \<and>
    live_threads (ma_registry W2) = live_threads (ma_registry W) \<and>
    (\<forall>r \<in> set (live_threads (ma_registry W)). \<not> has_collector_context (reg_thread (ma_registry W) r) \<longrightarrow>
       \<not> is_blocked_for_gc (reg_thread (ma_registry W2) r) \<and> \<not> should_block_for_gc (reg_thread (ma_registry W2) r))"
proof -
  let ?L = "set (live_threads (ma_registry W))"
  obtain S where S: "block_rounds env gc (ma_registry W) = Some S" "table_keeps (ma_registry W) S"
    "block_all_mutators_for_gc env gc (ma_registry W) = Some (filter (\<lambda>r. is_blocked_for_gc (reg_thread S r)) (live_threads S), S)"
    using block_all_ends [OF assms(1-4)] by blast
  have q: "quiet S" using block_rounds_returns [OF assms(1-3)] S(1) by auto
  have live: "live_threads S = live_threads (ma_registry W)" using S(2) by (simp add: table_keeps_def live_threads_def)
  have "ready K ?L S" using block_rounds_views [OF S(1)] assms(5,6) by (simp add: ready_def)
  then obtain v' W1 where W1: "visit_mutators K visitor (filter (\<lambda>r. is_blocked_for_gc (reg_thread S r)) (live_threads S)) v
      (W \<lparr> ma_registry := S \<rparr>) = Some (v', W1)" "quiet (ma_registry W1)" "live_threads (ma_registry W1) = live_threads S"
      "\<forall>r. has_collector_context (reg_thread (ma_registry W1) r) = has_collector_context (reg_thread S r)"
    using visit_mutators_returns [where W = "W \<lparr> ma_registry := S \<rparr>" and L = ?L and K = K and v = v and visitor = visitor
        and rs = "filter (\<lambda>r. is_blocked_for_gc (reg_thread S r)) (live_threads S)"] q live by auto
  have "stop_all_mutators env gc K visitor v W = Some (v', W1)"
    by (simp add: stop_all_mutators_def S(3) W1(1))
  moreover obtain S2 where "unblock_all_mutators_for_gc gc (ma_registry W1) = Some S2"
    "reg_threads S2 = reg_threads (ma_registry W1)"
    "\<forall>r. reg_thread S2 r = (if r \<in> set (rev (filter (\<lambda>r. \<not> has_collector_context (reg_thread (ma_registry W1) r)) (live_threads (ma_registry W1))))
       then (reg_thread (ma_registry W1) r) \<lparr> is_blocked_for_gc := False, should_block_for_gc := False, monitor := freed [] \<rparr>
       else reg_thread (ma_registry W1) r)"
    using unblock_each_returns [OF assms(2) W1(2)] unfolding unblock_all_mutators_for_gc_def by blast
  moreover from this(2) have "live_threads S2 = live_threads (ma_registry W1)" by (simp add: live_threads_def)
  moreover have "has_collector_context (reg_thread S r) = has_collector_context (reg_thread (ma_registry W) r)" for r
    using S(2) by (simp add: table_keeps_def keeps_def)
  ultimately show ?thesis by (auto simp: resume_mutators_def W1 live)
qed


text \<open>Two mutators for the witnesses, one in managed and one in native code, with buffers.\<close>

definition buffered_thread :: "thread_ref \<Rightarrow> barrier_selector thread" where
  "buffered_thread r = (the (for_mutator NoBarrier 1 False)) \<lparr> mutator_bound := True,
     exec_status := (if r = 0 then InManaged else InNative), tl_tlab := \<lparr> cursor = 4096, limit = 8192 \<rparr>,
     index_in_manager := word_of_nat r \<rparr>"

definition buffered_machine :: "(address \<times> address) machine" where
  "buffered_machine = \<lparr> ma_registry = (registry_new buffered_thread) \<lparr> reg_threads := [Some 0, Some 1] \<rparr>,
     ma_mutator = (\<lambda>_. (0, 0)), ma_mem = (\<lambda>_. 0) \<rparr>"

lemma buffered_thread_fields [simp]:
  "monitor (buffered_thread r) = mon_new" "mutator_bound (buffered_thread r)" "\<not> has_collector_context (buffered_thread r)"
  "\<not> ignore_handshakes_and_gc (buffered_thread r)" "tl_tlab (buffered_thread r) = \<lparr> cursor = 4096, limit = 8192 \<rparr>"
  by (simp_all add: buffered_thread_def for_mutator_def new_unchecked_def)

lemma buffered_machine_simps [simp]:
  "quiet (ma_registry buffered_machine)" "reg_dying (ma_registry buffered_machine) = []"
  "live_threads (ma_registry buffered_machine) = [0, 1]" "ready bump_mmtk L (ma_registry buffered_machine)"
  "reg_thread (ma_registry buffered_machine) = buffered_thread"
  by (simp_all add: buffered_machine_def registry_new_def quiet_def live_threads_def List.map_filter_def ready_def views_def
      buffer_view_def has_tlab_def bump_mmtk_def)

lemma escaping_view: "buffer_view (the (enter_native_blocked [GCBlockAdapter] 1 t)) = buffer_view t"
  if "mon_free (monitor t)" for t :: "'b thread"
  using enter_native_blocked_free [OF _ that, of "[GCBlockAdapter]" 1] by (simp add: gc_list_def buffer_view_def)

text \<open>\<^const>\<open>escaping\<close> for states that keep the monitors free.\<close>

definition escaping_free :: "'b registry \<Rightarrow> 'b registry" where
  "escaping_free S = (if quiet S then escaping S else S)"

lemma cooperative_escaping_free: "cooperative gc escaping_free"
  using cooperative_escaping by (simp add: cooperative_def escaping_free_def)

lemma ready_escaping_free: "ready K L S \<Longrightarrow> ready K L (escaping_free S)"
proof -
  have "buffer_view (reg_thread (escaping_free S) r) = buffer_view (reg_thread S r)" for r
    using escaping_view by (auto simp: escaping_free_def escaping_def quiet_def Let_def)
  then show "ready K L S \<Longrightarrow> ready K L (escaping_free S)" by (simp add: ready_def views_def)
qed



section \<open>The end of a thread\<close>

text \<open>
  A thread without a mutator cannot end. Concurrent and collector threads never bind a mutator,
  but \<open>terminate\<close>, which every thread started by \<open>start\<close> runs at its end, destroys the mutator
  without asking: it reads the uninitialised one.
\<close>

theorem thread_without_mutator_cannot_end:
  assumes "for_concurrent NB i cs = Some t \<or> for_collector NB i cs = Some t" and "reg_thread S r = t"
    and "startoff_begin P Xs me sp r (thread_start r S) = Some (Returned S')"
  shows "terminate_current me' r S' = None"
proof -
  have t: "has_collector_context t \<or> ignore_handshakes_and_gc t" "\<not> mutator_bound t"
    using assms(1) by (auto simp: for_concurrent_def for_collector_def new_unchecked_def split: if_splits)
  obtain S1 where p: "process_about_to_terminate (set_thread r (prepare_thread P (t \<lparr> exec_status := InManaged \<rparr>)) S) = Some S1"
    using assms(2,3) by (auto simp: startoff_begin_def thread_start_def add_thread_def set_thread_def split: Option.bind_splits)
  have S1: "reg_thread S1 r = prepare_thread P (t \<lparr> exec_status := InManaged \<rparr>)"
    using process_frame [OF p] by simp
  have prep: "\<not> mutator_bound (prepare_thread P (t \<lparr> exec_status := InManaged \<rparr>))"
    "exec_status (prepare_thread P (t \<lparr> exec_status := InManaged \<rparr>)) = InManaged"
    using t by (auto simp: prepare_thread_def Let_def)
  have "\<not> mutator_bound (reg_thread S' r)"
    using assms(2,3) p S1 prep
    by (auto simp: startoff_begin_def thread_start_def add_thread_def set_thread_def parked_enter_def parked_leave_def
        enter_native_managed register_thread_def leave_native_def attempt_leave_simps Let_def split: Option.bind_splits if_splits)
  then have "thread_terminate me' (reg_thread S' r) = None"
    by (auto simp: thread_terminate_def add_about_to_terminate_def thread_notify_all_def thread_unlock_def
        dest!: thread_lock_monitor split: Option.bind_splits)
  then show ?thesis by (simp add: terminate_current_def)
qed

theorem thread_without_mutator_cannot_end_witness:
  "\<exists>S'. startoff_begin \<lparr> plan_max_non_los = 4096, plan_barrier = NoBarrier, plan_selector = Immix \<rparr> [GCBlockAdapter] 1 4096 0
       (thread_start 0 (registry_new (\<lambda>_. the (for_concurrent NoBarrier 1 False)))) = Some (Returned S') \<and>
     terminate_current 1 0 S' = None"
proof -
  let ?P = "\<lparr> plan_max_non_los = 4096, plan_barrier = NoBarrier, plan_selector = Immix \<rparr> :: barrier_selector plan"
  let ?S = "registry_new (\<lambda>_. the (for_concurrent NoBarrier 1 False)) :: barrier_selector registry"
  have t: "for_concurrent NoBarrier 1 False = Some (the (for_concurrent NoBarrier 1 False :: barrier_selector thread option))"
    by (simp add: for_concurrent_def new_unchecked_def)
  have "\<exists>S'. startoff_begin ?P [GCBlockAdapter] 1 4096 0 (thread_start 0 ?S) = Some (Returned S')"
    by (simp add: startoff_begin_def thread_start_def add_thread_def process_idle parked_enter_def prepare_keeps
        enter_native_managed parked_leave_def leave_native_def attempt_leave_simps register_thread_def registry_new_def Let_def)
  moreover have "reg_thread ?S 0 = the (for_concurrent NoBarrier 1 False)" by (simp add: registry_new_def)
  ultimately show ?thesis
    using thread_without_mutator_cannot_end [OF disjI1 [OF t], of ?S 0 ?P "[GCBlockAdapter]" 1 4096] by blast
qed

lemma reachable_not_terminated:
  assumes "gc_list Xs" and "me \<noteq> 0" and "gc \<noteq> 0" and "world_reachable Xs me gc W"
  shows "exec_status (thr W) \<noteq> Terminated"
  using world_reachable_inv [OF assms]
  by (cases "mutator_at W") (auto simp: world_inv_def state_at_def)

lemma nothing_terminated:
  assumes "\<forall>r \<in> set (live_threads S). exec_status (reg_thread S r) \<noteq> Terminated"
    and "process_about_to_terminate S = Some S'"
  shows "S' = S"
proof -
  have "find_terminated S is \<noteq> Some (Some (i, r))" for "is" i r
    using find_terminated_found [of S "is" i r] assms(1) live_iff_nth [of r S] by blast
  then show ?thesis
    using assms(2) by (auto simp: process_about_to_terminate.simps [of S] split: option.splits)
qed

text \<open>
  An ended thread is never removed from the table. No step of a mutator or of the collector,
  in any interleaving, sets the state \<open>Terminated\<close>, and \<open>process_about_to_terminate\<close> removes only
  threads in this state: when it returns it has removed nothing.
\<close>

theorem ended_threads_stay_registered:
  assumes "gc_list Xs" and "gc \<noteq> 0"
    and "\<forall>r \<in> set (live_threads S). \<exists>me W. me \<noteq> 0 \<and> world_reachable Xs me gc W \<and> reg_thread S r = thr W"
    and "process_about_to_terminate S = Some S'"
  shows "S' = S"
  using assms(3) reachable_not_terminated [OF assms(1) _ assms(2)] by (intro nothing_terminated [OF _ assms(4)]) fastforce

theorem ended_threads_stay_registered_witness:
  "\<exists>S :: unit registry. is_about_to_terminate (reg_thread S 0) \<and> reg_threads S = [Some 0] \<and> reg_dying S = [0] \<and>
     process_about_to_terminate S = Some S"
proof -
  let ?Xs = "[GCBlockAdapter] :: unit block_adapter list"
  let ?t = "managed_thread \<lparr> mutator_bound := True \<rparr>"
  obtain t where t: "thread_terminate 1 ?t = Some t" "is_about_to_terminate t"
    using thread_terminate_free [of ?t 1] by simp
  let ?W = "\<lparr> thr = ?t, mutator_at = Running, gc_at = GcIdle, gc_stopped = False \<rparr> :: unit world"
  have "started ?t" by (simp add: started_def managed_thread_def for_mutator_def new_unchecked_def)
  then have "world_reachable ?Xs 1 2 ?W" by (rule world_reachable.initial)
  moreover have "world_step ?Xs 1 2 ?W (?W \<lparr> thr := t, mutator_at := Dying \<rparr>)"
    using t by (intro world_step.die) simp_all
  ultimately have w: "world_reachable ?Xs 1 2 (?W \<lparr> thr := t, mutator_at := Dying \<rparr>)" by (rule world_reachable.step)
  let ?S = "empty_registry \<lparr> reg_threads := [Some 0], reg_dying := [0], reg_thread := (\<lambda>_. t) \<rparr>"
  have s: "live_threads ?S = [0]" by (simp add: live_threads_def List.map_filter_def)
  have g: "gc_list ?Xs" by (simp add: gc_list_def)
  have "exec_status t \<noteq> Terminated" using reachable_not_terminated [OF g _ _ w] by simp
  then obtain S' where S': "process_about_to_terminate ?S = Some S'"
    by (simp add: process_about_to_terminate.simps [of ?S])
  have "S' = ?S"
    by (rule ended_threads_stay_registered [OF g, of 2]) (use w S' s in \<open>auto intro!: exI [of _ "1 :: slot"] exI [of _ "?W \<lparr> thr := t, mutator_at := Dying \<rparr>"]\<close>)
  with S' t(2) show ?thesis by (intro exI [of _ ?S]) simp
qed
end
