(* ===== verification/Vmkit_Pairing.thy ===== *)
theory Vmkit_Pairing
  imports Vmkit_Collection
begin

text \<open>
  \<open>block\<close> and \<open>async_block\<close> of \<open>threading.rs\<close>: a thread blocks another one after it has locked the
  communication locks of both, the other's first. Every interleaving of two threads that do this
  to each other is considered: their critical sections exclude each other, but the opposite orders
  of the locks lead to a deadlock.
\<close>

section \<open>Pairing\<close>

text \<open>The lock of thread \<^term>\<open>r\<close>, taken by the native thread \<^term>\<open>me\<close>.\<close>

definition lock_communication :: "slot \<Rightarrow> thread_ref \<Rightarrow> 'b registry \<Rightarrow> 'b registry option" where
  "lock_communication me r S = map_option
     (\<lambda>M. set_thread r ((reg_thread S r) \<lparr> communication_lock := M \<rparr>) S)
     (lock_no_handshake me (communication_lock (reg_thread S r)))"

definition drop_communication :: "thread_ref \<Rightarrow> 'b registry \<Rightarrow> 'b registry" where
  "drop_communication r S =
     set_thread r ((reg_thread S r) \<lparr> communication_lock := guard_drop (communication_lock (reg_thread S r)) \<rparr>) S"

definition begin_pair_with :: "slot \<Rightarrow> thread_ref \<Rightarrow> thread_ref \<Rightarrow> 'b registry \<Rightarrow> 'b registry option" where
  "begin_pair_with me self other S = do {
     S \<leftarrow> lock_communication me self S;
     lock_communication me other S
   }"

definition begin_pair_with_current :: "slot \<Rightarrow> thread_ref \<Rightarrow> thread_ref \<Rightarrow> 'b registry \<Rightarrow> 'b registry option" where
  "begin_pair_with_current me current self S = begin_pair_with me self current S"

section \<open>Blocking a thread\<close>

text \<open>
  \<open>block_unchecked\<close> with its waits: \<^term>\<open>env\<close> is what all other threads do until the caller is
  woken. A thread that blocks itself answers its own state.
\<close>

partial_function (option) wait_for_block ::
  "('b registry \<Rightarrow> 'b registry) \<Rightarrow> 'b block_adapter \<Rightarrow> token \<Rightarrow> slot \<Rightarrow> thread_ref \<Rightarrow> usize \<times> slot \<Rightarrow> 'b registry
     \<Rightarrow> (thread_state \<times> 'b registry) option" where
  "wait_for_block env A tok me r s S =
     (case block_wake A tok me s (reg_thread (env S) r) of
        None \<Rightarrow> wait_for_block env A tok me r s (env S)
      | Some (Parked s (st, t)) \<Rightarrow> wait_for_block env A tok me r s (set_thread r t (env S))
      | Some (Returned (st, t)) \<Rightarrow> Some (st, set_thread r t (env S)))"

partial_function (option) wait_while_blocked ::
  "('b registry \<Rightarrow> 'b registry) \<Rightarrow> 'b block_adapter list \<Rightarrow> slot \<Rightarrow> thread_ref \<Rightarrow> usize \<times> slot \<Rightarrow> 'b registry
     \<Rightarrow> (thread_state \<times> 'b registry) option" where
  "wait_while_blocked env Xs me r s S =
     (case block_self_wake Xs me s (reg_thread (env S) r) of
        None \<Rightarrow> wait_while_blocked env Xs me r s (env S)
      | Some (Parked s t) \<Rightarrow> wait_while_blocked env Xs me r s (set_thread r t (env S))
      | Some (Returned t) \<Rightarrow> Some (exec_status t, set_thread r t (env S)))"

definition block_and_wait ::
  "('b registry \<Rightarrow> 'b registry) \<Rightarrow> 'b block_adapter list \<Rightarrow> 'b block_adapter \<Rightarrow> slot \<Rightarrow> address \<Rightarrow> thread_ref \<Rightarrow> thread_ref
     \<Rightarrow> bool \<Rightarrow> 'b registry \<Rightarrow> (thread_state \<times> 'b registry) option" where
  "block_and_wait env Xs A me sp current self asynchronous S =
     (if thread_id (reg_thread S current) = thread_id (reg_thread S self)
      then do {
        b \<leftarrow> block_self Xs A me sp (reg_thread S self);
        (case b of
           Returned t \<Rightarrow> Some (exec_status t, set_thread self t S)
         | Parked s t \<Rightarrow> wait_while_blocked env Xs me self s (set_thread self t S))
      }
      else do {
        b \<leftarrow> block_unchecked A me asynchronous (reg_thread S self);
        (case b of
           Returned (st, t) \<Rightarrow> Some (st, set_thread self t S)
         | Parked s (st, t) \<Rightarrow>
             wait_for_block env A (fst (ba_request_block A (reg_thread S self))) me self s (set_thread self t S))
      })"

definition safe_block_impl ::
  "('b registry \<Rightarrow> 'b registry) \<Rightarrow> 'b block_adapter list \<Rightarrow> 'b block_adapter \<Rightarrow> slot \<Rightarrow> address \<Rightarrow> thread_ref \<Rightarrow> thread_ref
     \<Rightarrow> bool \<Rightarrow> 'b registry \<Rightarrow> (thread_state \<times> 'b registry) option" where
  "safe_block_impl env Xs A me sp current self asynchronous S = do {
     S \<leftarrow> begin_pair_with_current me current self S;
     (result, S) \<leftarrow> block_and_wait env Xs A me sp current self asynchronous S;
     Some (result, drop_communication current (drop_communication self S))
   }"

definition block_thread ::
  "('b registry \<Rightarrow> 'b registry) \<Rightarrow> 'b block_adapter list \<Rightarrow> 'b block_adapter \<Rightarrow> slot \<Rightarrow> address \<Rightarrow> thread_ref \<Rightarrow> thread_ref
     \<Rightarrow> 'b registry \<Rightarrow> (thread_state \<times> 'b registry) option" where
  "block_thread env Xs A me sp current self S = safe_block_impl env Xs A me sp current self False S"

definition async_block ::
  "('b registry \<Rightarrow> 'b registry) \<Rightarrow> 'b block_adapter list \<Rightarrow> 'b block_adapter \<Rightarrow> slot \<Rightarrow> address \<Rightarrow> thread_ref \<Rightarrow> thread_ref
     \<Rightarrow> 'b registry \<Rightarrow> (thread_state \<times> 'b registry) option" where
  "async_block env Xs A me sp current self S = safe_block_impl env Xs A me sp current self True S"

lemma lock_communication_free:
  assumes "mon_free (communication_lock (reg_thread S r))" and "me \<noteq> 0"
  shows "lock_communication me r S = Some (set_thread r ((reg_thread S r)
    \<lparr> communication_lock := mon_held me 1 (cvar (communication_lock (reg_thread S r))) \<rparr>) S)"
  using assms
  by (cases "communication_lock (reg_thread S r)")
    (simp add: lock_communication_def lock_no_handshake_def mutex_lock_def mon_free_def mon_held_def)

lemma lock_communication_held:
  "communication_lock (reg_thread S r) = mon_held you n c \<Longrightarrow> you \<noteq> me \<Longrightarrow> lock_communication me r S = None"
  by (simp add: lock_communication_def lock_no_handshake_def mutex_lock_def mon_held_def)

lemma guard_drop_held: "mon_free (guard_drop (mon_held me 1 c))"
  by (simp add: guard_drop_def mon_held_def mon_free_def Let_def)

lemma block_and_wait_stops:
  assumes "cooperative me env" and "me \<noteq> 0" and "quiet S" and "thread_id (reg_thread S current) \<noteq> thread_id (reg_thread S r)"
    and "\<forall>S r. communication_lock (reg_thread (env S) r) = communication_lock (reg_thread S r)"
  shows "\<exists>st S'. block_and_wait env Xs GCBlockAdapter me sp current r False S = Some (st, S') \<and> stopped (reg_thread S' r) \<and>
    (\<forall>r. communication_lock (reg_thread S' r) = communication_lock (reg_thread S r))"
proof -
  let ?t = "reg_thread S r"
  have m: "mon_free (monitor ?t)" using assms(3) by (simp add: quiet_def)
  note b = block_unchecked_free [OF m assms(2), of False]
  show ?thesis
  proof (cases "\<not> is_about_to_terminate ?t \<and> to_blocked (exec_status ?t) = InManagedToBlock \<and> \<not> is_blocked_for_gc ?t")
    case False
    then show ?thesis
      using assms(4) by (cases "exec_status ?t") (auto simp: block_and_wait_def b stopped_def not_running_def to_blocked_def requested_thread_def)
  next
    case True
    let ?S = "set_thread r ((requested_thread ?t) \<lparr> monitor := freed [me] \<rparr>) S"
    let ?e = "reg_thread (env ?S) r"
    have q: "quiet ?S" using assms(3) by simp
    have e: "mon_free (monitor ?e)" "me \<notin> set (cvar (monitor ?e))" "is_blocked_for_gc ?e \<or> is_about_to_terminate ?e"
      using assms(1) q True by (auto simp: cooperative_def answered_def requested_thread_def quiet_def)
    have "wait_for_block env GCBlockAdapter (TokenBool True) me r (1, me) ?S =
        Some (if is_about_to_terminate ?e then Terminated else exec_status ?e, set_thread r (?e \<lparr> monitor := freed (cvar (monitor ?e)) \<rparr>) (env ?S))"
      using e by (auto simp: wait_for_block.simps [of env GCBlockAdapter "TokenBool True" me r "(1, me)" ?S] block_wake_free)
    moreover have "fst (ba_request_block GCBlockAdapter ?t) = TokenBool True" by (simp add: GCBlockAdapter_def)
    ultimately show ?thesis
      using True assms(4,5) e by (auto simp: block_and_wait_def b requested_thread_def stopped_def)
  qed
qed

text \<open>
  \<open>block\<close> stops its target and leaves no lock behind. If the threads reach their safepoints and
  nobody else uses the communication locks of the two threads, \<open>block\<close> returns; then the target is
  blocked, about to terminate or not running, and both communication locks are free.
\<close>

theorem block_stops_and_unpairs:
  assumes "cooperative me env" and "me \<noteq> 0" and "quiet S" and "current \<noteq> r"
    and "thread_id (reg_thread S current) \<noteq> thread_id (reg_thread S r)"
    and "mon_free (communication_lock (reg_thread S current))" and "mon_free (communication_lock (reg_thread S r))"
    and "\<forall>S r. communication_lock (reg_thread (env S) r) = communication_lock (reg_thread S r)"
  shows "\<exists>st S'. block_thread env Xs GCBlockAdapter me sp current r S = Some (st, S') \<and> stopped (reg_thread S' r) \<and>
    mon_free (communication_lock (reg_thread S' current)) \<and> mon_free (communication_lock (reg_thread S' r))"
proof -
  let ?c = "cvar (communication_lock (reg_thread S r))" and ?c' = "cvar (communication_lock (reg_thread S current))"
  let ?S1 = "set_thread r ((reg_thread S r) \<lparr> communication_lock := mon_held me 1 ?c \<rparr>) S"
  let ?S2 = "set_thread current ((reg_thread S current) \<lparr> communication_lock := mon_held me 1 ?c' \<rparr>) ?S1"
  have "begin_pair_with_current me current r S = Some ?S2"
    using lock_communication_free [of ?S1 current me] assms(2,4,6)
    by (simp add: begin_pair_with_current_def begin_pair_with_def lock_communication_free [OF assms(7,2)])
  moreover have "quiet ?S2" using assms(3) by (simp add: quiet_def)
  moreover have "thread_id (reg_thread ?S2 current) \<noteq> thread_id (reg_thread ?S2 r)" using assms(4,5) by simp
  ultimately obtain st S3 where "block_and_wait env Xs GCBlockAdapter me sp current r False ?S2 = Some (st, S3)"
      "stopped (reg_thread S3 r)" "\<forall>r. communication_lock (reg_thread S3 r) = communication_lock (reg_thread ?S2 r)"
      "begin_pair_with_current me current r S = Some ?S2"
    using block_and_wait_stops [OF assms(1,2) _ _ assms(8), of ?S2 current r] by blast
  then show ?thesis
    using assms(4)
    by (auto simp: block_thread_def safe_block_impl_def drop_communication_def guard_drop_held stopped_def)
qed

section \<open>Two threads that block each other\<close>

text \<open>How far each of the two threads is in its pairing with the other.\<close>

datatype pair_pc = Unpaired | HasTarget | Paired

record 'b pairing =
  pr_registry :: "'b registry"
  pr_pc :: "bool \<Rightarrow> pair_pc"

text \<open>Thread \<^term>\<open>who\<close> blocks thread \<^term>\<open>\<not> who\<close>; a guard is dropped in the order of \<open>safe_block_impl\<close>.\<close>

inductive pair_step ::
  "(bool \<Rightarrow> slot) \<Rightarrow> (bool \<Rightarrow> thread_ref) \<Rightarrow> 'b pairing \<Rightarrow> 'b pairing \<Rightarrow> bool"
  for slot_of :: "bool \<Rightarrow> slot" and ref :: "bool \<Rightarrow> thread_ref" where
  lock_target: "pr_pc P who = Unpaired \<Longrightarrow> lock_communication (slot_of who) (ref (\<not> who)) (pr_registry P) = Some S \<Longrightarrow>
    pair_step slot_of ref P \<lparr> pr_registry = S, pr_pc = (pr_pc P)(who := HasTarget) \<rparr>"
| lock_own: "pr_pc P who = HasTarget \<Longrightarrow> lock_communication (slot_of who) (ref who) (pr_registry P) = Some S \<Longrightarrow>
    pair_step slot_of ref P \<lparr> pr_registry = S, pr_pc = (pr_pc P)(who := Paired) \<rparr>"
| unpair: "pr_pc P who = Paired \<Longrightarrow>
    pair_step slot_of ref P \<lparr> pr_registry = drop_communication (ref who) (drop_communication (ref (\<not> who)) (pr_registry P)),
      pr_pc = (pr_pc P)(who := Unpaired) \<rparr>"

inductive_cases pair_stepE: "pair_step slot_of ref P P'"

inductive pair_reachable ::
  "(bool \<Rightarrow> slot) \<Rightarrow> (bool \<Rightarrow> thread_ref) \<Rightarrow> 'b pairing \<Rightarrow> bool"
  for slot_of :: "bool \<Rightarrow> slot" and ref :: "bool \<Rightarrow> thread_ref" where
  initial: "mon_free (communication_lock (reg_thread S (ref True))) \<Longrightarrow> mon_free (communication_lock (reg_thread S (ref False))) \<Longrightarrow>
    pair_reachable slot_of ref \<lparr> pr_registry = S, pr_pc = (\<lambda>_. Unpaired) \<rparr>"
| step: "pair_reachable slot_of ref P \<Longrightarrow> pair_step slot_of ref P P' \<Longrightarrow> pair_reachable slot_of ref P'"

text \<open>Who holds the lock of thread \<^term>\<open>ref w\<close>.\<close>

definition pair_owner :: "'b pairing \<Rightarrow> bool \<Rightarrow> bool option" where
  "pair_owner P w = (if pr_pc P (\<not> w) \<noteq> Unpaired then Some (\<not> w) else if pr_pc P w = Paired then Some w else None)"

definition pair_inv :: "(bool \<Rightarrow> slot) \<Rightarrow> (bool \<Rightarrow> thread_ref) \<Rightarrow> 'b pairing \<Rightarrow> bool" where
  "pair_inv slot_of ref P \<longleftrightarrow> (\<forall>w. \<not> (pr_pc P w = Paired \<and> pr_pc P (\<not> w) \<noteq> Unpaired) \<and>
     (let M = communication_lock (reg_thread (pr_registry P) (ref w))
      in case pair_owner P w of None \<Rightarrow> mon_free M | Some v \<Rightarrow> (\<exists>c. M = mon_held (slot_of v) 1 c)))"

lemma pair_step_inv:
  assumes "pair_inv slot_of ref P" and "pair_step slot_of ref P P'"
    and "slot_of True \<noteq> 0" and "slot_of False \<noteq> 0" and "slot_of True \<noteq> slot_of False" and "ref True \<noteq> ref False"
  shows "pair_inv slot_of ref P'"
proof -
  have n: "slot_of w \<noteq> 0" "slot_of w \<noteq> slot_of (\<not> w)" "ref w \<noteq> ref (\<not> w)" for w using assms(3-6) by (cases w; simp)+
  note i = assms(1) [unfolded pair_inv_def]
  show ?thesis
    using assms(2)
  proof (cases rule: pair_step.cases)
    case (lock_target who S)
    let ?M = "communication_lock (reg_thread (pr_registry P) (ref (\<not> who)))"
    have "pr_pc P (\<not> who) \<noteq> Paired"
      using i [rule_format, of "\<not> who"] lock_target(2,3) lock_communication_held [of "pr_registry P" "ref (\<not> who)"] n(2) [of who]
      by (auto simp: pair_owner_def Let_def)
    moreover from this have "mon_free ?M"
      using i [rule_format, of "\<not> who"] lock_target(2) by (simp add: pair_owner_def Let_def)
    from lock_communication_free [OF this n(1)]
    have "S = set_thread (ref (\<not> who)) ((reg_thread (pr_registry P) (ref (\<not> who)))
      \<lparr> communication_lock := mon_held (slot_of who) 1 (cvar ?M) \<rparr>) (pr_registry P)"
      using lock_target(3) by simp
    ultimately show ?thesis
      using i [rule_format, of who] i [rule_format, of "\<not> who"] lock_target(1,2) n(3) [of who]
      by (cases who) (auto simp: pair_inv_def pair_owner_def all_bool_eq Let_def)
  next
    case (lock_own who S)
    let ?M = "communication_lock (reg_thread (pr_registry P) (ref who))"
    have "pr_pc P (\<not> who) = Unpaired"
      using i [rule_format, of who] lock_own(2,3) lock_communication_held [of "pr_registry P" "ref who"] n(2) [of who]
      by (cases "pr_pc P (\<not> who) = Unpaired") (auto simp: pair_owner_def Let_def)
    moreover from this have "mon_free ?M"
      using i [rule_format, of who] lock_own(2) by (simp add: pair_owner_def Let_def)
    from lock_communication_free [OF this n(1)]
    have "S = set_thread (ref who) ((reg_thread (pr_registry P) (ref who))
      \<lparr> communication_lock := mon_held (slot_of who) 1 (cvar ?M) \<rparr>) (pr_registry P)"
      using lock_own(3) by simp
    ultimately show ?thesis
      using i [rule_format, of who] i [rule_format, of "\<not> who"] lock_own(1,2) n(3) [of who]
      by (cases who) (auto simp: pair_inv_def pair_owner_def all_bool_eq Let_def)
  next
    case (unpair who)
    then have "pr_pc P (\<not> who) = Unpaired" using i by auto
    then show ?thesis
      using i [rule_format, of who] i [rule_format, of "\<not> who"] unpair(1,2) n(3) [of who]
      by (cases who) (auto simp: pair_inv_def pair_owner_def all_bool_eq drop_communication_def guard_drop_held Let_def)
  qed
qed

lemma pair_reachable_inv:
  assumes "pair_reachable slot_of ref P" and "slot_of True \<noteq> 0" and "slot_of False \<noteq> 0"
    and "slot_of True \<noteq> slot_of False" and "ref True \<noteq> ref False"
  shows "pair_inv slot_of ref P"
  using assms(1)
proof (induction rule: pair_reachable.induct)
  case (initial S)
  then show ?case by (simp add: pair_inv_def pair_owner_def all_bool_eq)
next
  case (step P P')
  then show ?case using pair_step_inv [OF _ _ assms(2-5)] by blast
qed

text \<open>
  Pairing excludes the partner. In every interleaving of two threads that pair with each other,
  while one is paired the other holds none of the two locks.
\<close>

theorem paired_thread_excludes_partner:
  assumes "pair_reachable slot_of ref P" and "slot_of True \<noteq> 0" and "slot_of False \<noteq> 0"
    and "slot_of True \<noteq> slot_of False" and "ref True \<noteq> ref False" and "pr_pc P who = Paired"
  shows "pr_pc P (\<not> who) = Unpaired"
  using pair_reachable_inv [OF assms(1-5)] assms(6) by (auto simp: pair_inv_def)


text \<open>Two threads with different identifiers, for the witnesses; thread 1 is in native code.\<close>

definition two_threads :: "unit registry" where
  "two_threads = registry_new (\<lambda>r. managed_thread \<lparr> thread_id := word_of_nat r, exec_status := (if r = 1 then InNative else InManaged) \<rparr>)"

lemma two_threads_simps [simp]:
  "mon_free (communication_lock (reg_thread two_threads r))" "quiet two_threads"
  "thread_id (reg_thread two_threads 0) \<noteq> thread_id (reg_thread two_threads (Suc 0))"
  by (simp_all add: two_threads_def registry_new_def managed_thread_def for_mutator_def new_unchecked_def quiet_def)

lemma escaping_free_communication:
  "communication_lock (reg_thread (escaping_free S) r) = communication_lock (reg_thread S r)"
proof -
  have "communication_lock (the (enter_native_blocked [GCBlockAdapter] 1 t)) = communication_lock t" if "mon_free (monitor t)" for t :: "'b thread"
    using enter_native_blocked_free [OF _ that, of "[GCBlockAdapter]" 1] by (simp add: gc_list_def)
  then show ?thesis by (auto simp: escaping_free_def escaping_def quiet_def Let_def)
qed

theorem block_stops_and_unpairs_witness:
  "\<exists>st S'. block_thread escaping_free [GCBlockAdapter] GCBlockAdapter 5 4096 0 1 two_threads = Some (st, S') \<and>
     stopped (reg_thread S' 1) \<and> mon_free (communication_lock (reg_thread S' 0))"
  using block_stops_and_unpairs [OF cooperative_escaping_free, of 5 two_threads 0 1 "[GCBlockAdapter]" 4096]
  by (simp add: escaping_free_communication) blast

theorem paired_thread_excludes_partner_witness:
  "\<exists>P :: unit pairing. pair_reachable (\<lambda>w. if w then 5 else 7) (\<lambda>w. if w then 0 else 1) P \<and>
     pr_pc P True = Paired \<and> pr_pc P False = Unpaired"
proof -
  let ?R = "pair_reachable (\<lambda>w. if w then 5 else 7) (\<lambda>w. if w then 0 else 1) :: unit pairing \<Rightarrow> bool"
  let ?P0 = "\<lparr> pr_registry = two_threads, pr_pc = (\<lambda>_. Unpaired) \<rparr>"
  have r0: "?R ?P0" by (rule pair_reachable.initial) simp_all
  obtain S1 where S1: "lock_communication 5 1 two_threads = Some S1"
      "communication_lock (reg_thread S1 0) = communication_lock (reg_thread two_threads 0)"
    using lock_communication_free [of two_threads 1 5] by simp
  have r1: "?R \<lparr> pr_registry = S1, pr_pc = (\<lambda>_. Unpaired)(True := HasTarget) \<rparr>"
    using pair_reachable.step [OF r0 pair_step.lock_target [where who = True and S = S1]] S1(1) by simp
  obtain S2 where S2: "lock_communication 5 0 S1 = Some S2"
    using lock_communication_free [of S1 0 5] S1(2) by simp
  have r2: "?R \<lparr> pr_registry = S2, pr_pc = (\<lambda>_. Unpaired)(True := Paired) \<rparr>"
    using pair_reachable.step [OF r1 pair_step.lock_own [where who = True and S = S2]] S2 by simp
  from paired_thread_excludes_partner [OF r2, of True] r2 show ?thesis by auto
qed

end
