(* ===== verification/Vmkit_Slots.thy ===== *)
theory Vmkit_Slots
  imports Vmkit_Scanning Vmkit_ObjectModel
begin

text \<open>
  \<open>mm/traits.rs\<close>: values as slots. \<open>ToSlot\<close> and \<open>Scan\<close> give the collector the addresses at which
  a value keeps its references, where \<open>Trace\<close> hands it the references themselves. A value is known
  here by the address it is at; the unimplemented conversions panic, which is \<^const>\<open>None\<close>.
\<close>

section \<open>Slots\<close>

text \<open>
  The slot types of the sources, \<open>SimpleSlot\<close> and \<open>Address\<close>, are addresses. Neither overrides the
  conversions of fat internal pointers and of narrow references.
\<close>

datatype slot_type = SimpleSlot | AddressSlot

fun slot_from_vmkit_object :: "slot_type \<Rightarrow> address \<Rightarrow> address" where
  "slot_from_vmkit_object SimpleSlot object_at = object_at"
| "slot_from_vmkit_object AddressSlot object_at = object_at"

fun slot_from_internal_pointer :: "slot_type \<Rightarrow> address \<Rightarrow> address option" where
  "slot_from_internal_pointer SimpleSlot pointer = None"
| "slot_from_internal_pointer AddressSlot pointer = None"

fun slot_from_address :: "slot_type \<Rightarrow> address \<Rightarrow> address" where
  "slot_from_address SimpleSlot a = a"
| "slot_from_address AddressSlot a = a"

fun slot_as_address :: "slot_type \<Rightarrow> address \<Rightarrow> address" where
  "slot_as_address SimpleSlot slot = slot"
| "slot_as_address AddressSlot slot = slot"

definition slot_from_fat_internal_pointer :: "slot_type \<Rightarrow> fat_internal_pointer \<Rightarrow> address option" where
  "slot_from_fat_internal_pointer SL pointer = None"

definition slot_from_narrow :: "slot_type \<Rightarrow> address \<Rightarrow> address option" where
  "slot_from_narrow SL narrow_at = None"

text \<open>\<open>to_slot\<close> answers an optional slot or panics.\<close>

definition object_to_slot :: "slot_type \<Rightarrow> address \<Rightarrow> address option option" where
  "object_to_slot SL self_at = Some (Some (slot_from_vmkit_object SL self_at))"

definition prim_to_slot :: "slot_type \<Rightarrow> address \<Rightarrow> address option option" where
  "prim_to_slot SL self_at = Some None"

text \<open>\<open>object()\<close> of a fat pointer returns a copy of the reference, which is at \<^term>\<open>temporary\<close>.\<close>

definition fat_to_slot :: "slot_type \<Rightarrow> address \<Rightarrow> address \<Rightarrow> address option option" where
  "fat_to_slot SL temporary self_at = do {
     slot \<leftarrow> object_to_slot SL temporary;
     slot \<leftarrow> slot;
     Some (Some slot)
   }"

definition narrow_to_slot :: "slot_type \<Rightarrow> address \<Rightarrow> address option option" where
  "narrow_to_slot SL self_at = map_option Some (slot_from_narrow SL self_at)"

section \<open>Scanning values\<close>

text \<open>An implementation of \<open>Scan\<close>: it calls the visitor for the slots of the value at an address.\<close>

type_synonym 's scan_fun = "('s \<Rightarrow> address \<Rightarrow> 's) \<Rightarrow> 's \<Rightarrow> address \<Rightarrow> 's option"

definition object_scan :: "slot_type \<Rightarrow> 's scan_fun" where
  "object_scan SL visit S self_at = do {
     slot \<leftarrow> object_to_slot SL self_at;
     Some (case slot of Some slot \<Rightarrow> visit S slot | None \<Rightarrow> S)
   }"

definition prim_scan :: "'s scan_fun" where
  "prim_scan visit S self_at = Some S"

definition fat_scan :: "slot_type \<Rightarrow> address \<Rightarrow> 's scan_fun" where
  "fat_scan SL temporary visit S self_at = do {
     slot \<leftarrow> object_to_slot SL temporary;
     slot \<leftarrow> slot;
     Some (visit S slot)
   }"

definition narrow_scan :: "slot_type \<Rightarrow> 's scan_fun" where
  "narrow_scan SL visit S self_at = do {
     slot \<leftarrow> slot_from_narrow SL self_at;
     Some (visit S slot)
   }"

text \<open>Vectors and arrays: the elements in order, given by the addresses they are at.\<close>

definition element_addresses :: "address \<Rightarrow> nat \<Rightarrow> nat \<Rightarrow> address list" where
  "element_addresses data size_of n = map (\<lambda>i. data + word_of_nat (size_of * i)) [0..<n]"

fun list_scan :: "'s scan_fun \<Rightarrow> ('s \<Rightarrow> address \<Rightarrow> 's) \<Rightarrow> 's \<Rightarrow> address list \<Rightarrow> 's option" where
  "list_scan f visit S [] = Some S"
| "list_scan f visit S (value # vs) = Option.bind (f visit S value) (\<lambda>S. list_scan f visit S vs)"

text \<open>\<open>Box\<close>: tracing goes to the value in the box.\<close>

definition box_trace :: "('w, 'a) trace_fun \<Rightarrow> ('w, 'a) trace_fun" where
  "box_trace f tracer w self = f tracer w self"

section \<open>Scanning and tracing agree\<close>

text \<open>A tracer that leaves the memory of the objects alone.\<close>

definition on_tracer :: "'w tracer \<Rightarrow> 'w scan_state \<Rightarrow> address \<Rightarrow> address \<times> 'w scan_state" where
  "on_tracer t S obj = (let (new_object, w) = t (sc_tracer S) obj in (new_object, S \<lparr> sc_tracer := w \<rparr>))"

definition separate :: "address list \<Rightarrow> bool" where
  "separate as \<longleftrightarrow> distinct as \<and> (\<forall>a \<in> set as. \<forall>b \<in> set as. a \<noteq> b \<longrightarrow> disjoint_ranges a 8 b 8)"

lemma disjoint_iff: "disjoint_ranges a 8 b 8 \<longleftrightarrow> 8 \<le> unat (b - a) \<and> unat (b - a) + 8 \<le> 2 ^ 64"
proof (cases "b - a = 0")
  case False
  have "unat (- (b - a)) = 2 ^ 64 - unat (b - a)" by (rule unat_uminus [OF False])
  moreover have "- (b - a) = a - b" by simp
  ultimately have "unat (a - b) = 2 ^ 64 - unat (b - a)" by metis
  moreover have "unat (b - a) < 2 ^ 64" by (rule unat_less_2_64)
  ultimately show ?thesis unfolding disjoint_ranges_def by linarith
qed (simp add: disjoint_ranges_def)

lemma load_store_disjoint: "disjoint_ranges a 8 b 8 \<Longrightarrow> load64 (store64 m a v) b = load64 m b"
  unfolding disjoint_iff by (intro load_store_other) simp_all

lemma object_scan_traces:
  "\<exists>S'. object_scan SL (trace_slot_visitor (on_tracer t)) S a = Some S' \<and>
     (load64 (sc_mem S') a, sc_tracer S') = object_trace t (sc_tracer S) (load64 (sc_mem S) a) \<and>
     (\<forall>b. disjoint_ranges a 8 b 8 \<longrightarrow> load64 (sc_mem S') b = load64 (sc_mem S) b) \<and>
     (\<forall>x. 8 \<le> unat (x - a) \<longrightarrow> sc_mem S' x = sc_mem S x)"
proof -
  have s: "slot_from_vmkit_object SL a = a" by (cases SL) simp_all
  show ?thesis
    by (cases "load64 (sc_mem S) a = 0")
      (auto simp: object_scan_def object_to_slot_def s trace_slot_visitor_def obj_try_into_def object_trace_def obj_is_null_def
        on_tracer_def load_store_disjoint store_bytes_outside Let_def split: prod.splits)
qed

lemma separate_Cons: "separate (a # as) \<longleftrightarrow> a \<notin> set as \<and> separate as \<and> (\<forall>b \<in> set as. disjoint_ranges a 8 b 8)"
  by (auto simp: separate_def disjoint_ranges_sym)

lemma list_scan_traces:
  assumes "separate as"
  shows "\<exists>S'. list_scan (object_scan SL) (trace_slot_visitor (on_tracer t)) S as = Some S' \<and>
     (map (load64 (sc_mem S')) as, sc_tracer S') = list_trace object_trace t (sc_tracer S) (map (load64 (sc_mem S)) as) \<and>
     (\<forall>b. (\<forall>a \<in> set as. disjoint_ranges a 8 b 8) \<longrightarrow> load64 (sc_mem S') b = load64 (sc_mem S) b) \<and>
     (\<forall>x. (\<forall>a \<in> set as. 8 \<le> unat (x - a)) \<longrightarrow> sc_mem S' x = sc_mem S x)"
  using assms
proof (induction as arbitrary: S)
  case (Cons a as)
  obtain S1 where S1: "object_scan SL (trace_slot_visitor (on_tracer t)) S a = Some S1"
    "(load64 (sc_mem S1) a, sc_tracer S1) = object_trace t (sc_tracer S) (load64 (sc_mem S) a)"
    "\<forall>b. disjoint_ranges a 8 b 8 \<longrightarrow> load64 (sc_mem S1) b = load64 (sc_mem S) b"
    "\<forall>x. 8 \<le> unat (x - a) \<longrightarrow> sc_mem S1 x = sc_mem S x"
    using object_scan_traces [of SL t S a] by blast
  have sep: "separate as" "\<forall>b \<in> set as. disjoint_ranges a 8 b 8" using Cons.prems by (auto simp: separate_Cons)
  obtain S2 where S2: "list_scan (object_scan SL) (trace_slot_visitor (on_tracer t)) S1 as = Some S2"
    "(map (load64 (sc_mem S2)) as, sc_tracer S2) = list_trace object_trace t (sc_tracer S1) (map (load64 (sc_mem S1)) as)"
    "\<forall>b. (\<forall>a \<in> set as. disjoint_ranges a 8 b 8) \<longrightarrow> load64 (sc_mem S2) b = load64 (sc_mem S1) b"
    "\<forall>x. (\<forall>a \<in> set as. 8 \<le> unat (x - a)) \<longrightarrow> sc_mem S2 x = sc_mem S1 x"
    using Cons.IH [OF sep(1), of S1] by blast
  have "load64 (sc_mem S2) a = load64 (sc_mem S1) a" using S2(3) sep(2) disjoint_ranges_sym by blast
  moreover have "map (load64 (sc_mem S1)) as = map (load64 (sc_mem S)) as" using S1(3) sep(2) by simp
  moreover from this have "list_trace object_trace t (sc_tracer S1) (map (load64 (sc_mem S)) as) =
      (map (load64 (sc_mem S2)) as, sc_tracer S2)" using S2(2) by (simp only:)
  ultimately show ?case
    using S1 S2(1,3,4) by (auto simp: S1(2) [symmetric])
qed simp

lemma separate_map:
  assumes "\<And>i j. i < n \<Longrightarrow> j < n \<Longrightarrow> i \<noteq> j \<Longrightarrow> f i \<noteq> f j \<and> disjoint_ranges (f i) 8 (f j) 8"
  shows "separate (map f [0..<n])"
proof -
  have "inj_on f {0..<n}" using assms by (intro inj_onI) auto
  moreover have "disjoint_ranges (f i) 8 (f j) 8" if "i < n" "j < n" "f i \<noteq> f j" for i j
    using assms [of i j] that by auto
  ultimately show ?thesis by (auto simp: separate_def distinct_map)
qed

lemma separate_elements:
  assumes "unat data + 8 * n \<le> 2 ^ 64"
  shows "separate (element_addresses data 8 n)"
proof -
  have d: "disjoint_ranges (data + word_of_nat (8 * i)) 8 (data + word_of_nat (8 * j)) 8" if "i < j" "j < n" for i j
  proof -
    have "8 * j = 8 * i + 8 * (j - i)" using that by simp
    then have "word_of_nat (8 * j) = word_of_nat (8 * i) + (word_of_nat (8 * (j - i)) :: usize)"
      by (metis of_nat_add)
    then have e: "data + word_of_nat (8 * j) - (data + word_of_nat (8 * i)) = word_of_nat (8 * (j - i))" by simp
    have "unat (word_of_nat (8 * (j - i)) :: usize) = 8 * (j - i)"
      using that assms by (intro unat_word_of_nat) linarith
    then show ?thesis unfolding disjoint_iff e using that assms by linarith
  qed
  show ?thesis
    unfolding element_addresses_def
  proof (rule separate_map)
    fix i j :: nat assume ij: "i < n" "j < n" "i \<noteq> j"
    have "disjoint_ranges (data + word_of_nat (8 * i)) 8 (data + word_of_nat (8 * j)) 8"
      using d [of i j] d [of j i] ij disjoint_ranges_sym by (cases "i < j") (metis, metis linorder_neqE_nat)
    then show "data + word_of_nat (8 * i) \<noteq> data + word_of_nat (8 * j) \<and>
        disjoint_ranges (data + word_of_nat (8 * i)) 8 (data + word_of_nat (8 * j)) 8"
      by (metis diff_self disjoint_iff not_numeral_le_zero unat_0)
  qed
qed

section \<open>Properties\<close>

text \<open>
  C27: scanning a vector is the same as tracing it. When the collector cannot enqueue slots, it scans the
  vector with a visitor that traces what each slot holds and stores it back. Afterwards the
  elements in memory are those that tracing the vector's values gives, the tracer has seen the
  same references in the same order, and no other byte has changed.
\<close>

theorem vector_scan_equals_trace:
  assumes "unat data + 8 * n \<le> 2 ^ 64"
  shows "\<exists>S'. list_scan (object_scan SL) (trace_slot_visitor (on_tracer t)) S (element_addresses data 8 n) = Some S' \<and>
    (map (load64 (sc_mem S')) (element_addresses data 8 n), sc_tracer S') =
      list_trace object_trace t (sc_tracer S) (map (load64 (sc_mem S)) (element_addresses data 8 n)) \<and>
    (\<forall>x. 8 * n \<le> unat (x - data) \<longrightarrow> sc_mem S' x = sc_mem S x)"
proof -
  have far: "8 \<le> unat (x - a)" if f: "8 * n \<le> unat (x - data)" "a \<in> set (element_addresses data 8 n)" for x a
  proof -
    obtain i where i: "i < n" "a = data + word_of_nat (8 * i)" using f(2) by (auto simp: element_addresses_def)
    have u: "unat (word_of_nat (8 * i) :: usize) = 8 * i" using i(1) assms by (intro unat_word_of_nat) linarith
    have "x - a = (x - data) - word_of_nat (8 * i)" by (simp add: i(2))
    moreover have "word_of_nat (8 * i) \<le> x - data" using u i(1) f(1) unfolding word_le_nat_alt by linarith
    ultimately have "unat (x - a) = unat (x - data) - 8 * i" using u by (simp only: unat_sub)
    then show ?thesis using f(1) i(1) by linarith
  qed
  show ?thesis
    using list_scan_traces [OF separate_elements [OF assms], of SL t S] far by blast
qed

text \<open>A collector that moves every object up by a page and logs it, for the witnesses.\<close>

definition page_tracer :: "address list tracer" where
  "page_tracer log obj = (obj + 4096, log @ [obj])"

theorem vector_scan_equals_trace_witness:
  "\<exists>S'. list_scan (object_scan SimpleSlot) (trace_slot_visitor (on_tracer page_tracer))
       \<lparr> sc_mem = store64 (\<lambda>_. 0) 8192 65536, sc_tracer = [] \<rparr> (element_addresses 8192 8 1) = Some S' \<and>
     load64 (sc_mem S') 8192 = 69632 \<and> sc_tracer S' = [65536]"
  using vector_scan_equals_trace [of 8192 1 SimpleSlot page_tracer "\<lparr> sc_mem = store64 (\<lambda>_. 0) 8192 65536, sc_tracer = [] \<rparr>"]
  by (auto simp: element_addresses_def object_trace_def obj_is_null_def page_tracer_def)

text \<open>
  The slot of a fat internal pointer is that of a temporary: scanning the pointer leaves it as it is,
  although its type says that it can be enqueued.
\<close>

theorem fat_scan_misses_pointer:
  assumes "8 \<le> unat (self_at - temporary)" and "unat (self_at - temporary) + 8 \<le> 2 ^ 64"
  shows "\<exists>S'. fat_scan SL temporary (trace_slot_visitor (on_tracer t)) S self_at = Some S' \<and>
    load64 (sc_mem S') self_at = load64 (sc_mem S) self_at \<and> supports_enqueuing FatShape"
proof -
  have "slot_from_vmkit_object SL temporary = temporary" by (cases SL) simp_all
  then show ?thesis
    by (auto simp: fat_scan_def object_to_slot_def trace_slot_visitor_def on_tracer_def load_store_other [OF assms] Let_def
        split: option.splits prod.splits)
qed

text \<open>Scanning a narrow reference panics, for every slot type of the sources.\<close>

lemma narrow_scan_panics: "narrow_scan SL visit S self_at = None" "narrow_to_slot SL self_at = None"
  by (simp_all add: narrow_scan_def narrow_to_slot_def slot_from_narrow_def)

end
