(* ===== verification/Vmkit_Derive.thy ===== *)
theory Vmkit_Derive
  imports Vmkit_Slots
begin

text \<open>
  The derive macro \<open>GCMetadata\<close> (\<open>vmkit-proc/src/lib.rs\<close>): from the attributes and the fields of a
  type it generates a static \<open>GCMetadata\<close> and, unless the attributes give the code, an
  implementation of \<open>Scan\<close> or \<open>Trace\<close>. Parsing Rust is \<open>syn\<close>'s: an expression or type is a
  value of a type \<^typ>\<open>'v\<close>, and an attribute is the list of its keys with what follows each.
  The generated code is data; what it does when it runs is given separately.
\<close>

section \<open>Attributes\<close>

text \<open>
  What follows a key: the end of the list, a comma, an equality sign and a value, a group in
  parentheses (as a value and as a list of keys), or other tokens.
\<close>

datatype 'v after = AtEnd | Comma | Equals 'v | Parens 'v "(string \<times> 'v after) list" | Tokens 'v

type_synonym 'v attributes = "(string \<times> (string \<times> 'v after) list) list"

text \<open>\<open>syn\<close>'s parsers on a value.\<close>

record 'v syn =
  parse_expr :: "'v \<Rightarrow> 'v option"
  parse_type :: "'v \<Rightarrow> 'v option"
  parse_ident :: "'v \<Rightarrow> string option"
  parse_bool :: "'v \<Rightarrow> bool option"

datatype derive_error = Multiple string | Unknown string | Missing string | ParseError | DerivePanic string

type_synonym 'a derive_result = "derive_error + 'a"

fun and_then :: "'a derive_result \<Rightarrow> ('a \<Rightarrow> 'b derive_result) \<Rightarrow> 'b derive_result" where
  "and_then (Inl e) f = Inl e"
| "and_then (Inr a) f = f a"

definition ok_or :: "derive_error \<Rightarrow> 'a option \<Rightarrow> 'a derive_result" where
  "ok_or e x = (case x of None \<Rightarrow> Inl e | Some a \<Rightarrow> Inr a)"

text \<open>\<open>meta.input.parse::<Token![=]>()\<close> and then a value, and a value without it.\<close>

definition parse_after_eq :: "('v \<Rightarrow> 'a option) \<Rightarrow> 'v after \<Rightarrow> 'a derive_result" where
  "parse_after_eq p input = (case input of Equals v \<Rightarrow> ok_or ParseError (p v) | _ \<Rightarrow> Inl ParseError)"

definition parse_directly :: "('v \<Rightarrow> 'a option) \<Rightarrow> 'v after \<Rightarrow> 'a derive_result" where
  "parse_directly p input = (case input of
       Tokens v \<Rightarrow> ok_or ParseError (p v) | Parens v _ \<Rightarrow> ok_or ParseError (p v) | _ \<Rightarrow> Inl ParseError)"

text \<open>
  \<open>parse_nested_meta\<close> calls its closure on the keys in order and stops at the first error. What the
  closure leaves of the input has to be a comma or the end; the closure answers whether it has
  consumed what follows the key.
\<close>

fun parse_nested_meta ::
  "('s \<Rightarrow> string \<Rightarrow> 'v after \<Rightarrow> ('s \<times> bool) derive_result) \<Rightarrow> 's \<Rightarrow> (string \<times> 'v after) list \<Rightarrow> 's derive_result" where
  "parse_nested_meta f s [] = Inr s"
| "parse_nested_meta f s ((path, input) # metas) =
     and_then (f s path input) (\<lambda>(s, consumed).
       if consumed \<or> input = AtEnd \<or> input = Comma then parse_nested_meta f s metas else Inl ParseError)"

text \<open>The loop over the attributes of a type: those of the given name are parsed.\<close>

fun parse_attributes ::
  "string \<Rightarrow> ('s \<Rightarrow> string \<Rightarrow> 'v after \<Rightarrow> ('s \<times> bool) derive_result) \<Rightarrow> 's \<Rightarrow> 'v attributes \<Rightarrow> 's derive_result" where
  "parse_attributes name f s [] = Inr s"
| "parse_attributes name f s ((path, metas) # attrs) =
     and_then (if path = name then parse_nested_meta f s metas else Inr s) (\<lambda>s. parse_attributes name f s attrs)"

definition has_attribute :: "string \<Rightarrow> 'v attributes \<Rightarrow> bool" where
  "has_attribute name attrs = list_ex (\<lambda>(path, _). path = name) attrs"

section \<open>Types like arrays\<close>

record 'v array_like =
  length_field :: "string option"
  length_getter :: "'v option"
  length_setter :: "'v option"
  element_type :: "'v option"
  data_field :: "string option"
  data_getter :: "'v option"
  array_trace :: "bool option"

definition length_meta :: "'v syn \<Rightarrow> 'v array_like \<Rightarrow> string \<Rightarrow> 'v after \<Rightarrow> ('v array_like \<times> bool) derive_result" where
  "length_meta Y s path input =
     (if path = ''get''
      then if length_getter s \<noteq> None then Inl (Multiple ''length getters'')
           else and_then (parse_directly (parse_expr Y) input) (\<lambda>field. Inr (s \<lparr> length_getter := Some field \<rparr>, True))
      else if path = ''set''
      then if length_setter s \<noteq> None then Inl (Multiple ''length setters'')
           else and_then (parse_directly (parse_expr Y) input) (\<lambda>field. Inr (s \<lparr> length_setter := Some field \<rparr>, True))
      else Inl (Unknown ''length field''))"

definition data_meta :: "'v syn \<Rightarrow> 'v array_like \<Rightarrow> string \<Rightarrow> 'v after \<Rightarrow> ('v array_like \<times> bool) derive_result" where
  "data_meta Y s path input =
     (if path = ''get''
      then if data_getter s \<noteq> None then Inl (Multiple ''data getters'')
           else and_then (parse_directly (parse_expr Y) input) (\<lambda>field. Inr (s \<lparr> data_getter := Some field \<rparr>, True))
      else Inl (Unknown ''data field''))"

definition arraylike_meta :: "'v syn \<Rightarrow> 'v array_like \<Rightarrow> string \<Rightarrow> 'v after \<Rightarrow> ('v array_like \<times> bool) derive_result" where
  "arraylike_meta Y s path input =
     (if path = ''trace''
      then and_then (parse_after_eq (parse_bool Y) input) (\<lambda>value. Inr (s \<lparr> array_trace := Some value \<rparr>, True))
      else if path = ''len''
      then if length_field s \<noteq> None \<or> length_getter s \<noteq> None \<or> length_setter s \<noteq> None then Inl (Multiple ''length fields'')
           else (case input of
              Equals _ \<Rightarrow> and_then (parse_after_eq (parse_ident Y) input) (\<lambda>field. Inr (s \<lparr> length_field := Some field \<rparr>, True))
            | Parens _ metas \<Rightarrow> and_then (parse_nested_meta (length_meta Y) s metas) (\<lambda>s. Inr (s, True))
            | _ \<Rightarrow> Inl (Unknown ''length attribute''))
      else if path = ''data''
      then if data_field s \<noteq> None \<or> data_getter s \<noteq> None then Inl (Multiple ''data fields'')
           else (case input of
              Parens _ metas \<Rightarrow> and_then (parse_nested_meta (data_meta Y) s metas) (\<lambda>s. Inr (s, True))
            | _ \<Rightarrow> and_then (parse_directly (parse_ident Y) input) (\<lambda>field. Inr (s \<lparr> data_field := Some field \<rparr>, True)))
      else if path = ''data_type''
      then if element_type s \<noteq> None then Inl (Multiple ''data types'')
           else and_then (parse_after_eq (parse_type Y) input) (\<lambda>field. Inr (s \<lparr> element_type := Some field \<rparr>, True))
      else Inr (s, False))"

definition no_array :: "'v array_like" where
  "no_array = \<lparr> length_field = None, length_getter = None, length_setter = None, element_type = None,
     data_field = None, data_getter = None, array_trace = None \<rparr>"

text \<open>The result has an element type; the array is traced unless the attribute says otherwise.\<close>

definition find_arraylike :: "'v syn \<Rightarrow> 'v attributes \<Rightarrow> 'v array_like option derive_result" where
  "find_arraylike Y attrs =
     and_then (parse_attributes ''arraylike'' (arraylike_meta Y) no_array attrs) (\<lambda>s.
       if has_attribute ''arraylike'' attrs
       then and_then (ok_or (Missing ''data_type'') (element_type s)) (\<lambda>t.
         Inr (Some (s \<lparr> array_trace := Some (case array_trace s of None \<Rightarrow> True | Some b \<Rightarrow> b) \<rparr>)))
       else Inr None)"

section \<open>The metadata attribute\<close>

datatype 'v object_alignment = AlignAuto | AlignConst 'v | AlignCompute 'v
datatype 'v object_size = SizeAuto | SizeConst 'v | SizeCompute 'v
datatype 'v trace_request = NoTrace | AutoTrace bool | TraceCode bool 'v

record 'v gc_attribute =
  ga_vm :: "'v option"
  ga_alignment :: "'v object_alignment option"
  ga_size :: "'v object_size option"
  ga_trace :: "'v trace_request option"

text \<open>The keys \<open>trace\<close> and \<open>scan\<close> mean the generated code if nothing follows.\<close>

definition trace_key :: "'v syn \<Rightarrow> bool \<Rightarrow> 'v gc_attribute \<Rightarrow> 'v after \<Rightarrow> ('v gc_attribute \<times> bool) derive_result" where
  "trace_key Y scan_slots s input =
     (if ga_trace s \<noteq> None then Inl (Multiple ''trace fields'')
      else if input = AtEnd then Inr (s \<lparr> ga_trace := Some (AutoTrace scan_slots) \<rparr>, True)
      else and_then (parse_after_eq (parse_expr Y) input) (\<lambda>field. Inr (s \<lparr> ga_trace := Some (TraceCode scan_slots field) \<rparr>, True)))"

definition gcmetadata_meta :: "'v syn \<Rightarrow> 'v gc_attribute \<Rightarrow> string \<Rightarrow> 'v after \<Rightarrow> ('v gc_attribute \<times> bool) derive_result" where
  "gcmetadata_meta Y s path input =
     (if path = ''vm''
      then if ga_vm s \<noteq> None then Inl (Multiple ''vm fields'')
           else and_then (parse_after_eq (parse_type Y) input) (\<lambda>field. Inr (s \<lparr> ga_vm := Some field \<rparr>, True))
      else if path = ''align''
      then if ga_alignment s \<noteq> None then Inl (Multiple ''alignment fields'')
           else (case input of
              Parens _ _ \<Rightarrow> and_then (parse_directly (parse_expr Y) input) (\<lambda>c. Inr (s \<lparr> ga_alignment := Some (AlignConst c) \<rparr>, True))
            | _ \<Rightarrow> and_then (parse_after_eq (parse_expr Y) input) (\<lambda>field. Inr (s \<lparr> ga_alignment := Some (AlignCompute field) \<rparr>, True)))
      else if path = ''size''
      then if ga_size s \<noteq> None then Inl (Multiple ''size fields'')
           else (case input of
              Parens _ _ \<Rightarrow> and_then (parse_directly (parse_expr Y) input) (\<lambda>c. Inr (s \<lparr> ga_size := Some (SizeConst c) \<rparr>, True))
            | _ \<Rightarrow> and_then (parse_after_eq (parse_expr Y) input) (\<lambda>field. Inr (s \<lparr> ga_size := Some (SizeCompute field) \<rparr>, True)))
      else if path = ''trace'' then trace_key Y False s input
      else if path = ''notrace''
      then if ga_trace s \<noteq> None then Inl (Multiple ''trace fields'') else Inr (s \<lparr> ga_trace := Some NoTrace \<rparr>, False)
      else if path = ''scan'' then trace_key Y True s input
      else Inr (s, False))"

record 'v gc_options =
  go_vm :: 'v
  go_alignment :: "'v object_alignment"
  go_size :: "'v object_size"
  go_trace :: "'v trace_request"

definition unwrap_or :: "'a \<Rightarrow> 'a option \<Rightarrow> 'a" where
  "unwrap_or d x = (case x of None \<Rightarrow> d | Some a \<Rightarrow> a)"

definition find_gcmetadata :: "'v syn \<Rightarrow> 'v attributes \<Rightarrow> 'v gc_options derive_result" where
  "find_gcmetadata Y attrs =
     and_then (parse_attributes ''gcmetadata'' (gcmetadata_meta Y)
         \<lparr> ga_vm = None, ga_alignment = None, ga_size = None, ga_trace = None \<rparr> attrs) (\<lambda>s.
       if \<not> has_attribute ''gcmetadata'' attrs then Inl (Missing ''gcmetadata'')
       else and_then (ok_or (Missing ''vm'') (ga_vm s)) (\<lambda>vm.
         Inr \<lparr> go_vm = vm, go_alignment = unwrap_or AlignAuto (ga_alignment s),
               go_size = unwrap_or SizeAuto (ga_size s), go_trace = unwrap_or (AutoTrace False) (ga_trace s) \<rparr>))"

section \<open>The generated code\<close>

text \<open>A type with its variants; a structure has one. Fields of tuples have no identifier.\<close>

record field =
  fd_ident :: "string option"
  fd_attrs :: "string list"

record 'v type_def =
  td_attrs :: "'v attributes"
  td_variants :: "field list list"

datatype 'v length_code = LengthGetter 'v | LengthField string
datatype 'v data_code = DataGetter 'v | DataField string

datatype trace_trait = ScanTrait | TraceTrait

text \<open>
  A generated implementation: the trait and the name of the method it defines, the loop over the
  array, and for each variant the indices of the fields it marks.
\<close>

record 'v trace_impl =
  ti_trait :: trace_trait
  ti_method :: string
  ti_array :: "('v length_code \<times> 'v data_code \<times> 'v) option"
  ti_arms :: "nat list list"

datatype 'v callback_code = CallbackNone | CallbackImpl trace_trait | CallbackCode trace_trait 'v
datatype 'v size_code = SizeZero | SizeOfType | SizeExpr 'v
datatype 'v align_code = AlignZero | AlignOfType | AlignExpr 'v
datatype 'v compute_code = ComputeNone | ComputeCode 'v | ComputeArray "'v length_code" 'v

record 'v derived =
  dv_impl :: "'v trace_impl option"
  dv_callback :: "'v callback_code"
  dv_instance_size :: "'v size_code"
  dv_alignment :: "'v align_code"
  dv_compute_size :: "'v compute_code"
  dv_compute_alignment :: "'v option"

definition fields_to_skip :: "'v array_like option \<Rightarrow> string set" where
  "fields_to_skip arraylike = (case arraylike of
       None \<Rightarrow> {}
     | Some al \<Rightarrow> set_option (data_field al) \<union> set_option (length_field al))"

definition keep_field :: "string set \<Rightarrow> field \<Rightarrow> bool" where
  "keep_field skip f \<longleftrightarrow> ''ignore_trace'' \<notin> set (fd_attrs f) \<and>
     (case fd_ident f of None \<Rightarrow> True | Some x \<Rightarrow> x \<notin> skip)"

definition array_length_code :: "'v array_like \<Rightarrow> 'v length_code derive_result" where
  "array_length_code al = (case length_getter al of
       Some getter \<Rightarrow> Inr (LengthGetter getter)
     | None \<Rightarrow> (case length_field al of
           Some field \<Rightarrow> Inr (LengthField field)
         | None \<Rightarrow> Inl (DerivePanic ''length field not found'')))"

definition array_data_code :: "'v array_like \<Rightarrow> 'v data_code derive_result" where
  "array_data_code al = (case data_getter al of
       Some getter \<Rightarrow> Inr (DataGetter getter)
     | None \<Rightarrow> (case data_field al of
           Some field \<Rightarrow> Inr (DataField field)
         | None \<Rightarrow> Inl (DerivePanic ''data field not found'')))"

definition array_code ::
  "'v array_like option \<Rightarrow> ('v length_code \<times> 'v data_code \<times> 'v) option derive_result" where
  "array_code arraylike = (case arraylike of
       None \<Rightarrow> Inr None
     | Some al \<Rightarrow>
         if array_trace al = Some True
         then and_then (array_length_code al) (\<lambda>l. and_then (array_data_code al) (\<lambda>d. Inr (Some (l, d, the (element_type al)))))
         else Inr None)"

definition trace_arms :: "string set \<Rightarrow> field list list \<Rightarrow> nat list list" where
  "trace_arms skip variants = map (\<lambda>fs. filter (\<lambda>i. keep_field skip (fs ! i)) [0..<length fs]) variants"

definition trace_code ::
  "'v trace_request \<Rightarrow> 'v array_like option \<Rightarrow> field list list \<Rightarrow> ('v trace_impl option \<times> 'v callback_code) derive_result" where
  "trace_code tr arraylike variants = (case tr of
       NoTrace \<Rightarrow> Inr (None, CallbackNone)
     | AutoTrace scan_slots \<Rightarrow>
         and_then (array_code arraylike) (\<lambda>array.
           let arms = trace_arms (fields_to_skip arraylike) variants
           in if scan_slots
              then Inr (Some \<lparr> ti_trait = ScanTrait, ti_method = ''scan_object'', ti_array = array, ti_arms = arms \<rparr>,
                        CallbackImpl ScanTrait)
              else Inr (Some \<lparr> ti_trait = TraceTrait, ti_method = ''trace_object'', ti_array = array, ti_arms = arms \<rparr>,
                        CallbackImpl TraceTrait))
     | TraceCode scan_slots expr \<Rightarrow> Inr (None, CallbackCode (if scan_slots then ScanTrait else TraceTrait) expr))"

definition instance_size_code :: "'v object_size \<Rightarrow> bool \<Rightarrow> 'v size_code" where
  "instance_size_code sz is_array = (case sz of
       SizeAuto \<Rightarrow> if is_array then SizeZero else SizeOfType
     | SizeConst e \<Rightarrow> if is_array then SizeZero else SizeExpr e
     | SizeCompute _ \<Rightarrow> SizeZero)"

definition alignment_code :: "'v object_alignment \<Rightarrow> 'v align_code" where
  "alignment_code al = (case al of AlignAuto \<Rightarrow> AlignOfType | AlignConst e \<Rightarrow> AlignExpr e | AlignCompute _ \<Rightarrow> AlignZero)"

definition compute_size_code :: "'v object_size \<Rightarrow> 'v array_like option \<Rightarrow> 'v compute_code derive_result" where
  "compute_size_code sz arraylike = (case arraylike of
       Some al \<Rightarrow> (case sz of
           SizeCompute e \<Rightarrow> Inr (ComputeCode e)
         | _ \<Rightarrow> and_then (array_length_code al) (\<lambda>l. Inr (ComputeArray l (the (element_type al)))))
     | None \<Rightarrow> (case sz of SizeCompute e \<Rightarrow> Inr (ComputeCode e) | _ \<Rightarrow> Inr ComputeNone))"

definition derive_gcmetadata :: "'v syn \<Rightarrow> 'v type_def \<Rightarrow> 'v derived derive_result" where
  "derive_gcmetadata Y T =
     and_then (find_gcmetadata Y (td_attrs T)) (\<lambda>gc.
     and_then (find_arraylike Y (td_attrs T)) (\<lambda>arraylike.
     and_then (trace_code (go_trace gc) arraylike (td_variants T)) (\<lambda>(impl, callback).
     and_then (compute_size_code (go_size gc) arraylike) (\<lambda>compute.
       Inr \<lparr> dv_impl = impl, dv_callback = callback,
             dv_instance_size = instance_size_code (go_size gc) (arraylike \<noteq> None),
             dv_alignment = alignment_code (go_alignment gc), dv_compute_size = compute, dv_compute_alignment = None \<rparr>))))"

section \<open>What the generated code does\<close>

text \<open>
  The meaning of the expressions and types the attributes name, which the Rust compiler gives: an
  expression is evaluated with \<open>this\<close> or \<open>self\<close> the object, a field by its name. The implementations
  of \<open>Scan\<close> of the types of fields and elements are given as the functions they are, and do not panic.
\<close>

type_synonym 'w value_scan = "('w scan_state \<Rightarrow> address \<Rightarrow> 'w scan_state) \<Rightarrow> 'w scan_state \<Rightarrow> address \<Rightarrow> 'w scan_state"

record ('v, 'w) meaning =
  size_of_type :: usize
  align_of_type :: usize
  size_of_element :: "'v \<Rightarrow> usize"
  const_value :: "'v \<Rightarrow> usize"
  expression :: "'v \<Rightarrow> memory \<Rightarrow> vmkit_object \<Rightarrow> usize"
  field_value :: "string \<Rightarrow> memory \<Rightarrow> vmkit_object \<Rightarrow> usize"
  field_pointer :: "string \<Rightarrow> memory \<Rightarrow> vmkit_object \<Rightarrow> address"
  variant_of :: "memory \<Rightarrow> vmkit_object \<Rightarrow> nat"
  field_offset :: "nat \<Rightarrow> nat \<Rightarrow> usize"
  scan_field :: "nat \<Rightarrow> nat \<Rightarrow> 'w value_scan"
  scan_element :: "'v \<Rightarrow> 'w value_scan"
  scan_body :: "'v \<Rightarrow> vmkit_object \<Rightarrow> ('w scan_state \<Rightarrow> address \<Rightarrow> 'w scan_state) \<Rightarrow> 'w scan_state \<Rightarrow> 'w scan_state"
  trace_body :: "'v \<Rightarrow> vmkit_object \<Rightarrow> ('w scan_state \<Rightarrow> address \<Rightarrow> address \<times> 'w scan_state) \<Rightarrow> 'w scan_state \<Rightarrow> 'w scan_state"

fun length_value :: "('v, 'w) meaning \<Rightarrow> 'v length_code \<Rightarrow> memory \<Rightarrow> vmkit_object \<Rightarrow> usize" where
  "length_value M (LengthGetter e) m obj = expression M e m obj"
| "length_value M (LengthField f) m obj = field_value M f m obj"

fun data_value :: "('v, 'w) meaning \<Rightarrow> 'v data_code \<Rightarrow> memory \<Rightarrow> vmkit_object \<Rightarrow> address" where
  "data_value M (DataGetter e) m obj = expression M e m obj"
| "data_value M (DataField f) m obj = field_pointer M f m obj"

text \<open>The generated \<open>scan_object\<close>: first the elements, then the fields of the variant at hand.\<close>

definition run_scan ::
  "('v, 'w) meaning \<Rightarrow> 'v trace_impl \<Rightarrow> vmkit_object \<Rightarrow> ('w scan_state \<Rightarrow> address \<Rightarrow> 'w scan_state)
     \<Rightarrow> 'w scan_state \<Rightarrow> 'w scan_state" where
  "run_scan M impl obj visit S =
     (let S = (case ti_array impl of
           None \<Rightarrow> S
         | Some (l, d, element) \<Rightarrow>
             foldl (scan_element M element visit) S
               (element_addresses (data_value M d (sc_mem S) obj) (unat (size_of_element M element))
                  (unat (length_value M l (sc_mem S) obj))));
        v = variant_of M (sc_mem S) obj
      in foldl (\<lambda>S i. scan_field M v i visit S (obj + field_offset M v i)) S (ti_arms impl ! v))"

text \<open>The methods that the traits of \<open>mm/traits.rs\<close> declare: an implementation can define no other.\<close>

fun trait_method :: "trace_trait \<Rightarrow> string" where
  "trait_method TraceTrait = ''trace''"
| "trait_method ScanTrait = ''scan_object''"

definition impl_compiles :: "'v trace_impl \<Rightarrow> bool" where
  "impl_compiles impl \<longleftrightarrow> ti_method impl = trait_method (ti_trait impl)"

fun size_value :: "('v, 'w) meaning \<Rightarrow> 'v size_code \<Rightarrow> usize" where
  "size_value M SizeZero = 0"
| "size_value M SizeOfType = size_of_type M"
| "size_value M (SizeExpr e) = const_value M e"

fun align_value :: "('v, 'w) meaning \<Rightarrow> 'v align_code \<Rightarrow> usize" where
  "align_value M AlignZero = 0"
| "align_value M AlignOfType = align_of_type M"
| "align_value M (AlignExpr e) = const_value M e"

fun compute_size_value :: "('v, 'w) meaning \<Rightarrow> 'v compute_code \<Rightarrow> (memory \<Rightarrow> vmkit_object \<Rightarrow> usize option) option" where
  "compute_size_value M ComputeNone = None"
| "compute_size_value M (ComputeCode e) = Some (\<lambda>m obj. Some (expression M e m obj))"
| "compute_size_value M (ComputeArray l element) =
     Some (\<lambda>m obj. Some (size_of_type M + length_value M l m obj * size_of_element M element))"

fun callback_value ::
  "('v, 'w) meaning \<Rightarrow> 'v trace_impl option \<Rightarrow> 'v callback_code \<Rightarrow> 'w scan_state trace_callback option" where
  "callback_value M impl CallbackNone = Some TraceNone"
| "callback_value M impl (CallbackImpl t) =
     (case impl of
        Some i \<Rightarrow> if t = ScanTrait \<and> impl_compiles i then Some (ScanSlots (run_scan M i)) else None
      | None \<Rightarrow> None)"
| "callback_value M impl (CallbackCode ScanTrait e) = Some (ScanSlots (scan_body M e))"
| "callback_value M impl (CallbackCode TraceTrait e) = Some (TraceObject (trace_body M e))"

text \<open>
  The callback calls the method of the generated implementation. One of \<open>Trace\<close> has the name
  \<open>trace_object\<close>, which the trait does not have, so only one of \<open>Scan\<close> ever runs. The static
  \<open>METADATA\<close> exists if the generated code compiles.
\<close>

definition derived_metadata :: "('v, 'w) meaning \<Rightarrow> 'v derived \<Rightarrow> 'w scan_state gc_metadata option" where
  "derived_metadata M D = do {
     callback \<leftarrow> callback_value M (dv_impl D) (dv_callback D);
     Some \<lparr> trace = callback, instance_size = size_value M (dv_instance_size D),
            compute_size = compute_size_value M (dv_compute_size D), md_alignment = align_value M (dv_alignment D),
            compute_alignment = map_option (expression M) (dv_compute_alignment D) \<rparr>
   }"

section \<open>Properties\<close>

lemma and_then_Inr: "and_then x f = Inr b \<longleftrightarrow> (\<exists>a. x = Inr a \<and> f a = Inr b)"
  by (cases x) simp_all

lemma foldl_inv:
  assumes "\<And>S a. f (g S a) = f S"
  shows "f (foldl g S as) = f S"
  using assms by (induction as arbitrary: S) simp_all

text \<open>
  A value of which the slots are known: scanning it visits them in order.
\<close>

definition visits_slots :: "'w value_scan \<Rightarrow> (address \<Rightarrow> address list) \<Rightarrow> bool" where
  "visits_slots f slots \<longleftrightarrow> (\<forall>visit S a. f visit S a = foldl visit S (slots a))"

lemma visits_slots_foldl:
  assumes "visits_slots f slots"
  shows "foldl (f visit) S as = foldl visit S (concat (map slots as))"
  using assms by (induction as arbitrary: S) (simp_all add: visits_slots_def)

lemma foldl_index:
  assumes "\<And>i. i \<in> set is \<Longrightarrow> visits_slots (f i) (slots i)"
  shows "foldl (\<lambda>S i. f i visit S (g i)) S is = foldl visit S (concat (map (\<lambda>i. slots i (g i)) is))"
  using assms by (induction "is" arbitrary: S) (simp_all add: visits_slots_def)

lemma trace_code_scan:
  "trace_code (AutoTrace True) arraylike variants = Inr (i, c) \<longleftrightarrow>
     (\<exists>array. array_code arraylike = Inr array \<and> c = CallbackImpl ScanTrait \<and>
       i = Some \<lparr> ti_trait = ScanTrait, ti_method = ''scan_object'', ti_array = array,
                  ti_arms = trace_arms (fields_to_skip arraylike) variants \<rparr>)"
  by (auto simp: trace_code_def and_then_Inr Let_def)

lemma derive_parts:
  assumes "derive_gcmetadata Y T = Inr D" and "find_gcmetadata Y (td_attrs T) = Inr gc"
    and "find_arraylike Y (td_attrs T) = Inr al"
  shows "trace_code (go_trace gc) al (td_variants T) = Inr (dv_impl D, dv_callback D) \<and>
    compute_size_code (go_size gc) al = Inr (dv_compute_size D) \<and>
    dv_instance_size D = instance_size_code (go_size gc) (al \<noteq> None) \<and>
    dv_alignment D = alignment_code (go_alignment gc) \<and> dv_compute_alignment D = None"
  using assms by (auto simp: derive_gcmetadata_def and_then_Inr split: prod.splits)

lemma derived_metadata_fields:
  assumes "derived_metadata M D = Some G"
  shows "callback_value M (dv_impl D) (dv_callback D) = Some (trace G) \<and>
    instance_size G = size_value M (dv_instance_size D) \<and> compute_size G = compute_size_value M (dv_compute_size D) \<and>
    md_alignment G = align_value M (dv_alignment D) \<and>
    compute_alignment G = map_option (expression M) (dv_compute_alignment D)"
  using assms by (auto simp: derived_metadata_def split: Option.bind_splits)

text \<open>The length and the data of an array as the attributes describe them.\<close>

definition declared_length :: "('v, 'w) meaning \<Rightarrow> 'v array_like \<Rightarrow> memory \<Rightarrow> vmkit_object \<Rightarrow> usize" where
  "declared_length M al m obj =
     (case length_getter al of Some e \<Rightarrow> expression M e m obj | None \<Rightarrow> field_value M (the (length_field al)) m obj)"

definition declared_data :: "('v, 'w) meaning \<Rightarrow> 'v array_like \<Rightarrow> memory \<Rightarrow> vmkit_object \<Rightarrow> address" where
  "declared_data M al m obj =
     (case data_getter al of Some e \<Rightarrow> expression M e m obj | None \<Rightarrow> field_pointer M (the (data_field al)) m obj)"

lemma array_length_value:
  "array_length_code al = Inr l \<Longrightarrow> length_value M l m obj = declared_length M al m obj"
  by (auto simp: array_length_code_def declared_length_def split: option.splits)

lemma array_data_value:
  "array_data_code al = Inr d \<Longrightarrow> data_value M d m obj = declared_data M al m obj"
  by (auto simp: array_data_code_def declared_data_def split: option.splits)

text \<open>The slots of the elements that are traced, and the fields that are.\<close>

definition element_slots ::
  "('v, 'w) meaning \<Rightarrow> ('v \<Rightarrow> address \<Rightarrow> address list) \<Rightarrow> 'v array_like option \<Rightarrow> memory \<Rightarrow> vmkit_object \<Rightarrow> address list" where
  "element_slots M slots arraylike m obj = (case arraylike of
       None \<Rightarrow> []
     | Some al \<Rightarrow> if array_trace al \<noteq> Some True then [] else
         concat (map (slots (the (element_type al)))
           (element_addresses (declared_data M al m obj) (unat (size_of_element M (the (element_type al))))
             (unat (declared_length M al m obj)))))"

definition traced_field :: "'v array_like option \<Rightarrow> field \<Rightarrow> bool" where
  "traced_field arraylike f \<longleftrightarrow> ''ignore_trace'' \<notin> set (fd_attrs f) \<and>
     (fd_ident f = None \<or> arraylike = None \<or>
      fd_ident f \<noteq> length_field (the arraylike) \<and> fd_ident f \<noteq> data_field (the arraylike))"

lemma keep_field_traced: "keep_field (fields_to_skip arraylike) f \<longleftrightarrow> traced_field arraylike f"
  by (cases "fd_ident f"; cases arraylike)
    (auto simp: keep_field_def traced_field_def fields_to_skip_def)

lemma run_scan_slots:
  assumes array: "array_code arraylike = Inr (ti_array impl)"
    and arms: "ti_arms impl = trace_arms (fields_to_skip arraylike) variants"
    and v: "v = variant_of M (sc_mem S) obj" "v < length variants"
    and f: "\<And>i. visits_slots (scan_field M v i) (slots i)" and e: "\<And>t. visits_slots (scan_element M t) (eslots t)"
    and mem: "\<And>S a. sc_mem (visit S a) = sc_mem S"
  shows "run_scan M impl obj visit S = foldl visit S
    (element_slots M eslots arraylike (sc_mem S) obj @
     concat (map (\<lambda>i. slots i (obj + field_offset M v i))
       (filter (\<lambda>i. traced_field arraylike (variants ! v ! i)) [0..<length (variants ! v)])))"
proof -
  let ?E = "case ti_array impl of None \<Rightarrow> S
     | Some (l, d, element) \<Rightarrow> foldl (scan_element M element visit) S
         (element_addresses (data_value M d (sc_mem S) obj) (unat (size_of_element M element))
            (unat (length_value M l (sc_mem S) obj)))"
  have E: "?E = foldl visit S (element_slots M eslots arraylike (sc_mem S) obj)"
    using array
    by (cases "ti_array impl"; cases arraylike)
      (auto simp: array_code_def element_slots_def and_then_Inr array_length_value array_data_value
        visits_slots_foldl [OF e] split: if_splits)
  have "sc_mem ?E = sc_mem S" unfolding E using foldl_inv [of sc_mem visit] mem by blast
  then show ?thesis
    using v(2)
    by (simp add: run_scan_def E arms trace_arms_def keep_field_traced Let_def foldl_index [OF f] v(1) [symmetric])
qed

text \<open>
  C26: the derived scan visits exactly what the attributes declare. If a type asks for a scan
  to be generated, then scanning an object of it visits the slots of the elements of the array in
  order, if it is traced, and then the slots of the fields of the object's variant in order, those
  marked \<open>ignore_trace\<close> and the length and data field of the array left out.
\<close>

theorem derived_scan_visits_fields:
  assumes "derive_gcmetadata Y T = Inr D" and "find_gcmetadata Y (td_attrs T) = Inr gc"
    and "find_arraylike Y (td_attrs T) = Inr arraylike" and "go_trace gc = AutoTrace True"
    and "derived_metadata M D = Some (gc_metadata_of (meta V) md)"
    and "obj_metadata V (sc_mem S) obj = Some md" and "\<not> is_object (meta V) md"
    and "v = variant_of M (sc_mem S) obj" and "v < length (td_variants T)"
    and "\<And>i. visits_slots (scan_field M v i) (slots i)" and "\<And>t. visits_slots (scan_element M t) (eslots t)"
    and "\<And>S a. sc_mem (visit S a) = sc_mem S"
  shows "scan_object V visit S obj = Some (foldl visit S
    (element_slots M eslots arraylike (sc_mem S) obj @
     concat (map (\<lambda>i. slots i (obj + field_offset M v i))
       (filter (\<lambda>i. traced_field arraylike (td_variants T ! v ! i)) [0..<length (td_variants T ! v)]))))"
proof -
  note parts = derive_parts [OF assms(1-3)]
  obtain array where impl: "array_code arraylike = Inr array" "dv_callback D = CallbackImpl ScanTrait"
      "dv_impl D = Some \<lparr> ti_trait = ScanTrait, ti_method = ''scan_object'', ti_array = array,
         ti_arms = trace_arms (fields_to_skip arraylike) (td_variants T) \<rparr>" (is "_ = Some ?impl")
    using parts assms(4) trace_code_scan by metis
  have "trace (gc_metadata_of (meta V) md) = ScanSlots (run_scan M ?impl)"
    using derived_metadata_fields [OF assms(5)] impl(2,3) by (simp add: impl_compiles_def)
  then show ?thesis
    using assms(6,7) run_scan_slots [of arraylike ?impl, OF _ _ assms(8-12)] impl(1) by (simp add: scan_object_def)
qed

text \<open>
  For the witnesses: a node with a traced field, an ignored one, a length, and elements behind it.
\<close>

definition example_syn :: "string syn" where
  "example_syn = \<lparr> parse_expr = Some, parse_type = Some, parse_ident = Some, parse_bool = (\<lambda>s. Some (s = ''true'')) \<rparr>"

definition example_fields :: "field list" where
  "example_fields = [\<lparr> fd_ident = Some ''left'', fd_attrs = [] \<rparr>,
     \<lparr> fd_ident = Some ''cache'', fd_attrs = [''ignore_trace''] \<rparr>, \<lparr> fd_ident = Some ''length'', fd_attrs = [] \<rparr>]"

definition example_type :: "string type_def" where
  "example_type = \<lparr> td_attrs =
       [(''gcmetadata'', [(''vm'', Equals ''VM''), (''scan'', AtEnd)]),
        (''arraylike'', [(''len'', Equals ''length''), (''data_type'', Equals ''Value''),
                         (''data'', Parens '''' [(''get'', Tokens ''elements'')])])],
     td_variants = [example_fields] \<rparr>"

definition example_meaning :: "(string, address list) meaning" where
  "example_meaning = \<lparr> size_of_type = 24, align_of_type = 8, size_of_element = (\<lambda>_. 8), const_value = (\<lambda>_. 0),
     expression = (\<lambda>_ _ obj. obj + 24), field_value = (\<lambda>_ m obj. load64 m (obj + 16)), field_pointer = (\<lambda>_ _ obj. obj),
     variant_of = (\<lambda>_ _. 0), field_offset = (\<lambda>_ i. 8 * word_of_nat i),
     scan_field = (\<lambda>_ _ visit S a. visit S a), scan_element = (\<lambda>_ visit S a. visit S a),
     scan_body = (\<lambda>_ _ _ S. S), trace_body = (\<lambda>_ _ _ S. S) \<rparr>"

definition example_attribute :: "string gc_options" where
  "example_attribute = \<lparr> go_vm = ''VM'', go_alignment = AlignAuto, go_size = SizeAuto, go_trace = AutoTrace True \<rparr>"

definition example_array :: "string array_like" where
  "example_array = \<lparr> length_field = Some ''length'', length_getter = None, length_setter = None,
     element_type = Some ''Value'', data_field = None, data_getter = Some ''elements'', array_trace = Some True \<rparr>"

definition example_derived :: "string derived" where
  "example_derived = \<lparr> dv_impl = Some \<lparr> ti_trait = ScanTrait, ti_method = ''scan_object'',
       ti_array = Some (LengthField ''length'', DataGetter ''elements'', ''Value''), ti_arms = [[0]] \<rparr>,
     dv_callback = CallbackImpl ScanTrait, dv_instance_size = SizeZero, dv_alignment = AlignOfType,
     dv_compute_size = ComputeArray (LengthField ''length'') ''Value'', dv_compute_alignment = None \<rparr>"

lemma example_gcmetadata [simp]:
  "find_gcmetadata example_syn (td_attrs example_type) = Inr example_attribute"
  by (simp add: find_gcmetadata_def example_type_def example_syn_def example_attribute_def
      gcmetadata_meta_def trace_key_def parse_after_eq_def ok_or_def has_attribute_def unwrap_or_def)

lemma example_arraylike [simp]:
  "find_arraylike example_syn (td_attrs example_type) = Inr (Some example_array)"
  by (simp add: find_arraylike_def example_type_def example_syn_def
      example_array_def arraylike_meta_def data_meta_def parse_after_eq_def
      parse_directly_def ok_or_def has_attribute_def no_array_def)

lemma example_derives [simp]: "derive_gcmetadata example_syn example_type = Inr example_derived"
proof -
  have v: "td_variants example_type = [example_fields]" by (simp add: example_type_def)
  have arms: "trace_arms (fields_to_skip (Some example_array)) [example_fields] = [[0]]"
    by (simp add: trace_arms_def keep_field_def fields_to_skip_def example_fields_def example_array_def)
  show ?thesis
    by (simp add: derive_gcmetadata_def v trace_code_def arms example_attribute_def)
      (simp add: array_code_def array_length_code_def array_data_code_def example_array_def
        instance_size_code_def alignment_code_def compute_size_code_def example_derived_def)
qed

definition derived_vm :: "('v, 'w) meaning \<Rightarrow> 'v derived \<Rightarrow> (usize, 'w scan_state) vm" where
  "derived_vm M D = \<lparr> conf = default_vm, lib = std_lib, meta = \<lparr>
     to_bitfield = (\<lambda>w. w), from_bitfield = (\<lambda>w. w), METADATA_BIT_SIZE = 62,
     gc_metadata_of = (\<lambda>_. the (derived_metadata M D)), is_object = (\<lambda>_. False), to_object_reference = (\<lambda>_. None),
     from_object_reference = Some, to_slot = (\<lambda>_. None) \<rparr> \<rparr>"

definition example_scan_state :: "address list scan_state" where
  "example_scan_state = \<lparr> sc_mem = store64 (\<lambda>_. 0) 8208 2, sc_tracer = [] \<rparr>"

lemma example_metadata:
  "derived_metadata example_meaning example_derived = Some (gc_metadata_of (meta (derived_vm example_meaning example_derived)) md)"
  "obj_metadata (derived_vm example_meaning example_derived) m 8192 =
     Some (header_metadata (derived_vm example_meaning example_derived) (load64 m 8184))"
proof -
  show "derived_metadata example_meaning example_derived =
      Some (gc_metadata_of (meta (derived_vm example_meaning example_derived)) md)"
    by (simp add: derived_vm_def) (simp add: derived_metadata_def example_derived_def impl_compiles_def)
qed (simp add: obj_metadata_def obj_header_def obj_is_null_def OBJECT_HEADER_OFFSET_def OBJECT_REF_OFFSET_def)

theorem derived_scan_visits_fields_witness:
  "scan_object (derived_vm example_meaning example_derived) (\<lambda>S a. S \<lparr> sc_tracer := sc_tracer S @ [a] \<rparr>)
     example_scan_state 8192 = Some (example_scan_state \<lparr> sc_tracer := [8216, 8224, 8192] \<rparr>)"
proof -
  let ?V = "derived_vm example_meaning example_derived"
  let ?visit = "\<lambda>S a. S \<lparr> sc_tracer := sc_tracer S @ [a] \<rparr>"
  have slots: "element_slots example_meaning (\<lambda>_ a. [a]) (Some example_array) (sc_mem example_scan_state) 8192 = [8216, 8224]"
    by (simp add: element_slots_def example_array_def declared_data_def declared_length_def element_addresses_def
        example_meaning_def example_scan_state_def upt_conv_Cons)
  have fields: "filter (\<lambda>i. traced_field (Some example_array) (example_fields ! i)) [0..<length example_fields] = [0]"
    by (simp add: traced_field_def example_fields_def example_array_def)
  have "scan_object ?V ?visit example_scan_state 8192 = Some (foldl ?visit example_scan_state
      ([8216, 8224] @ concat (map (\<lambda>i. [8192 + field_offset example_meaning 0 i]) [0])))"
    using derived_scan_visits_fields [OF example_derives example_gcmetadata example_arraylike _ example_metadata,
        where v = 0 and visit = ?visit and slots = "\<lambda>_ a. [a]" and eslots = "\<lambda>_ a. [a]" and S = example_scan_state]
      fields slots
    by (simp add: visits_slots_def derived_vm_def example_attribute_def example_meaning_def example_type_def
        example_fields_def)
  then show ?thesis by (simp add: example_meaning_def example_scan_state_def)
qed

text \<open>The payload size the attributes declare.\<close>

definition declared_size ::
  "('v, 'w) meaning \<Rightarrow> 'v object_size \<Rightarrow> 'v array_like option \<Rightarrow> memory \<Rightarrow> vmkit_object \<Rightarrow> usize" where
  "declared_size M sz arraylike m obj = (case sz of
       SizeCompute e \<Rightarrow> expression M e m obj
     | SizeAuto \<Rightarrow> (case arraylike of
           None \<Rightarrow> size_of_type M
         | Some al \<Rightarrow> size_of_type M + declared_length M al m obj * size_of_element M (the (element_type al)))
     | SizeConst e \<Rightarrow> (case arraylike of
           None \<Rightarrow> const_value M e
         | Some al \<Rightarrow> size_of_type M + declared_length M al m obj * size_of_element M (the (element_type al))))"

lemma compute_size_declared:
  assumes "compute_size_code sz arraylike = Inr c"
  shows "\<exists>computed. (case compute_size_value M c of None \<Rightarrow> Some 0 | Some f \<Rightarrow> f m obj) = Some computed \<and>
    size_value M (instance_size_code sz (arraylike \<noteq> None)) + computed = declared_size M sz arraylike m obj"
  using assms
  by (cases arraylike; cases sz)
    (auto simp: compute_size_code_def and_then_Inr instance_size_code_def declared_size_def array_length_value)

lemma derived_payload:
  assumes "derive_gcmetadata Y T = Inr D" and "find_gcmetadata Y (td_attrs T) = Inr gc"
    and "find_arraylike Y (td_attrs T) = Inr arraylike"
    and "derived_metadata M D = Some (gc_metadata_of (meta V) md)" and "obj_metadata V m obj = Some md"
  shows "payload_size V m obj = Some (declared_size M (go_size gc) arraylike m obj)"
proof -
  note parts = derive_parts [OF assms(1-3)] and fields = derived_metadata_fields [OF assms(4)]
  show ?thesis
    using compute_size_declared [of "go_size gc" arraylike "dv_compute_size D" m obj M] parts fields assms(5)
    by (auto simp: payload_size_def)
qed

text \<open>
  The size of a derived object. A type that is like an array and computes no size of its own has
  objects of the size of the type and, once, that of its elements, whether the attribute gives a constant
  size or not. The machine word the collector gets is this size exactly if it does not exceed the address
  space; otherwise the multiplication or the addition has wrapped around.
\<close>

theorem derived_array_size:
  assumes "derive_gcmetadata Y T = Inr D" and "find_gcmetadata Y (td_attrs T) = Inr gc"
    and "find_arraylike Y (td_attrs T) = Inr (Some al)" and "\<And>e. go_size gc \<noteq> SizeCompute e"
    and "derived_metadata M D = Some (gc_metadata_of (meta V) md)" and "obj_metadata V m obj = Some md"
    and "n = unat (size_of_type M) + unat (declared_length M al m obj) * unat (size_of_element M (the (element_type al)))"
  shows "payload_size V m obj = Some (word_of_nat n) \<and> (unat (word_of_nat n :: usize) = n \<longleftrightarrow> n < 2 ^ 64)"
proof
  have "declared_size M (go_size gc) (Some al) m obj = word_of_nat n"
  proof (cases "go_size gc")
    case (SizeCompute e)
    then show ?thesis using assms(4) by blast
  qed (simp_all add: declared_size_def assms(7))
  then show "payload_size V m obj = Some (word_of_nat n)"
    using derived_payload [OF assms(1-3,5,6)] by simp
  have "unat (word_of_nat n :: usize) = n mod 2 ^ 64" by (simp add: unat_of_nat)
  then show "unat (word_of_nat n :: usize) = n \<longleftrightarrow> n < 2 ^ 64"
    by (metis mod_less unat_less_2_64)
qed

theorem derived_array_size_witness:
  "payload_size (derived_vm example_meaning example_derived) (sc_mem example_scan_state) 8192 = Some 40"
proof -
  have n: "(40 :: nat) = unat (size_of_type example_meaning) +
      unat (declared_length example_meaning example_array (sc_mem example_scan_state) 8192) *
      unat (size_of_element example_meaning (the (element_type example_array)))"
    by (simp add: example_meaning_def declared_length_def example_array_def example_scan_state_def)
  show ?thesis
    using derived_array_size [OF example_derives example_gcmetadata example_arraylike _ example_metadata n]
    by (simp add: example_attribute_def)
qed

text \<open>
  An alignment to be computed (\<open>align = expr\<close>) is parsed and forgotten: whatever the expression, the
  objects get the greatest alignment of the runtime.
\<close>

theorem computed_alignment_is_dropped:
  assumes "derive_gcmetadata Y T = Inr D" and "find_gcmetadata Y (td_attrs T) = Inr gc"
    and "go_alignment gc = AlignCompute e"
    and "derived_metadata M D = Some (gc_metadata_of (meta V) md)" and "obj_metadata V m obj = Some md"
  shows "obj_alignment V m obj = Some (MAX_ALIGNMENT (conf V))"
proof -
  obtain al where "find_arraylike Y (td_attrs T) = Inr al"
    using assms(1,2) by (auto simp: derive_gcmetadata_def and_then_Inr)
  from derive_parts [OF assms(1,2) this] derived_metadata_fields [OF assms(4)] assms(3,5)
  show ?thesis by (simp add: obj_alignment_def alignment_code_def)
qed

text \<open>
  The default is to generate an implementation of \<open>Trace\<close>. It defines \<open>trace_object\<close>, which is no method
  of the trait, so that the generated code never compiles.
\<close>

theorem derived_trace_never_compiles:
  assumes "derive_gcmetadata Y T = Inr D" and "find_gcmetadata Y (td_attrs T) = Inr gc"
    and "go_trace gc = AutoTrace False"
  shows "derived_metadata M D = None"
proof -
  obtain al where "find_arraylike Y (td_attrs T) = Inr al"
    using assms(1,2) by (auto simp: derive_gcmetadata_def and_then_Inr)
  from derive_parts [OF assms(1,2) this] assms(3)
  have "dv_callback D = CallbackImpl TraceTrait" by (auto simp: trace_code_def and_then_Inr Let_def)
  then show ?thesis by (cases "dv_impl D") (simp_all add: derived_metadata_def)
qed

definition plain_type :: "string type_def" where
  "plain_type = \<lparr> td_attrs = [(''gcmetadata'', [(''vm'', Equals ''VM''), (''align'', Equals ''this.align'')])],
     td_variants = [[]] \<rparr>"

lemma plain_attributes [simp]:
  "find_gcmetadata example_syn (td_attrs plain_type) =
     Inr \<lparr> go_vm = ''VM'', go_alignment = AlignCompute ''this.align'', go_size = SizeAuto, go_trace = AutoTrace False \<rparr>"
  "find_arraylike example_syn (td_attrs plain_type) = Inr None"
  by (simp_all add: find_gcmetadata_def plain_type_def example_syn_def gcmetadata_meta_def parse_after_eq_def ok_or_def
      has_attribute_def unwrap_or_def find_arraylike_def)

theorem derived_trace_never_compiles_witness:
  "\<exists>D. derive_gcmetadata example_syn plain_type = Inr D \<and> derived_metadata example_meaning D = None"
proof -
  obtain D where D: "derive_gcmetadata example_syn plain_type = Inr D"
    by (simp add: derive_gcmetadata_def trace_code_def array_code_def compute_size_code_def Let_def)
  then show ?thesis using derived_trace_never_compiles [OF D plain_attributes(1)] by simp
qed

text \<open>
  \<open>data = field\<close>, the form of every other key, is an error: the parser expects the field to follow the
  key directly. So is a key after \<open>trace\<close> or \<open>scan\<close>, which are only complete at the end of the list.
\<close>

lemma data_field_with_equality_fails:
  "find_arraylike Y [(''arraylike'', (''data'', Equals v) # metas)] = Inl ParseError"
  by (simp add: find_arraylike_def arraylike_meta_def no_array_def parse_directly_def)

lemma scan_before_another_key_fails:
  "find_gcmetadata Y [(''gcmetadata'', (''scan'', Comma) # metas)] = Inl ParseError"
  by (simp add: find_gcmetadata_def gcmetadata_meta_def trace_key_def parse_after_eq_def)

end
