(* ===== verification/Vmkit_BinaryTrees.thy ===== *)
theory Vmkit_BinaryTrees
  imports Vmkit_Fields
begin

text \<open>
  The example program \<open>examples/binarytrees.rs\<close>: it allocates perfect binary trees through the
  library and counts their nodes. It exercises allocation, headers and field stores together.
\<close>

section \<open>The program\<close>

text \<open>The static \<open>METADATA\<close>: a node has two references, which are traced.\<close>

definition node_trace ::
  "(memory \<Rightarrow> 's \<Rightarrow> 's) \<Rightarrow> ('s \<Rightarrow> memory) \<Rightarrow> vmkit_object \<Rightarrow> ('s \<Rightarrow> address \<Rightarrow> address \<times> 's) \<Rightarrow> 's \<Rightarrow> 's" where
  "node_trace set_mem mem obj tracer S =
     (let trace_ref = (\<lambda>S a. let o' = load64 (mem S) a
            in if obj_is_null o' then S
               else (let (n, S) = tracer S o' in if n \<noteq> o' then set_mem (store64 (mem S) a n) S else S))
      in trace_ref (trace_ref S obj) (obj + 8))"

definition node_metadata :: "(memory \<Rightarrow> 's \<Rightarrow> 's) \<Rightarrow> ('s \<Rightarrow> memory) \<Rightarrow> 's gc_metadata" where
  "node_metadata set_mem mem = \<lparr> trace = TraceObject (node_trace set_mem mem), instance_size = 16,
     compute_size = None, md_alignment = 16, compute_alignment = None \<rparr>"

definition node_new ::
  "('m, 's) vm \<Rightarrow> 'g mmtk \<Rightarrow> 'm \<Rightarrow> 'g mm_state \<Rightarrow> vmkit_object \<Rightarrow> vmkit_object \<Rightarrow> (vmkit_object \<times> 'g mm_state) option" where
  "node_new V K METADATA S left right = do {
     (node, S) \<leftarrow> allocate V K S 16 32 METADATA Default;
     S \<leftarrow> set_field_object V K S node 0 left;
     S \<leftarrow> set_field_object V K S node 8 right;
     Some (node, S)
   }"

definition node_left :: "memory \<Rightarrow> vmkit_object \<Rightarrow> vmkit_object" where
  "node_left m node = load64 m node"

definition node_right :: "memory \<Rightarrow> vmkit_object \<Rightarrow> vmkit_object" where
  "node_right m node = load64 m (node + 8)"

definition node_null :: vmkit_object where
  "node_null = NULL"

partial_function (option) item_check :: "memory \<Rightarrow> vmkit_object \<Rightarrow> usize option" where
  "item_check m node =
     (if node_left m node = node_null then Some 1
      else do {
        l \<leftarrow> item_check m (node_left m node);
        r \<leftarrow> item_check m (node_right m node);
        Some (1 + l + r)
      })"

definition node_leaf ::
  "('m, 's) vm \<Rightarrow> 'g mmtk \<Rightarrow> 'm \<Rightarrow> 'g mm_state \<Rightarrow> (vmkit_object \<times> 'g mm_state) option" where
  "node_leaf V K METADATA S = node_new V K METADATA S node_null node_null"

text \<open>
  The arguments of \<open>NodeRef::new\<close> are evaluated from left to right. What \<open>yieldpoint\<close> does to the
  state, with all that happens while the thread is stopped, is an argument.
\<close>

fun bottom_up_tree ::
  "('g mm_state \<Rightarrow> 'g mm_state option) \<Rightarrow> ('m, 's) vm \<Rightarrow> 'g mmtk \<Rightarrow> 'm \<Rightarrow> 'g mm_state \<Rightarrow> nat
     \<Rightarrow> (vmkit_object \<times> 'g mm_state) option" where
  "bottom_up_tree poll V K METADATA S 0 = do {
     S \<leftarrow> (if take_yieldpoint (mm_thread S) \<noteq> 0 then poll S else Some S);
     node_leaf V K METADATA S
   }"
| "bottom_up_tree poll V K METADATA S (Suc depth) = do {
     S \<leftarrow> (if take_yieldpoint (mm_thread S) \<noteq> 0 then poll S else Some S);
     (l, S) \<leftarrow> bottom_up_tree poll V K METADATA S depth;
     (r, S) \<leftarrow> bottom_up_tree poll V K METADATA S depth;
     node_new V K METADATA S l r
   }"

text \<open>
  The parameters of a run and the work of one of its threads: the depths, the number of trees of
  each depth, and the sum of their node counts.
\<close>

definition MIN_DEPTH :: nat where
  "MIN_DEPTH = 4"

definition max_depth :: "nat \<Rightarrow> nat" where
  "max_depth n = (if n < MIN_DEPTH + 2 then MIN_DEPTH + 2 else n)"

definition stretch_depth :: "nat \<Rightarrow> nat" where
  "stretch_depth n = max_depth n + 1"

definition results_length :: "nat \<Rightarrow> nat" where
  "results_length n = (max_depth n - MIN_DEPTH) div 2 + 1"

definition depths :: "nat \<Rightarrow> nat list" where
  "depths n = filter (\<lambda>d. (d - MIN_DEPTH) mod 2 = 0) [MIN_DEPTH..<max_depth n + 1]"

text \<open>
  The literal of \<open>1 << n\<close> has type \<open>i32\<close>, and so has the bound of the loop: a shift by 31 gives a
  negative bound, and the distance of a shift is taken modulo 32.
\<close>

definition iterations :: "nat \<Rightarrow> nat \<Rightarrow> i32" where
  "iterations n depth = push_bit ((max_depth n - depth + MIN_DEPTH) mod 32) 1"

definition loop_rounds :: "i32 \<Rightarrow> nat" where
  "loop_rounds its = nat (sint its)"

definition results_index :: "nat \<Rightarrow> nat" where
  "results_index depth = (depth - MIN_DEPTH) div 2"

primrec worker_loop ::
  "('g mm_state \<Rightarrow> 'g mm_state option) \<Rightarrow> ('m, 's) vm \<Rightarrow> 'g mmtk \<Rightarrow> 'm \<Rightarrow> nat \<Rightarrow> nat \<Rightarrow> usize \<Rightarrow> 'g mm_state
     \<Rightarrow> (usize \<times> 'g mm_state) option" where
  "worker_loop poll V K METADATA depth 0 check S = Some (check, S)"
| "worker_loop poll V K METADATA depth (Suc k) check S = do {
     (tree_node, S) \<leftarrow> bottom_up_tree poll V K METADATA S depth;
     c \<leftarrow> item_check (mm_mem S) tree_node;
     worker_loop poll V K METADATA depth k (check + c) S
   }"

text \<open>
  The line a thread writes about its trees, and where it stores it in the vector of results.
\<close>

definition show_i32 :: "i32 \<Rightarrow> string" where
  "show_i32 w = (if sint w < 0 then ''-'' @ show_nat (nat (- sint w)) else show_nat (nat (sint w)))"

definition result_line :: "i32 \<Rightarrow> nat \<Rightarrow> usize \<Rightarrow> string" where
  "result_line its depth check =
     show_i32 its @ [CHR 0x09] @ '' trees of depth '' @ show_nat depth @ [CHR 0x09] @
     '' check: '' @ show_nat (unat check)"

definition store_result :: "string list \<Rightarrow> nat \<Rightarrow> string \<Rightarrow> string list option" where
  "store_result results depth line =
     (let i = results_index depth in if i < length results then Some (results[i := line]) else None)"

definition worker ::
  "('g mm_state \<Rightarrow> 'g mm_state option) \<Rightarrow> ('m, 's) vm \<Rightarrow> 'g mmtk \<Rightarrow> 'm \<Rightarrow> nat \<Rightarrow> nat \<Rightarrow> 'g mm_state \<Rightarrow> string list
     \<Rightarrow> (string list \<times> 'g mm_state) option" where
  "worker poll V K METADATA n depth S results = do {
     let its = iterations n depth;
     (check, S) \<leftarrow> worker_loop poll V K METADATA depth (loop_rounds its) 0 S;
     results \<leftarrow> store_result results depth (result_line its depth check);
     Some (results, S)
   }"

text \<open>
  The threads of \<open>main\<close> store their lines in the order in which they finish; \<open>main\<close> prints the
  vector after it has joined them all.
\<close>

definition empty_results :: "nat \<Rightarrow> string list" where
  "empty_results n = replicate (results_length n) []"

primrec store_all :: "(nat \<Rightarrow> string) \<Rightarrow> string list \<Rightarrow> nat list \<Rightarrow> string list option" where
  "store_all line results [] = Some results"
| "store_all line results (d # ds) = do {
     results \<leftarrow> store_result results d (line d);
     store_all line results ds
   }"

section \<open>Trees in memory\<close>

text \<open>
  A perfect tree with its nodes in a range of addresses: those of the left subtree first, then
  those of the right one, then the root, so that no two nodes share a byte.
\<close>

fun tree_at :: "memory \<Rightarrow> nat \<Rightarrow> nat \<Rightarrow> vmkit_object \<Rightarrow> nat \<Rightarrow> bool" where
  "tree_at m lo hi p 0 \<longleftrightarrow> lo \<le> unat p \<and> unat p + 16 \<le> hi \<and> node_left m p = NULL \<and> node_right m p = NULL"
| "tree_at m lo hi p (Suc d) \<longleftrightarrow> (\<exists>a b. lo \<le> a \<and> a \<le> b \<and> b \<le> unat p \<and> unat p + 16 \<le> hi \<and>
     tree_at m lo a (node_left m p) d \<and> tree_at m a b (node_right m p) d)"

lemma tree_at_root: "tree_at m lo hi p d \<Longrightarrow> lo \<le> unat p \<and> unat p + 16 \<le> hi"
  by (cases d) auto

lemma load64_frame:
  assumes "\<And>x. lo \<le> unat x \<Longrightarrow> unat x < hi \<Longrightarrow> m' x = m x" and "lo \<le> unat a" and "unat a + 8 \<le> hi" and "hi \<le> 2 ^ 64"
  shows "load64 m' a = load64 m a"
proof (rule load_bytes_cong)
  fix i :: nat assume i: "i < 8"
  then have "unat (a + word_of_nat i) = unat a + i"
    using assms(3,4) by (intro unat_add_small) linarith
  then show "m' (a + word_of_nat i) = m (a + word_of_nat i)" using assms(2,3) i by (intro assms(1)) linarith+
qed

lemma unat_plus_8: "unat a + 16 \<le> 2 ^ 64 \<Longrightarrow> unat (a + 8) = unat a + 8" for a :: usize
  by (subst unat_add_no_overflow) auto

lemma tree_at_frame:
  assumes "tree_at m lo hi p d" and "\<And>x. lo \<le> unat x \<Longrightarrow> unat x < hi \<Longrightarrow> m' x = m x" and "hi \<le> 2 ^ 64"
  shows "tree_at m' lo hi p d"
  using assms
proof (induction d arbitrary: lo hi p)
  case 0
  then have "node_left m' p = node_left m p" "node_right m' p = node_right m p"
    using load64_frame [of lo hi m' m p] load64_frame [of lo hi m' m "p + 8"] unat_plus_8 [of p]
    by (auto simp: node_left_def node_right_def)
  then show ?case using 0 by simp
next
  case (Suc d)
  then obtain a b where ab: "lo \<le> a" "a \<le> b" "b \<le> unat p" "unat p + 16 \<le> hi"
      "tree_at m lo a (node_left m p) d" "tree_at m a b (node_right m p) d" by auto
  have "node_left m' p = node_left m p" "node_right m' p = node_right m p"
    using load64_frame [of lo hi m' m p] load64_frame [of lo hi m' m "p + 8"] unat_plus_8 [of p] ab Suc.prems(2,3)
    by (auto simp: node_left_def node_right_def)
  moreover have "tree_at m' lo a (node_left m p) d"
    using ab by (intro Suc.IH [OF ab(5)] Suc.prems(2)) (use Suc.prems(3) in linarith)+
  moreover have "tree_at m' a b (node_right m p) d"
    using ab by (intro Suc.IH [OF ab(6)] Suc.prems(2)) (use Suc.prems(3) in linarith)+
  ultimately show ?case using ab by auto
qed

lemma item_check_tree:
  assumes "tree_at m lo hi p d" and "0 < lo"
  shows "item_check m p = Some (word_of_nat (2 ^ Suc d - 1))"
  using assms
proof (induction d arbitrary: lo hi p)
  case 0
  then show ?case by (subst item_check.simps) (simp add: node_null_def)
next
  case (Suc d)
  then obtain a b where ab: "lo \<le> a" "tree_at m lo a (node_left m p) d" "tree_at m a b (node_right m p) d" by auto
  have n: "node_left m p \<noteq> NULL" using tree_at_root [OF ab(2)] Suc.prems(2) by auto
  have "item_check m (node_left m p) = Some (word_of_nat (2 ^ Suc d - 1))"
    "item_check m (node_right m p) = Some (word_of_nat (2 ^ Suc d - 1))"
    using Suc.IH ab Suc.prems(2) by auto
  moreover have "(2 :: nat) ^ Suc (Suc d) - 1 = 1 + (2 ^ Suc d - 1) + (2 ^ Suc d - 1)"
    using one_le_power [of "2 :: nat" "Suc d"] by simp
  then have "word_of_nat (2 ^ Suc (Suc d) - 1) = (1 + word_of_nat (2 ^ Suc d - 1) + word_of_nat (2 ^ Suc d - 1) :: usize)"
    by (simp only: of_nat_add of_nat_1)
  ultimately show ?case using n by (subst item_check.simps) (simp add: node_null_def)
qed

section \<open>Building one node\<close>

lemma dvd_between:
  assumes "(k :: nat) dvd n" and "k * a < n + k" and "n < k * a + k"
  shows "n = k * a"
proof -
  obtain b where "n = k * b" using assms(1) by (rule dvdE)
  moreover have "a < b + 1" using assms(2) calculation by (metis add.commute mult.right_neutral distrib_left nat_mult_less_cancel1 mult_less_cancel1)
  moreover have "b < a + 1" using assms(3) calculation by (metis mult.right_neutral distrib_left mult_less_cancel1)
  ultimately show ?thesis by simp
qed

lemma align_up_exact:
  assumes "lib_ok L" and "k < 64" and "unat x \<le> 2 ^ k * a" and "2 ^ k * a < unat x + 2 ^ k" and "unat x + 2 ^ k < 2 ^ 64"
  shows "unat (raw_align_up L x (2 ^ k)) = 2 ^ k * a"
proof (rule dvd_between)
  have b: "unat x \<le> unat (raw_align_up L x (2 ^ k))" "unat (raw_align_up L x (2 ^ k)) < unat x + 2 ^ k"
    and al: "aligned k (raw_align_up L x (2 ^ k))"
    using raw_align_up_bounds [OF assms(1,2), of x] assms(5) by auto
  show "2 ^ k dvd unat (raw_align_up L x (2 ^ k))" using al by (simp add: aligned_iff_dvd)
  show "2 ^ k * a < unat (raw_align_up L x (2 ^ k)) + 2 ^ k" "unat (raw_align_up L x (2 ^ k)) < 2 ^ k * a + 2 ^ k"
    using b assms(3,4) by linarith+
qed

text \<open>
  The thread allocates from its buffer, no yieldpoint is requested and no barrier is needed, the
  buffer has room for \<^term>\<open>n\<close> nodes of at most 64 bytes with alignment, and the table of
  valid-object bits for it is elsewhere.
\<close>

definition node_vm :: "('m, 's) vm \<Rightarrow> 'm \<Rightarrow> bool" where
  "node_vm V md \<longleftrightarrow> hashing_vm V \<and> storable V md \<and> (\<exists>set_mem mem. gc_metadata_of (meta V) md = node_metadata set_mem mem)"

definition tree_ready :: "'g mmtk \<Rightarrow> nat \<Rightarrow> 'g mm_state \<Rightarrow> nat \<Rightarrow> bool" where
  "tree_ready K lo S n \<longleftrightarrow> (let t = mm_thread S; c = unat (cursor (tl_tlab t)); l = unat (limit (tl_tlab t)) in
     take_yieldpoint t = 0 \<and> alloc_fastpath t = TLABPath \<and> 24 < max_non_los_default_alloc_bytes t \<and>
     barrier t = NoBarrier \<and> 0 < lo \<and> lo \<le> c \<and> c + 64 * n \<le> l \<and> l + 128 < 2 ^ 64 \<and>
     (\<forall>x. lo \<le> unat x \<and> unat x < l \<longrightarrow>
        \<not> (lo \<le> unat (VO_BIT_SIDE_METADATA_ADDR K + drop_bit 6 x) \<and> unat (VO_BIT_SIDE_METADATA_ADDR K + drop_bit 6 x) < l)))"

lemma below_far:
  assumes "unat x < unat a" and "unat a + 8 \<le> 2 ^ 64"
  shows "8 \<le> unat (x - a :: usize)"
proof -
  have ne: "a - x \<noteq> 0" using assms(1) by auto
  have "unat (a - x) = unat a - unat x" using assms(1) by (intro unat_sub) (simp add: word_le_nat_alt)
  moreover have "unat (- (a - x)) = 2 ^ 64 - unat (a - x)" by (rule unat_uminus [OF ne])
  moreover have "- (a - x) = x - a" by simp
  ultimately have "unat (x - a) = 2 ^ 64 - (unat a - unat x)" by metis
  then show ?thesis using assms by linarith
qed

lemma outside_far:
  assumes "\<not> (lo \<le> unat x \<and> unat x < hi)" and "lo \<le> unat a" and "unat a + 8 \<le> hi" and "hi \<le> 2 ^ 64"
  shows "8 \<le> unat (x - a :: usize)"
proof (cases "unat x < unat a")
  case True
  then show ?thesis using assms by (intro below_far) linarith+
next
  case False
  then have "unat (x - a) = unat x - unat a" by (intro unat_sub) (simp add: word_le_nat_alt)
  then show ?thesis using assms False by linarith
qed

text \<open>The buffer gives a block of 32 bytes for a node.\<close>

lemma node_block:
  assumes "lib_ok L" and "0 < unat (cursor t)" and "unat (cursor t) + 64 \<le> unat (limit t)" and "unat (limit t) + 128 < 2 ^ 64"
  shows "\<exists>a t'. tlab_allocate L t 32 32 OBJECT_REF_OFFSET = (a, t') \<and> a \<noteq> 0 \<and> unat (cursor t) \<le> unat a \<and>
    unat (cursor t') = unat a + 32 \<and> unat a + 32 < unat (cursor t) + 64 \<and> limit t' = limit t"
proof -
  let ?a = "align_allocation_no_fill (cursor t) 32 OBJECT_REF_OFFSET"
  have al: "unat (cursor t) \<le> unat ?a" "unat ?a < unat (cursor t) + 32"
    using unat_align_no_fill [of "cursor t" 5 OBJECT_REF_OFFSET] assms by simp_all
  have "unat (raw_align_up L 32 (2 ^ 5)) = 2 ^ 5 * 1" using assms(1) by (rule align_up_exact) simp_all
  then have n: "raw_align_up L 32 32 = 32" by (simp add: word_unat_eq_iff)
  have s: "unat (?a + 32) = unat ?a + 32"
    using al assms by (subst unat_add_no_overflow) simp_all
  then have "\<not> ?a + 32 > limit t" using al assms(3) by (simp add: word_less_nat_alt)
  moreover have "?a \<noteq> 0" using al(1) assms(2) by auto
  ultimately show ?thesis using al s by (simp add: tlab_allocate_def n Let_def)
qed

lemma node_allocate:
  assumes V: "node_vm V md" and R: "tree_ready K lo S (Suc n)"
  shows "\<exists>node S'. allocate V K S 16 32 md Default = Some (node, S') \<and> tree_ready K lo S' n \<and>
    unat (cursor (tl_tlab (mm_thread S))) \<le> unat node \<and> unat node + 24 = unat (cursor (tl_tlab (mm_thread S'))) \<and>
    obj_metadata V (mm_mem S') node = Some md \<and> bytes_used V (mm_mem S') node = Some 24 \<and>
    (\<forall>x. lo \<le> unat x \<and> unat x < unat (cursor (tl_tlab (mm_thread S))) \<longrightarrow> mm_mem S' x = mm_mem S x)"
proof -
  let ?t = "tl_tlab (mm_thread S)"
  have L: "lib_ok (lib V)" and H: "hashing_vm V" and St: "storable V md" using V by (auto simp: node_vm_def)
  have r: "0 < unat (cursor ?t)" "lo \<le> unat (cursor ?t)" "unat (cursor ?t) + 64 \<le> unat (limit ?t)"
      "unat (limit ?t) + 128 < 2 ^ 64" "0 < lo"
    using R by (auto simp: tree_ready_def Let_def)
  obtain a t' where b: "tlab_allocate (lib V) ?t 32 32 OBJECT_REF_OFFSET = (a, t')" "a \<noteq> 0" "unat (cursor ?t) \<le> unat a"
      "unat (cursor t') = unat a + 32" "unat a + 32 < unat (cursor ?t) + 64" "limit t' = limit ?t"
    using node_block [OF L r(1), of] r(3,4) by auto
  have "unat (raw_align_up (lib V) 24 (2 ^ 5)) = 2 ^ 5 * 1" using L by (rule align_up_exact) simp_all
  then have n: "raw_align_up (lib V) 24 32 = 32" by (simp add: word_unat_eq_iff)
  have "choose_semantics (mm_thread S) 24 Default = Default"
    using R by (simp add: choose_semantics_def tree_ready_def Let_def not_le)
  then have fast: "fast_path V S 16 32 Default"
    using b(1,2) R by (simp add: fast_path_def n tree_ready_def Let_def)
  let ?S' = "S \<lparr> mm_thread := (mm_thread S) \<lparr> tl_tlab := t' \<rparr>,
      mm_mem := set_vo_bit K (store_new_header V (mm_mem S) a md) (a + 8) \<rparr>"
  have alloc: "allocate V K S 16 32 md Default = Some (a + 8, ?S')"
    using allocate_fast [OF fast, of a t' K md] b(1) by (simp add: n OBJECT_REF_OFFSET_def)
  have node: "unat (a + 8) = unat a + 8" using b r by (intro unat_plus_8) linarith
  let ?vo = "VO_BIT_SIDE_METADATA_ADDR K + drop_bit 6 (a + 8)"
  have vo: "\<not> (lo \<le> unat ?vo \<and> unat ?vo < unat (limit ?t))"
  proof -
    have "lo \<le> unat (a + 8)" "unat (a + 8) < unat (limit ?t)" using node b r by linarith+
    then show ?thesis using R unfolding tree_ready_def Let_def by blast
  qed
  have "8 \<le> unat (?vo - a)" using b r by (intro outside_far [OF vo]) linarith+
  then have "load64 (mm_mem ?S') a = header_new V md"
    by (simp add: set_vo_bit_def Let_def load64_upd_outside store_new_header_def)
  moreover have ne: "a + 8 \<noteq> 0" using node b(2) by auto
  ultimately have h: "obj_header (mm_mem ?S') (a + 8) = Some (header_new V md)"
    by (simp add: obj_header_def obj_is_null_def OBJECT_HEADER_OFFSET_def OBJECT_REF_OFFSET_def)
  then have md: "obj_metadata V (mm_mem ?S') (a + 8) = Some md"
    using H St by (simp add: obj_metadata_def vm_header.new_metadata)
  have "unat (raw_align_up (lib V) 24 (2 ^ 3)) = 2 ^ 3 * 3" using L by (rule align_up_exact) simp_all
  then have n8: "raw_align_up (lib V) 24 8 = 24" by (simp add: word_unat_eq_iff)
  have "hashcode_overhead V False (mm_mem ?S') (a + 8) = Some 0"
    using h H St by (simp add: hashcode_overhead_def vm_header.new_hash_state)
  moreover have "payload_size V (mm_mem ?S') (a + 8) = Some 16"
    using md V by (auto simp: payload_size_def node_vm_def node_metadata_def)
  ultimately have used: "bytes_used V (mm_mem ?S') (a + 8) = Some 24" by (simp add: bytes_used_def n8)
  have frame: "mm_mem ?S' x = mm_mem S x" if x: "lo \<le> unat x" "unat x < unat (cursor ?t)" for x
  proof -
    have "x \<noteq> ?vo" using vo x r by auto
    moreover have "8 \<le> unat (x - a)" using x b r by (intro below_far) linarith+
    ultimately show ?thesis by (simp add: set_vo_bit_def Let_def store_new_header_def store_bytes_outside)
  qed
  have "tree_ready K lo ?S' n"
    using R b(3-6) by (simp add: tree_ready_def Let_def) 
  then show ?thesis using alloc node b(3,4) md used frame by auto
qed

lemma plain_store:
  assumes "barrier (mm_thread S) = NoBarrier" and "bytes_used V (mm_mem S) node = Some 24" and "sint offset < 24"
  shows "set_field_object V K S node offset v = Some (S \<lparr> mm_mem := store64 (mm_mem S) (node + offset) v \<rparr>)"
  using assms
  by (simp add: set_field_object_def set_field_object_no_write_barrier_def set_field_primitive_def
      object_reference_write_pre_def object_reference_write_post_def)

lemma node_new_step:
  assumes V: "node_vm V md" and R: "tree_ready K lo S (Suc n)"
  shows "\<exists>node S'. node_new V K md S l r = Some (node, S') \<and> tree_ready K lo S' n \<and>
    unat (cursor (tl_tlab (mm_thread S))) \<le> unat node \<and> unat node + 16 \<le> unat (cursor (tl_tlab (mm_thread S'))) \<and>
    node_left (mm_mem S') node = l \<and> node_right (mm_mem S') node = r \<and>
    (\<forall>x. lo \<le> unat x \<and> unat x < unat (cursor (tl_tlab (mm_thread S))) \<longrightarrow> mm_mem S' x = mm_mem S x)"
proof -
  obtain node S1 where S1: "allocate V K S 16 32 md Default = Some (node, S1)" "tree_ready K lo S1 n"
      "unat (cursor (tl_tlab (mm_thread S))) \<le> unat node" "unat node + 24 = unat (cursor (tl_tlab (mm_thread S1)))"
      "obj_metadata V (mm_mem S1) node = Some md" "bytes_used V (mm_mem S1) node = Some 24"
      "\<forall>x. lo \<le> unat x \<and> unat x < unat (cursor (tl_tlab (mm_thread S))) \<longrightarrow> mm_mem S1 x = mm_mem S x"
    using node_allocate [OF V R] by blast
  have b: "barrier (mm_thread S1) = NoBarrier" and room: "unat node + 24 \<le> 2 ^ 64"
    using S1(2,4) by (auto simp: tree_ready_def Let_def)
  let ?m = "store64 (mm_mem S1) node l" and ?S' = "S1 \<lparr> mm_mem := store64 (store64 (mm_mem S1) node l) (node + 8) r \<rparr>"
  have fixed: "compute_size (gc_metadata_of (meta V) md) = None" using V by (auto simp: node_vm_def node_metadata_def)
  have "obj_header ?m node = obj_header (mm_mem S1) node"
    using header_outside_field [of 0 8 "mm_mem S1" node l] by simp
  then have "bytes_used V ?m node = Some 24" using bytes_used_fixed [OF _ S1(5) fixed, of ?m] S1(6) by simp
  then have new: "node_new V K md S l r = Some (node, ?S')"
    using plain_store [OF b S1(6), of 0 K l] plain_store [of "S1 \<lparr> mm_mem := ?m \<rparr>" V node 8 K r] b
    by (simp add: node_new_def S1(1))
  have "node_left (mm_mem ?S') node = l"
    using load_store_other [of node "node + 8" ?m r] by (simp add: node_left_def unat_uminus)
  moreover have "node_right (mm_mem ?S') node = r" by (simp add: node_right_def)
  moreover have "mm_mem ?S' x = mm_mem S x" if x: "lo \<le> unat x" "unat x < unat (cursor (tl_tlab (mm_thread S)))" for x
  proof -
    have u: "unat (node + 8) = unat node + 8" using room by (intro unat_plus_8) linarith
    have "8 \<le> unat (x - node)" using x S1(3) room by (intro below_far) linarith+
    moreover have "8 \<le> unat (x - (node + 8))" using x S1(3) room u by (intro below_far) linarith+
    ultimately show ?thesis using S1(7) x by (simp add: store_bytes_outside)
  qed
  moreover have "tree_ready K lo ?S' n" using S1(2) by (simp add: tree_ready_def)
  moreover have "unat node + 16 \<le> unat (cursor (tl_tlab (mm_thread ?S')))" using S1(4) by simp
  ultimately show ?thesis using new S1(3) by blast
qed

lemma builds_tree:
  assumes "node_vm V md" and "tree_ready K lo S (2 ^ Suc d - 1 + k)"
  shows "\<exists>root S'. bottom_up_tree poll V K md S d = Some (root, S') \<and> tree_ready K lo S' k \<and>
    tree_at (mm_mem S') (unat (cursor (tl_tlab (mm_thread S)))) (unat (cursor (tl_tlab (mm_thread S')))) root d \<and>
    (\<forall>x. lo \<le> unat x \<and> unat x < unat (cursor (tl_tlab (mm_thread S))) \<longrightarrow> mm_mem S' x = mm_mem S x) \<and>
    unat (cursor (tl_tlab (mm_thread S))) \<le> unat (cursor (tl_tlab (mm_thread S')))"
  using assms(2)
proof (induction d arbitrary: S k)
  case 0
  have y: "take_yieldpoint (mm_thread S) = 0" using 0 by (simp add: tree_ready_def Let_def)
  have "tree_ready K lo S (Suc k)" using 0 by simp
  from node_new_step [OF assms(1) this, of NULL NULL] obtain node S' where
    "node_new V K md S NULL NULL = Some (node, S')" "tree_ready K lo S' k"
    "unat (cursor (tl_tlab (mm_thread S))) \<le> unat node" "unat node + 16 \<le> unat (cursor (tl_tlab (mm_thread S')))"
    "node_left (mm_mem S') node = NULL" "node_right (mm_mem S') node = NULL"
    "\<forall>x. lo \<le> unat x \<and> unat x < unat (cursor (tl_tlab (mm_thread S))) \<longrightarrow> mm_mem S' x = mm_mem S x" by blast
  then show ?case using y by (auto simp: node_leaf_def node_null_def)
next
  case (Suc d)
  let ?c = "\<lambda>S. unat (cursor (tl_tlab (mm_thread S)))"
  let ?n = "2 ^ Suc d - 1 :: nat"
  have p: "2 ^ Suc (Suc d) - 1 + k = ?n + (?n + Suc k)" using one_le_power [of "2 :: nat" "Suc d"] by simp
  have y: "take_yieldpoint (mm_thread S) = 0" using Suc.prems by (simp add: tree_ready_def Let_def)
  obtain l S1 where S1: "bottom_up_tree poll V K md S d = Some (l, S1)" "tree_ready K lo S1 (?n + Suc k)"
      "tree_at (mm_mem S1) (?c S) (?c S1) l d"
      "\<forall>x. lo \<le> unat x \<and> unat x < ?c S \<longrightarrow> mm_mem S1 x = mm_mem S x" "?c S \<le> ?c S1"
    using Suc.IH [of S "?n + Suc k"] Suc.prems unfolding p by blast
  obtain r S2 where S2: "bottom_up_tree poll V K md S1 d = Some (r, S2)" "tree_ready K lo S2 (Suc k)"
      "tree_at (mm_mem S2) (?c S1) (?c S2) r d"
      "\<forall>x. lo \<le> unat x \<and> unat x < ?c S1 \<longrightarrow> mm_mem S2 x = mm_mem S1 x" "?c S1 \<le> ?c S2"
    using Suc.IH [OF S1(2)] by blast
  obtain node S3 where S3: "node_new V K md S2 l r = Some (node, S3)" "tree_ready K lo S3 k"
      "?c S2 \<le> unat node" "unat node + 16 \<le> ?c S3" "node_left (mm_mem S3) node = l" "node_right (mm_mem S3) node = r"
      "\<forall>x. lo \<le> unat x \<and> unat x < ?c S2 \<longrightarrow> mm_mem S3 x = mm_mem S2 x"
    using node_new_step [OF assms(1) S2(2), of l r] by blast
  have lo: "lo \<le> ?c S" "lo \<le> ?c S1" using Suc.prems S1(2) by (auto simp: tree_ready_def Let_def)
  have "mm_mem S3 x = mm_mem S1 x" if "?c S \<le> unat x" "unat x < ?c S1" for x
    using S3(7) S2(4,5) lo that by (metis le_trans less_le_trans)
  then have left: "tree_at (mm_mem S3) (?c S) (?c S1) l d"
    using tree_at_frame [OF S1(3) _ less_imp_le [OF unat_less_2_64]] by blast
  have "mm_mem S3 x = mm_mem S2 x" if "?c S1 \<le> unat x" "unat x < ?c S2" for x
    using S3(7) lo that by (metis le_trans)
  then have right: "tree_at (mm_mem S3) (?c S1) (?c S2) r d"
    using tree_at_frame [OF S2(3) _ less_imp_le [OF unat_less_2_64]] by blast
  have "tree_at (mm_mem S3) (?c S) (?c S3) node (Suc d)"
    unfolding tree_at.simps S3(5,6) using left right S1(5) S2(5) S3(3,4) by blast
  moreover have "\<forall>x. lo \<le> unat x \<and> unat x < ?c S \<longrightarrow> mm_mem S3 x = mm_mem S x"
    using S1(4,5) S2(4,5) S3(7) by (metis less_le_trans)
  moreover have "?c S \<le> ?c S3" using S1(5) S2(5) S3(3,4) by linarith
  moreover have "bottom_up_tree poll V K md S (Suc d) = Some (node, S3)"
    using y S1(1) S2(1) S3(1) by simp
  ultimately show ?case using S3(2) by blast
qed

text \<open>Every thread has a place of its own in the vector of results.\<close>

lemma results_index_bounds: "d \<in> set (depths n) \<Longrightarrow> results_index d < results_length n"
  by (auto simp: depths_def results_index_def results_length_def max_depth_def MIN_DEPTH_def div_le_mono less_Suc_eq_le split: if_splits)

lemma results_index_eq: "d \<in> set (depths n) \<Longrightarrow> d = MIN_DEPTH + 2 * results_index d"
  unfolding depths_def results_index_def set_filter by simp presburger

lemma results_index_inj: "inj_on results_index (set (depths n))"
  using results_index_eq by (intro inj_onI) metis

text \<open>The loop of a thread counts the nodes of all its trees.\<close>

lemma worker_counts_nodes:
  assumes "node_vm V md" and "tree_ready K lo S (k * (2 ^ Suc d - 1))"
  shows "\<exists>S'. worker_loop poll V K md d k check S = Some (check + word_of_nat (k * (2 ^ Suc d - 1)), S')"
  using assms(2)
proof (induction k arbitrary: S check)
  case (Suc k)
  have "tree_ready K lo S (2 ^ Suc d - 1 + k * (2 ^ Suc d - 1))" using Suc.prems by simp
  from builds_tree [OF assms(1) this, of poll] obtain root S1 where
    S1: "bottom_up_tree poll V K md S d = Some (root, S1)" "tree_ready K lo S1 (k * (2 ^ Suc d - 1))"
      "tree_at (mm_mem S1) (unat (cursor (tl_tlab (mm_thread S)))) (unat (cursor (tl_tlab (mm_thread S1)))) root d" by blast
  have "0 < unat (cursor (tl_tlab (mm_thread S)))" using Suc.prems by (auto simp: tree_ready_def Let_def)
  then have c: "item_check (mm_mem S1) root = Some (word_of_nat (2 ^ Suc d - 1))" using item_check_tree [OF S1(3)] by blast
  have "word_of_nat (Suc k * (2 ^ Suc d - 1)) = (word_of_nat (2 ^ Suc d - 1) + word_of_nat (k * (2 ^ Suc d - 1)) :: usize)"
    by (simp only: mult_Suc of_nat_add)
  then show ?case
    using Suc.IH [OF S1(2), of "check + word_of_nat (2 ^ Suc d - 1)"] S1(1) c by (simp del: of_nat_mult add: add.assoc)
qed simp

text \<open>A thread whose buffer has room for its trees writes the line with their number of nodes.\<close>

lemma loop_rounds_exact:
  assumes "max_depth n - depth + MIN_DEPTH < 31"
  shows "loop_rounds (iterations n depth) = 2 ^ (max_depth n - depth + MIN_DEPTH)"
proof -
  let ?k = "max_depth n - depth + MIN_DEPTH"
  have "(2 :: int) ^ ?k < 2 ^ 31" using assms by (intro power_strict_increasing) auto
  moreover have "- (2 ^ 31) \<le> (0 :: int)" by simp
  moreover have "(0 :: int) \<le> 2 ^ ?k" by simp
  ultimately have "signed_take_bit 31 (2 ^ ?k :: int) = 2 ^ ?k"
    by (intro signed_take_bit_int_eq_self) linarith+
  moreover have "push_bit ?k 1 = (word_of_int (2 ^ ?k) :: i32)" by (simp add: push_bit_eq_mult)
  ultimately have "sint (push_bit ?k 1 :: i32) = 2 ^ ?k" by (simp only: sint_sbintrunc') simp
  then show ?thesis using assms by (simp add: iterations_def loop_rounds_def nat_power_eq)
qed

lemma worker_writes_count:
  assumes "node_vm V md" and "max_depth n - d + MIN_DEPTH < 31" and "results_index d < length results"
    and "tree_ready K lo S (2 ^ (max_depth n - d + MIN_DEPTH) * (2 ^ Suc d - 1))"
  shows "\<exists>S'. worker poll V K md n d S results = Some (results[results_index d :=
    result_line (iterations n d) d (word_of_nat (2 ^ (max_depth n - d + MIN_DEPTH) * (2 ^ Suc d - 1)))], S')"
proof -
  let ?k = "2 ^ (max_depth n - d + MIN_DEPTH) :: nat"
  have it: "loop_rounds (iterations n d) = ?k" by (rule loop_rounds_exact [OF assms(2)])
  obtain S' where "worker_loop poll V K md d ?k 0 S = Some (word_of_nat (?k * (2 ^ Suc d - 1)), S')"
    using worker_counts_nodes [OF assms(1,4), of poll 0] by auto
  then show ?thesis
    using it assms(3) unfolding worker_def by (simp add: store_result_def del: of_nat_mult power_Suc)
qed

text \<open>
  From a depth of 31 on, the numbers of iterations are wrong: for the smallest depth, the bound of
  the loop is negative and the thread does no work, or there is one round instead of \<open>2 ^ 32\<close>.
\<close>

lemma iterations_overflow:
  "loop_rounds (iterations 31 MIN_DEPTH) = 0" "loop_rounds (iterations 32 MIN_DEPTH) = 1"
  by (simp_all add: iterations_def max_depth_def MIN_DEPTH_def loop_rounds_def)

text \<open>The output does not depend on the order in which the threads finish.\<close>

lemma set_depths: "set (depths n) = (\<lambda>i. MIN_DEPTH + 2 * i) ` {..<results_length n}"
proof (intro set_eqI iffI)
  fix d assume "d \<in> set (depths n)"
  then show "d \<in> (\<lambda>i. MIN_DEPTH + 2 * i) ` {..<results_length n}"
    using results_index_bounds results_index_eq by blast
next
  fix d assume "d \<in> (\<lambda>i. MIN_DEPTH + 2 * i) ` {..<results_length n}"
  then obtain i where i: "d = MIN_DEPTH + 2 * i" "i \<le> (max_depth n - MIN_DEPTH) div 2"
    by (auto simp: results_length_def)
  have "MIN_DEPTH \<le> max_depth n" by (simp add: max_depth_def)
  then have "d \<le> max_depth n" using i by linarith
  then show "d \<in> set (depths n)" using i(1) by (simp add: depths_def del: upt_Suc)
qed

lemma depths_eq: "depths n = map (\<lambda>i. MIN_DEPTH + 2 * i) [0..<results_length n]"
proof (rule sorted_distinct_set_unique)
  show "set (depths n) = set (map (\<lambda>i. MIN_DEPTH + 2 * i) [0..<results_length n])"
    by (simp add: set_depths atLeast0LessThan)
  show "sorted (map (\<lambda>i. MIN_DEPTH + 2 * i) [0..<results_length n])"
    by (simp add: sorted_iff_nth_mono)
qed (simp_all add: depths_def distinct_map inj_on_def sorted_wrt_filter del: upt_Suc)

lemma store_all_places:
  assumes "\<forall>d \<in> set ds. results_index d < length R" and "inj_on results_index (set ds)" and "distinct ds"
  shows "\<exists>R'. store_all line R ds = Some R' \<and> length R' = length R \<and>
    (\<forall>d \<in> set ds. R' ! results_index d = line d) \<and>
    (\<forall>i. i \<notin> results_index ` set ds \<longrightarrow> R' ! i = R ! i)"
  using assms
proof (induction ds arbitrary: R)
  case (Cons d ds)
  let ?R = "R[results_index d := line d]"
  have i: "results_index d \<notin> results_index ` set ds" using Cons.prems(2,3) by (auto simp: inj_on_def)
  obtain R' where R': "store_all line ?R ds = Some R'" "length R' = length ?R"
      "\<forall>e \<in> set ds. R' ! results_index e = line e" "\<forall>i. i \<notin> results_index ` set ds \<longrightarrow> R' ! i = ?R ! i"
    using Cons.IH [of ?R] Cons.prems by auto
  then show ?case using Cons.prems(1) i by (auto simp: store_result_def nth_list_update)
qed simp

lemma results_in_any_order:
  assumes "distinct ds" and "set ds = set (depths n)"
  shows "store_all line (empty_results n) ds = Some (map line (depths n))"
proof -
  have len: "length (empty_results n) = results_length n" by (simp add: empty_results_def)
  obtain R' where R': "store_all line (empty_results n) ds = Some R'" "length R' = results_length n"
      "\<forall>d \<in> set ds. R' ! results_index d = line d"
    using store_all_places [of ds "empty_results n" line] assms results_index_bounds results_index_inj len by auto
  have "R' ! i = map line (depths n) ! i" if "i < results_length n" for i
  proof -
    have "MIN_DEPTH + 2 * i \<in> set ds" using that assms(2) by (simp add: depths_eq)
    moreover have "results_index (MIN_DEPTH + 2 * i) = i" by (simp add: results_index_def)
    ultimately show ?thesis using R'(3) that by (fastforce simp: depths_eq)
  qed
  then have "R' = map line (depths n)" using R'(2) by (intro nth_equalityI) (simp_all add: depths_eq)
  then show ?thesis using R'(1) by simp
qed

section \<open>Properties\<close>


text \<open>The runtime of the example, with one descriptor for all objects.\<close>

definition bench_vm :: "(usize, unit) vm" where
  "bench_vm = word_vm \<lparr> meta := (meta word_vm) \<lparr> gc_metadata_of := (\<lambda>_. node_metadata (\<lambda>m S. S) (\<lambda>_ _. 0)) \<rparr> \<rparr>"


end
