(* ===== verification/Vmkit_Runtime.thy ===== *)
theory Vmkit_Runtime
  imports Vmkit_Collection Vmkit_Finalization Vmkit_BdwgcSettings
begin

text \<open>
  \<open>lib.rs\<close> and \<open>object_model/metadata.rs\<close>: the state of a runtime and what a runtime gets if it
  overrides nothing; the two kinds of metadata the library brings; and the reference glue of
  \<open>mm/ref_glue.rs\<close>. An unimplemented method panics, which is \<^const>\<open>None\<close>.
\<close>

section \<open>A runtime\<close>

text \<open>\<open>collector_started\<close> is a field of the registry, which the starting threads read.\<close>

record 'b vmkit =
  thread_manager :: "'b registry"
  gc_disabled_depth :: usize

text \<open>
  The signal handler is installed once, by the first runtime; if the C library refuses, the process
  aborts. The argument is the result of \<open>sigaction\<close>.
\<close>

definition initialize_threading :: "i32 \<Rightarrow> bool \<Rightarrow> bool option" where
  "initialize_threading sigaction_result installed =
     (if installed then Some True else if sigaction_result \<noteq> 0 then None else Some True)"

definition vmkit_new :: "i32 \<Rightarrow> bool \<Rightarrow> (thread_ref \<Rightarrow> 'b thread) \<Rightarrow> (bool \<times> 'b vmkit) option" where
  "vmkit_new sigaction_result installed store =
     map_option (\<lambda>installed. (installed, \<lparr> thread_manager = registry_new store, gc_disabled_depth = 0 \<rparr>))
       (initialize_threading sigaction_result installed)"

definition are_collector_threads_spawned :: "'b vmkit \<Rightarrow> bool" where
  "are_collector_threads_spawned v = collector_started (thread_manager v)"

text \<open>\<open>disable_gc\<close>, \<open>enable_gc\<close> and \<open>is_gc_enabled\<close> on the counter of the runtime.\<close>

definition vmkit_disable_gc :: "'b vmkit \<Rightarrow> 'b vmkit" where
  "vmkit_disable_gc v = v \<lparr> gc_disabled_depth := disable_gc (gc_disabled_depth v) \<rparr>"

definition vmkit_enable_gc :: "'b vmkit \<Rightarrow> 'b vmkit" where
  "vmkit_enable_gc v = v \<lparr> gc_disabled_depth := enable_gc (gc_disabled_depth v) \<rparr>"

definition vmkit_is_gc_enabled :: "'b vmkit \<Rightarrow> bool" where
  "vmkit_is_gc_enabled v = is_gc_enabled (gc_disabled_depth v)"

section \<open>What a runtime need not override\<close>

definition default_process_weak_refs :: bool where
  "default_process_weak_refs = False"

definition default_vm_live_bytes :: usize where
  "default_vm_live_bytes = 0"

definition default_out_of_memory :: "'fn oom_action" where
  "default_out_of_memory = ExitProcess 1"

definition default_vm_trace_object :: "address \<Rightarrow> address option" where
  "default_vm_trace_object object = None"

definition default_clear_referent :: "vmkit_object \<Rightarrow> memory \<Rightarrow> memory option" where
  "default_clear_referent new_reference m = None"

definition default_get_referent :: "memory \<Rightarrow> vmkit_object \<Rightarrow> vmkit_object option" where
  "default_get_referent m object = None"

definition default_set_referent :: "vmkit_object \<Rightarrow> vmkit_object \<Rightarrow> memory \<Rightarrow> memory option" where
  "default_set_referent reff referent m = None"

definition default_enqueue_references :: "vmkit_object list \<Rightarrow> memory \<Rightarrow> memory option" where
  "default_enqueue_references references m = None"

definition default_compute_hashcode :: "vmkit_object \<Rightarrow> usize option" where
  "default_compute_hashcode object = None"

section \<open>References that mmtk asks about\<close>

text \<open>The glue passes mmtk's calls on to the runtime, which works with nullable references.\<close>

definition glue_clear_referent :: "(vmkit_object \<Rightarrow> memory \<Rightarrow> memory option) \<Rightarrow> address \<Rightarrow> memory \<Rightarrow> memory option" where
  "glue_clear_referent vm_clear new_reference m = vm_clear new_reference m"

definition glue_enqueue_references ::
  "(vmkit_object list \<Rightarrow> memory \<Rightarrow> memory option) \<Rightarrow> address list \<Rightarrow> memory \<Rightarrow> memory option" where
  "glue_enqueue_references vm_enqueue references m = vm_enqueue references m"

definition glue_get_referent :: "(memory \<Rightarrow> vmkit_object \<Rightarrow> vmkit_object option) \<Rightarrow> memory \<Rightarrow> address \<Rightarrow> address option option" where
  "glue_get_referent vm_get m object = map_option obj_try_into (vm_get m object)"

definition glue_set_referent ::
  "(vmkit_object \<Rightarrow> vmkit_object \<Rightarrow> memory \<Rightarrow> memory option) \<Rightarrow> address \<Rightarrow> address \<Rightarrow> memory \<Rightarrow> memory option" where
  "glue_set_referent vm_set reff referent m = vm_set reff referent m"

section \<open>Metadata\<close>

text \<open>
  \<open>&'static GCMetadata\<close>: the bit field holds the address of the descriptor, which is read back
  through it.
\<close>

definition static_metadata :: "(address \<Rightarrow> 's gc_metadata) \<Rightarrow> (address, 's) metadata_trait" where
  "static_metadata descriptor_at = \<lparr>
     to_bitfield = (\<lambda>p. p), from_bitfield = (\<lambda>v. v), METADATA_BIT_SIZE = 58, gc_metadata_of = descriptor_at,
     is_object = (\<lambda>_. False), to_object_reference = (\<lambda>_. None), from_object_reference = (\<lambda>_. None),
     to_slot = (\<lambda>_. None) \<rparr>"

text \<open>
  \<open>make_uncooperative_metadata\<close>: an object knows its size. The macro asserts when it is expanded that
  the greatest size is not too large.
\<close>

definition uncooperative_metadata :: "usize \<Rightarrow> 's gc_metadata \<Rightarrow> (usize, 's) metadata_trait option" where
  "uncooperative_metadata max_obj_size UNCOOPERATIVE_GC_META =
     (if max_obj_size \<le> MAX_UNCOOPERATIVE_OBJECT_SIZE
      then Some \<lparr> to_bitfield = (\<lambda>wsize. wsize), from_bitfield = (\<lambda>value. value), METADATA_BIT_SIZE = 36,
        gc_metadata_of = (\<lambda>_. UNCOOPERATIVE_GC_META), is_object = (\<lambda>_. False), to_object_reference = (\<lambda>_. None),
        from_object_reference = (\<lambda>_. None), to_slot = (\<lambda>_. None) \<rparr>
      else None)"

section \<open>Properties\<close>

text \<open>
  A descriptor can be stored in a header if its address leaves the bits of the hash state free, as
  the addresses of a process do; then an object's descriptor is the one it was allocated with, and
  its sizes are read from that, whatever its hash state.
\<close>

theorem static_metadata_round_trip:
  assumes "hashing_vm V" and "meta V = static_metadata descriptor_at" and "unat p < 2 ^ 62"
  shows "gc_metadata_of (meta V) (header_metadata V (header_set_hash_state V (header_new V p) st)) = descriptor_at p"
proof -
  have "storable V p" using assms by (simp add: storable_def static_metadata_def)
  then show ?thesis
    using assms(1,2) by (simp add: vm_header.set_hash_state_metadata vm_header.new_metadata) (simp add: static_metadata_def)
qed

text \<open>Without these bits a part of the address is taken for the hash state.\<close>

lemma high_descriptor_is_lost:
  assumes "hashing_vm V" and "meta V = static_metadata descriptor_at" and "2 ^ 62 \<le> unat p"
  shows "header_metadata V (header_new V p) \<noteq> p"
proof -
  have "unat (take_bit 62 p) < 2 ^ 62" unfolding unat_take_bit by simp
  then have "take_bit 62 p \<noteq> p" using assms(3) by auto
  then show ?thesis
    using assms(1,2) by (simp add: header_metadata_def header_new_def bf_decode_eq static_metadata_def)
qed

text \<open>The sizes that the macro admits fit into the header.\<close>

lemma uncooperative_size_storable:
  assumes "hashing_vm V" and "uncooperative_metadata max_obj_size g = Some (meta V)" and "sz \<le> max_obj_size"
  shows "storable V sz"
proof -
  have "unat sz \<le> 2 ^ 36" using assms(2,3)
    by (auto simp: uncooperative_metadata_def MAX_UNCOOPERATIVE_OBJECT_SIZE_def word_le_nat_alt split: if_splits)
  then have s: "unat sz < 2 ^ 62" by simp
  have "to_bitfield (meta V) = (\<lambda>wsize. wsize)" "from_bitfield (meta V) = (\<lambda>value. value)"
    using assms(2) by (auto simp: uncooperative_metadata_def split: if_splits dest!: sym [where t = "meta V"])
  then show ?thesis using assms(1) s by (simp add: storable_def)
qed

text \<open>
  Without overriding them, a runtime that uses references of mmtk, or hash codes without the
  address-based scheme, panics at the first use.
\<close>

lemma default_references_panic:
  "glue_get_referent default_get_referent m r = None" "glue_set_referent default_set_referent r s m = None"
  "glue_clear_referent default_clear_referent r m = None" "default_compute_hashcode obj = None"
  by (simp_all add: glue_get_referent_def default_get_referent_def glue_set_referent_def default_set_referent_def
      glue_clear_referent_def default_clear_referent_def default_compute_hashcode_def)

text \<open>Calls of \<open>disable_gc\<close> nest: collections are enabled again after as many calls of \<open>enable_gc\<close>.\<close>

lemma gc_disabling_nests:
  assumes "vmkit_is_gc_enabled v" and "n < 2 ^ 64"
  shows "vmkit_is_gc_enabled ((vmkit_enable_gc ^^ n) ((vmkit_disable_gc ^^ n) v))"
    and "0 < n \<Longrightarrow> \<not> vmkit_is_gc_enabled ((vmkit_disable_gc ^^ n) v)"
proof -
  have d: "gc_disabled_depth ((vmkit_disable_gc ^^ n) v) = gc_disabled_depth v + word_of_nat n" for n and v :: "'a vmkit"
    by (induction n) (simp_all add: vmkit_disable_gc_def disable_gc_def)
  have e: "gc_disabled_depth ((vmkit_enable_gc ^^ n) v) = gc_disabled_depth v - word_of_nat n" for n and v :: "'a vmkit"
    by (induction n) (simp_all add: vmkit_enable_gc_def enable_gc_def)
  have z: "gc_disabled_depth v = 0" using assms(1) by (simp add: vmkit_is_gc_enabled_def is_gc_enabled_def)
  show "vmkit_is_gc_enabled ((vmkit_enable_gc ^^ n) ((vmkit_disable_gc ^^ n) v))"
    by (simp add: vmkit_is_gc_enabled_def is_gc_enabled_def d e z)
  assume "0 < n"
  then have "unat (word_of_nat n :: usize) \<noteq> 0" using assms(2) by (simp add: unat_word_of_nat)
  then show "\<not> vmkit_is_gc_enabled ((vmkit_disable_gc ^^ n) v)"
    by (auto simp: vmkit_is_gc_enabled_def is_gc_enabled_def d z)
qed

end
