(* ===== verification/Vmkit_ShimThreads.thy ===== *)
theory Vmkit_ShimThreads
  imports Vmkit_Runtime Vmkit_BdwgcApi Vmkit_Roots
begin

text \<open>
  \<open>bdwgc_shim.rs\<close>, fourth part: initialisation and the threads of the C interface. Registering and
  unregistering a thread is the thread manager's work and that of the thread-local variables;
  \<open>GC_pthread_create\<close> starts a thread that stores its handle for the caller, with a barrier between
  the two, modelled as a step relation.
\<close>

section \<open>Registering threads\<close>

text \<open>\<open>register_mutator_manual\<close> with the thread-local variables of the calling thread.\<close>

definition register_with_tls ::
  "'b plan \<Rightarrow> 'b \<Rightarrow> 'b block_adapter list \<Rightarrow> slot \<Rightarrow> address \<Rightarrow> 'b registry \<times> current_threads
     \<Rightarrow> ('b registry blocking \<times> current_threads) option" where
  "register_with_tls P NB Xs me sp = (\<lambda>(S, C).
     map_option (\<lambda>(r, b). (b, init_current_thread me r C)) (register_mutator_manual P NB Xs me sp S))"

text \<open>The block adapters of the shim: \<open>(GCBlockAdapter, ())\<close>.\<close>

definition bdwgc_adapters :: "'b block_adapter list" where
  "bdwgc_adapters = [GCBlockAdapter, UnitBlockAdapter]"

definition GC_register_my_thread ::
  "'b plan \<Rightarrow> 'b \<Rightarrow> slot \<Rightarrow> address \<Rightarrow> 'b registry \<times> current_threads \<Rightarrow> ('b registry blocking \<times> current_threads) option" where
  "GC_register_my_thread P NB me sp W = register_with_tls P NB bdwgc_adapters me sp W"

definition GC_unregister_my_thread :: "slot \<Rightarrow> 'b registry \<times> current_threads \<Rightarrow> ('b registry \<times> current_threads) option" where
  "GC_unregister_my_thread me W = unregister_mutator_manual me W"

definition GC_allow_register_threads :: "'w \<Rightarrow> 'w" where
  "GC_allow_register_threads W = W"

text \<open>\<open>GC_pthread_exit\<close> up to the call of \<open>pthread_exit\<close>, which does not return.\<close>

definition GC_pthread_exit :: "slot \<Rightarrow> 'b registry \<times> current_threads \<Rightarrow> ('b registry \<times> current_threads) option" where
  "GC_pthread_exit me = (\<lambda>(S, C). do {
     thread \<leftarrow> current_thread me C;
     terminate_with_tls me thread (S, C)
   })"

text \<open>What the callback gets as the base of the stack.\<close>

definition GC_call_with_stack_base :: "address \<Rightarrow> stack_bounds option \<Rightarrow> address option" where
  "GC_call_with_stack_base sp internal = do {
     bounds \<leftarrow> current_thread_stack_bounds sp internal;
     sb_origin bounds
   }"

section \<open>Initialisation\<close>

datatype plan_selector = ImmixPlan | MarkSweepPlan | OtherPlan nat

definition builder_plan :: "plan_selector \<Rightarrow> plan_selector" where
  "builder_plan env_plan = (if env_plan = ImmixPlan \<or> env_plan = MarkSweepPlan then env_plan else ImmixPlan)"

record ('b, 's) shim =
  sh_init_done :: bool
  sh_handler :: bool
  sh_fixed_heap :: "usize option"
  sh_vm :: "('b vmkit \<times> 's bdwgc) option"
  sh_current :: current_threads

definition GC_is_init_called :: "('b, 's) shim \<Rightarrow> i32" where
  "GC_is_init_called W = (if sh_init_done W then 1 else 0)"

text \<open>
  \<open>GC_init\<close> does its work once. Half of the memory is the heap if all of it may be used; the
  initialising thread becomes a mutator. The process exits if a virtual machine exists already.
\<close>

definition GC_init ::
  "'b plan \<Rightarrow> 'b \<Rightarrow> slot \<Rightarrow> address \<Rightarrow> i32 \<Rightarrow> usize \<Rightarrow> i32 \<Rightarrow> (thread_ref \<Rightarrow> 'b thread) \<Rightarrow> ('b, 's) shim
     \<Rightarrow> ('b, 's) shim blocking option" where
  "GC_init P NB me sp GC_use_entire_heap total_memory sigaction_result store W =
     (if sh_init_done W then Some (Returned W)
      else do {
        let W = (if GC_use_entire_heap \<noteq> 0 then W \<lparr> sh_fixed_heap := Some (total_memory div 2) \<rparr> else W);
        (handler, vmkit) \<leftarrow> vmkit_new sigaction_result (sh_handler W) store;
        if sh_vm W \<noteq> None then None
        else do {
          (b, C) \<leftarrow> register_with_tls P NB bdwgc_adapters me sp (thread_manager vmkit, sh_current W);
          let finish = (\<lambda>S. W \<lparr> sh_init_done := True, sh_handler := handler,
            sh_vm := Some (vmkit \<lparr> thread_manager := S \<rparr>, bdwgc_new), sh_current := C \<rparr>);
          Some (case b of Returned S \<Rightarrow> Returned (finish S) | Parked s S \<Rightarrow> Parked s (finish S))
        }
      })"

definition GC_deinit :: "'w \<Rightarrow> 'w" where
  "GC_deinit W = W"

section \<open>Creating a thread\<close>

text \<open>The barrier of the standard library: a wait returns when as many threads wait as its size.\<close>

record barrier_state =
  bar_size :: nat
  bar_count :: nat
  bar_generation :: nat

definition barrier_new :: "nat \<Rightarrow> barrier_state" where
  "barrier_new n = \<lparr> bar_size = n, bar_count = 0, bar_generation = 0 \<rparr>"

definition barrier_wait :: "barrier_state \<Rightarrow> nat option \<times> barrier_state" where
  "barrier_wait b =
     (if bar_count b + 1 < bar_size b then (Some (bar_generation b), b \<lparr> bar_count := bar_count b + 1 \<rparr>)
      else (None, b \<lparr> bar_count := 0, bar_generation := bar_generation b + 1 \<rparr>))"

datatype creator_at = Creating | CreatorWaiting nat | CreateReturned i32
datatype child_at = ChildBegin | ChildWaiting nat | ChildPassed | ChildRunning

record creation =
  cr_barrier :: barrier_state
  cr_creator :: creator_at
  cr_child :: child_at
  cr_thread_ptr :: "usize option"

text \<open>The two threads of \<open>GC_pthread_create\<close>; \<^term>\<open>handle\<close> is the new thread's.\<close>

inductive create_step :: "usize \<Rightarrow> creation \<Rightarrow> creation \<Rightarrow> bool" for handle where
  creator_waits: "cr_creator W = Creating \<Longrightarrow> barrier_wait (cr_barrier W) = (g, b) \<Longrightarrow>
    create_step handle W (W \<lparr> cr_barrier := b, cr_creator := (case g of None \<Rightarrow> CreateReturned 0 | Some g \<Rightarrow> CreatorWaiting g) \<rparr>)"
| creator_wakes: "cr_creator W = CreatorWaiting g \<Longrightarrow> bar_generation (cr_barrier W) \<noteq> g \<Longrightarrow>
    create_step handle W (W \<lparr> cr_creator := CreateReturned 0 \<rparr>)"
| child_waits: "cr_child W = ChildBegin \<Longrightarrow> barrier_wait (cr_barrier W) = (g, b) \<Longrightarrow>
    create_step handle W (W \<lparr> cr_barrier := b, cr_child := (case g of None \<Rightarrow> ChildPassed | Some g \<Rightarrow> ChildWaiting g) \<rparr>)"
| child_wakes: "cr_child W = ChildWaiting g \<Longrightarrow> bar_generation (cr_barrier W) \<noteq> g \<Longrightarrow>
    create_step handle W (W \<lparr> cr_child := ChildPassed \<rparr>)"
| child_stores: "cr_child W = ChildPassed \<Longrightarrow>
    create_step handle W (W \<lparr> cr_thread_ptr := Some handle, cr_child := ChildRunning \<rparr>)"

definition GC_pthread_create :: "nat \<Rightarrow> creation" where
  "GC_pthread_create barrier_size =
     \<lparr> cr_barrier = barrier_new barrier_size, cr_creator = Creating, cr_child = ChildBegin, cr_thread_ptr = None \<rparr>"

section \<open>Properties\<close>

text \<open>\<open>GC_init\<close> is idempotent: a second call changes nothing, whatever it is given.\<close>

lemma init_once:
  assumes "GC_init P NB me sp e mem res store W = Some (Returned W')"
  shows "GC_init P' NB' me' sp' e' mem' res' store' W' = Some (Returned W') \<and> GC_is_init_called W' = 1"
  using assms
  by (auto simp: GC_init_def GC_is_init_called_def Let_def split: if_splits Option.bind_splits blocking.splits)

text \<open>
  Registering the same native thread twice leaves the first of its threads in the table: the
  thread-local variable forgets it, while the reference it owned is never released.
\<close>

lemma register_overwrites_current:
  assumes "register_with_tls P NB Xs me sp (S, C) = Some (b, C')" and "current_thread me C = Some r0"
    and "reg_next S \<noteq> r0"
  shows "current_thread me C' = Some (reg_next S) \<and> owned_references C' r0 = owned_references C r0"
  using assms
  by (auto simp: register_with_tls_def register_mutator_manual_def create_mutator_def init_current_thread_def
      current_thread_def split: Option.bind_splits)

text \<open>
  \<open>GC_pthread_create\<close> returns before the new thread has stored its handle: with the barrier of size 1
  nobody waits, and the caller reads an uninitialised handle. A barrier of size 2 would not help,
  because the handle is stored behind it.
\<close>

lemma creator_first:
  "(create_step h)\<^sup>*\<^sup>* (GC_pthread_create 1)
     ((GC_pthread_create 1) \<lparr> cr_barrier := \<lparr> bar_size = 1, bar_count = 0, bar_generation = 1 \<rparr>, cr_creator := CreateReturned 0 \<rparr>)"
proof -
  have "create_step h (GC_pthread_create 1) ((GC_pthread_create 1)
      \<lparr> cr_barrier := \<lparr> bar_size = 1, bar_count = 0, bar_generation = 1 \<rparr>,
        cr_creator := (case None of None \<Rightarrow> CreateReturned 0 | Some g \<Rightarrow> CreatorWaiting g) \<rparr>)"
    by (rule create_step.creator_waits) (simp_all add: GC_pthread_create_def barrier_new_def barrier_wait_def)
  then show ?thesis by simp
qed

theorem create_returns_before_handle:
  "(\<exists>W. (create_step h)\<^sup>*\<^sup>* (GC_pthread_create 1) W \<and> cr_creator W = CreateReturned 0 \<and> cr_thread_ptr W = None) \<and>
   (\<exists>W. (create_step h)\<^sup>*\<^sup>* (GC_pthread_create 2) W \<and> cr_creator W = CreateReturned 0 \<and> cr_thread_ptr W = None)"
proof
  show "\<exists>W. (create_step h)\<^sup>*\<^sup>* (GC_pthread_create 1) W \<and> cr_creator W = CreateReturned 0 \<and> cr_thread_ptr W = None"
    using creator_first by (intro exI conjI) (assumption | simp add: GC_pthread_create_def)+
  let ?W0 = "GC_pthread_create 2"
  let ?W1 = "?W0 \<lparr> cr_barrier := \<lparr> bar_size = 2, bar_count = 1, bar_generation = 0 \<rparr>,
    cr_child := (case Some 0 of None \<Rightarrow> ChildPassed | Some g \<Rightarrow> ChildWaiting g) \<rparr>"
  let ?W2 = "?W1 \<lparr> cr_barrier := \<lparr> bar_size = 2, bar_count = 0, bar_generation = 1 \<rparr>,
    cr_creator := (case None of None \<Rightarrow> CreateReturned 0 | Some g \<Rightarrow> CreatorWaiting g) \<rparr>"
  have s1: "create_step h ?W0 ?W1"
    by (rule create_step.child_waits) (simp_all add: GC_pthread_create_def barrier_new_def barrier_wait_def)
  have s2: "create_step h ?W1 ?W2"
    by (rule create_step.creator_waits) (simp_all add: GC_pthread_create_def barrier_wait_def)
  have "(create_step h)\<^sup>*\<^sup>* ?W0 ?W2" using s1 s2 rtranclp.rtrancl_into_rtrancl [of "create_step h" ?W0 ?W1 ?W2] by blast
  then show "\<exists>W. (create_step h)\<^sup>*\<^sup>* (GC_pthread_create 2) W \<and> cr_creator W = CreateReturned 0 \<and> cr_thread_ptr W = None"
    by (intro exI conjI) (assumption | simp add: GC_pthread_create_def)+
qed

text \<open>The new thread only runs the given routine once its handle is stored.\<close>

lemma child_runs_with_handle:
  assumes "(create_step h)\<^sup>*\<^sup>* (GC_pthread_create n) W"
  shows "(cr_child W = ChildRunning) = (cr_thread_ptr W = Some h)"
  using assms
proof (induction rule: rtranclp_induct)
  case base
  then show ?case by (simp add: GC_pthread_create_def)
next
  case (step W W')
  have "cr_thread_ptr W = None \<or> cr_thread_ptr W = Some h \<and> cr_child W = ChildRunning"
    using step(1) by (induction rule: rtranclp_induct) (auto simp: GC_pthread_create_def elim!: create_step.cases)
  then show ?case using step(2,3) by (auto elim!: create_step.cases split: option.splits)
qed

end
