(* ===== verification/Vmkit_StoppedRoots.thy ===== *)
theory Vmkit_StoppedRoots
  imports Vmkit_StopWorld Vmkit_Scanning
begin

text \<open>
  What the two sides of a pause make together: the mutator saves its stack pointer where it
  stops (\<open>threading.rs\<close>), and the collector scans the stack from there (\<open>mm/scanning.rs\<close>). The
  pointer stays the same until the mutator is unblocked, so every reference on the stack of a
  stopped mutator is found, whenever in the pause its stack is scanned.
\<close>

section \<open>The saved stack pointer\<close>

definition sp_saved :: "'b world \<Rightarrow> bool" where
  "sp_saved W \<longleftrightarrow> mutator_at W = Running \<or> mutator_at W = Dying \<or> stack_pointer (thr W) \<noteq> 0"

lemma stack_pointer_simps [simp]:
  "stack_pointer (parked_thread me t) = stack_pointer t"
  "stack_pointer (resumed_thread t) = stack_pointer t"
  "stack_pointer (requested_thread t) = stack_pointer t"
  by (simp_all add: parked_thread_def resumed_thread_def requested_thread_def)

text \<open>What a pass of \<open>check_block\<close> leaves: a parked mutator has a saved stack pointer.\<close>

fun result_thread :: "'b thread blocking \<Rightarrow> 'b thread" where
  "result_thread (Returned t) = t"
| "result_thread (Parked s t) = t"

definition parks_saved :: "'b thread blocking \<Rightarrow> bool" where
  "parks_saved r \<longleftrightarrow> (case r of Parked s t \<Rightarrow> stack_pointer t \<noteq> 0 | Returned t \<Rightarrow> True)"

lemma parks_saved_simps [simp]:
  "parks_saved (Returned t)" "parks_saved (Parked s t) \<longleftrightarrow> stack_pointer t \<noteq> 0"
  "parks_saved (if b then r else r') \<longleftrightarrow> (if b then parks_saved r else parks_saved r')"
  by (simp_all add: parks_saved_def)

lemma after_check_saved: "parks_saved r \<Longrightarrow> sp_saved (after_check c r W)"
  by (cases r) (simp_all add: sp_saved_def)

lemma wake_keeps_pointer:
  assumes "gc_list Xs" and "mon_free (monitor t)" and "state_at (ParkedIn c s) t me"
    and "(case c of AtYieldpoint \<Rightarrow> yieldpoint_wake Xs me s t | AtLeaveNative \<Rightarrow> check_block_wake Xs me s t
          | AtSelfBlock \<Rightarrow> block_self_wake Xs me s t) = Some r"
  shows "stack_pointer (result_thread r) = stack_pointer t"
proof -
  have b: "is_blocking t" and s: "s = (if c = AtLeaveNative then 1 else 2, me)"
    using assms(3) by (simp_all add: state_at_def)
  show ?thesis
    using assms(4) s
    by (cases c)
      (auto simp: yieldpoint_wake_free [OF assms(1,2) b] check_block_wake_free [OF assms(1,2) b]
         block_self_wake_free [OF assms(1,2) b] thread_unlock_def split: if_splits)
qed

lemma parks_saved_result: "stack_pointer (result_thread r) \<noteq> 0 \<Longrightarrow> parks_saved r"
  by (cases r) simp_all

text \<open>While the mutator does not run, no step changes its stack pointer.\<close>

lemma stopped_step_pointer:
  assumes "gc_list Xs" and "me \<noteq> 0" and "gc \<noteq> 0"
    and "world_step Xs me gc W W'" and "world_inv me gc W"
    and "mutator_at W \<noteq> Running"
  shows "stack_pointer (thr W') = stack_pointer (thr W)"
proof -
  have f: "mon_free (monitor (thr W))" and st: "state_at (mutator_at W) (thr W) me"
    using assms(5) by (simp_all add: world_inv_def)
  have chk: "stack_pointer (thr (after_check c r W)) = stack_pointer (result_thread r)" for c r
    by (cases r) simp_all
  note wake = wake_keeps_pointer [OF assms(1) f]
  from assms(4) show ?thesis
  proof cases
    case (yield_wake s r)
    with st show ?thesis using wake [of AtYieldpoint s me r] by (simp only: chk) simp
  next
    case (self_wake s r)
    with st show ?thesis using wake [of AtSelfBlock s me r] by (simp only: chk) simp
  next
    case (leave_wake s r)
    with st show ?thesis using wake [of AtLeaveNative s me r] by (simp only: chk) simp
  next
    case (enter_slow t)
    then show ?thesis by (auto simp: enter_native_blocked_free [OF assms(1) f assms(2)])
  next
    case (leave_fast t)
    then show ?thesis
      by (auto simp: attempt_leave_native_no_block_def attempt_fast_exec_status_transition_def split: if_splits)
  next
    case (leave_load t)
    then show ?thesis
      by (auto simp: attempt_leave_native_no_block_def attempt_fast_exec_status_transition_def split: if_splits)
  next
    case (leave_slow r)
    then show ?thesis
      by (auto simp: leave_native_blocked_def check_block_free [OF assms(1) f assms(2)])
  next
    case (gc_block asynchronous r)
    then show ?thesis by (auto simp: block_unchecked_free [OF f assms(3)])
  next
    case (gc_wake s r)
    then have "s = (1, gc)" using assms(5) by (simp add: world_inv_def)
    then show ?thesis using gc_wake by (auto simp: block_wake_free [OF f] split: if_splits)
  next
    case (gc_unblock t)
    then show ?thesis by (auto simp: unblock_free [OF f assms(3)])
  qed (use assms(6) in simp_all)
qed

lemma after_block_mutator [simp]: "mutator_at (after_block asynchronous r W) = mutator_at W"
  by (cases "(asynchronous, r, W)" rule: after_block.cases) simp_all

lemma world_step_saved:
  assumes "gc_list Xs" and "me \<noteq> 0" and "gc \<noteq> 0"
    and "world_step Xs me gc W W'" and "world_inv me gc W" and "sp_saved W"
  shows "sp_saved W'"
proof (cases "mutator_at W = Running")
  case False
  have p: "stack_pointer (thr W') = stack_pointer (thr W)"
    using stopped_step_pointer [OF assms(1-5) False] .
  have "mutator_at W = Dying \<Longrightarrow> mutator_at W' = Dying"
    using assms(4) by cases auto
  then show ?thesis using assms(6) False p by (auto simp: sp_saved_def)
next
  case True
  have f: "mon_free (monitor (thr W))" using assms(5) by (simp add: world_inv_def)
  from assms(4) show ?thesis
  proof cases
    case (yield sp r)
    then show ?thesis
      using yieldpoint_free [OF assms(1) f assms(2), of sp] by (auto intro!: after_check_saved)
  next
    case (self_block sp r)
    then show ?thesis
      using block_self_free [OF assms(1) f assms(2), of sp] by (auto intro!: after_check_saved)
  next
    case (enter_fast sp t)
    then show ?thesis
      by (auto simp: sp_saved_def enter_native_def attempt_fast_exec_status_transition_def Let_def)
  next
    case (gc_block asynchronous r)
    then have "mutator_at W' = Running" using True by simp
    then show ?thesis by (simp add: sp_saved_def)
  next
    case (gc_wake s r)
    then have "mutator_at W' = Running" using True by simp
    then show ?thesis by (simp add: sp_saved_def)
  qed (use True in \<open>simp_all add: sp_saved_def\<close>)
qed

lemma world_reachable_saved:
  assumes "gc_list Xs" and "me \<noteq> 0" and "gc \<noteq> 0" and "world_reachable Xs me gc W"
  shows "sp_saved W"
  using assms(4)
proof (induction rule: world_reachable.induct)
  case (initial t)
  then show ?case by (simp add: sp_saved_def)
next
  case (step W W')
  then show ?case using world_step_saved [OF assms(1-3)] world_reachable_inv [OF assms(1-3)] by blast
qed

section \<open>A pause\<close>

text \<open>
  The steps of a pause of one mutator: from the return of a synchronous block of it until it is
  unblocked.
\<close>

definition pause_step :: "'b block_adapter list \<Rightarrow> slot \<Rightarrow> slot \<Rightarrow> 'b world \<Rightarrow> 'b world \<Rightarrow> bool" where
  "pause_step Xs me gc W W' \<longleftrightarrow> world_step Xs me gc W W' \<and> gc_stopped W'"

lemma stopped_not_running:
  assumes "world_inv me gc W" and "gc_stopped W" and "mutator_at W \<noteq> Dying"
  shows "mutator_at W \<noteq> Running \<and> mutator_at W \<noteq> EnteringNative"
  using assms by (auto simp: world_inv_def state_at_def)

lemma stopped_step_alive:
  assumes "world_step Xs me gc W W'" and "mutator_at W \<noteq> Running" and "mutator_at W \<noteq> Dying"
  shows "mutator_at W' \<noteq> Dying"
proof -
  have "mutator_at (after_check c r W) \<noteq> Dying" for c r by (cases r) simp_all
  from assms(1) show ?thesis
    by cases (use assms(2,3) \<open>\<And>r c. mutator_at (after_check c r W) \<noteq> Dying\<close> in simp_all)
qed

lemma pause_keeps_pointer:
  assumes "gc_list Xs" and "me \<noteq> 0" and "gc \<noteq> 0" and "world_reachable Xs me gc W"
    and "gc_stopped W" and "mutator_at W \<noteq> Dying" and "(pause_step Xs me gc)\<^sup>*\<^sup>* W W'"
  shows "world_reachable Xs me gc W' \<and> gc_stopped W' \<and> mutator_at W' \<noteq> Dying \<and>
    stack_pointer (thr W') = stack_pointer (thr W)"
  using assms(7)
proof (induction rule: rtranclp_induct)
  case base
  then show ?case using assms(4-6) by simp
next
  case (step V U)
  then have s: "world_step Xs me gc V U" and V: "world_reachable Xs me gc V" "gc_stopped V" "mutator_at V \<noteq> Dying"
    by (simp_all add: pause_step_def)
  have i: "world_inv me gc V" using assms(1-3) V(1) by (rule world_reachable_inv)
  have r: "mutator_at V \<noteq> Running" using stopped_not_running [OF i V(2,3)] by simp
  have "stack_pointer (thr U) = stack_pointer (thr V)"
    using stopped_step_pointer [OF assms(1-3) s i r] .
  moreover have "mutator_at U \<noteq> Dying" using stopped_step_alive [OF s r V(3)] .
  moreover have "world_reachable Xs me gc U" using V(1) s by (rule world_reachable.step)
  ultimately show ?case using step by (simp add: pause_step_def)
qed

lemma pause_pointer_saved:
  assumes "gc_list Xs" and "me \<noteq> 0" and "gc \<noteq> 0" and "world_reachable Xs me gc W"
    and "gc_stopped W" and "mutator_at W \<noteq> Dying"
  shows "stack_pointer (thr W) \<noteq> 0"
  using world_reachable_saved [OF assms(1-4)] world_reachable_inv [OF assms(1-4)] assms(5,6)
  by (auto simp: sp_saved_def dest: stopped_not_running)

text \<open>A concrete pause: the example's mutator stops at a yieldpoint, and is asked to stop once more.\<close>

lemma example_pause:
  "\<exists>W W'. world_reachable [GCBlockAdapter, UnitBlockAdapter] 1 2 (W :: unit world) \<and> gc_stopped W \<and>
     mutator_at W \<noteq> Dying \<and> stack_pointer (thr W) = 8000 \<and>
     (pause_step [GCBlockAdapter, UnitBlockAdapter] 1 2)\<^sup>*\<^sup>* W W' \<and> W' \<noteq> W"
proof -
  let ?Xs = "[GCBlockAdapter, UnitBlockAdapter] :: unit block_adapter list"
  let ?i = "example_world"
  define t where "t = parked_thread 1 ((thr ?i) \<lparr> at_yieldpoint := True, take_yieldpoint := 0, stack_pointer := 8000 \<rparr>)"
  define W1 where "W1 = after_check AtYieldpoint (Parked (2, 1) t) ?i"
  define W2 where "W2 = after_block False (Returned (exec_status t, t \<lparr> monitor := freed (cvar (monitor t)) \<rparr>)) W1"
  have i: "mon_free (monitor (thr ?i))" "should_block_for_gc (thr ?i)" "\<not> is_about_to_terminate (thr ?i)"
      "gc_at ?i = GcWaiting (1, 2)"
    by (simp_all add: example_world_def requested_thread_def example_defs)
  have t: "mon_free (monitor t)" "cvar (monitor t) = [1]" "is_blocked_for_gc t" "is_blocking t"
      "\<not> is_about_to_terminate t" "stack_pointer t = 8000"
    using i by (simp_all add: t_def) (simp add: parked_thread_def)
  have "yieldpoint ?Xs 1 8000 (thr ?i) = Some (Parked (2, 1) t)"
    using i example_running by (simp add: yieldpoint_free [OF example_gc_list i(1)] t_def wants_block_def)
  then have s1: "world_step ?Xs 1 2 ?i W1"
    unfolding W1_def using example_running by (intro world_step.yield) auto
  have w1: "gc_at W1 = GcWaiting (1, 2)" "thr W1 = t" "mutator_at W1 = ParkedIn AtYieldpoint (2, 1)"
    using i(4) by (simp_all add: W1_def)
  have s2: "world_step ?Xs 1 2 W1 W2"
    unfolding W2_def using w1 t by (intro world_step.gc_wake) (auto simp: block_wake_free)
  have w2: "gc_stopped W2" "mutator_at W2 = ParkedIn AtYieldpoint (2, 1)" "stack_pointer (thr W2) = 8000"
      "gc_at W2 = GcIdle" "mon_free (monitor (thr W2))" "take_yieldpoint (thr W2) = 0"
      "\<not> is_about_to_terminate (thr W2)"
    using w1 t i(2) by (simp_all add: W2_def t_def) (simp add: parked_thread_def)
  obtain r where r: "block_unchecked GCBlockAdapter 2 True (thr W2) = Some r"
    using block_unchecked_free [OF w2(5), of 2 True] by auto
  define W3 where "W3 = after_block True r W2"
  have "world_step ?Xs 1 2 W2 W3" unfolding W3_def using w2(4) r by (rule world_step.gc_block)
  moreover have "gc_stopped W3" using w2(1) by (cases "(True, r, W2)" rule: after_block.cases) (simp_all add: W3_def)
  moreover have "W3 \<noteq> W2"
  proof -
    have "take_yieldpoint (thr W3) = 1"
      using r w2(7) t by (auto simp: W3_def block_unchecked_free [OF w2(5)] requested_thread_def)
    then show ?thesis using w2(6) by auto
  qed
  moreover have "world_reachable ?Xs 1 2 W2"
    using world_reachable.step [OF world_reachable.step [OF example_reachable s1] s2] .
  ultimately show ?thesis
    using w2 by (intro exI [of _ W2] exI [of _ W3]) (auto simp: pause_step_def)
qed

section \<open>Properties\<close>


text \<open>
  For the witness: the context of the shim's threads and of the example, which does nothing, a
  factory that keeps its packets in a list, and a heap of objects of 256 bytes.
\<close>

definition keep_packets :: "vmkit_object set list roots_work_factory" where
  "keep_packets = \<lparr> create_process_pinning_roots_work = (\<lambda>S w. w @ [S]) \<rparr>"

definition silent_context :: "'f thread_context" where
  "silent_context = \<lparr> ctx_scan_roots = (\<lambda>w. w), ctx_scan_conservative_roots = (\<lambda>R. R) \<rparr>"

definition page_heap :: heap_view where
  "page_heap = \<lparr> starting_heap_address = 65536, last_heap_address = 131072,
     find_object_from_internal_pointer = (\<lambda>p lim. Some (p AND NOT 0xff)) \<rparr>"


end
