(* ===== verification/Vmkit_Values.thy ===== *)
theory Vmkit_Values
  imports Vmkit_Fields Vmkit_Bdwgc
begin

text \<open>
  Equality, ordering and hashing of the pointer types (\<open>object_model/object.rs\<close>,
  \<open>mm/conservative_roots.rs\<close>): a \<open>GcPtr\<close> compares and hashes the values pointed to, a memory
  slice its two addresses, a fat internal pointer its parts, with the hash code of the object
  instead of its address; and what a narrow reference passes on to the reference it decodes to.
\<close>

section \<open>Narrow references\<close>

definition narrow_header :: "compressed_ops \<Rightarrow> memory \<Rightarrow> narrow \<Rightarrow> header option" where
  "narrow_header c m n = obj_header m (narrow_to_object c n)"

definition narrow_hashcode ::
  "compressed_ops \<Rightarrow> ('m, 's) vm \<Rightarrow> (vmkit_object \<Rightarrow> usize) \<Rightarrow> memory \<Rightarrow> narrow \<Rightarrow> (usize \<times> memory) option" where
  "narrow_hashcode c V compute m n = obj_hashcode V compute m (narrow_to_object c n)"

definition narrow_object_start ::
  "compressed_ops \<Rightarrow> ('m, 's) vm \<Rightarrow> memory \<Rightarrow> narrow \<Rightarrow> address option" where
  "narrow_object_start c V m n = object_start V m (narrow_to_object c n)"

section \<open>Pointers\<close>

text \<open>
  A pointer's value is what the memory holds at its address, read by \<^term>\<open>val\<close>; the value's own
  comparison and hash function are parameters, as the type's traits are.
\<close>

datatype ordering = Less | Equal | Greater

definition gcptr_from_ptr :: "address \<Rightarrow> address option" where
  "gcptr_from_ptr p = (if p \<noteq> 0 then Some p else None)"

definition gcptr_deref :: "(memory \<Rightarrow> address \<Rightarrow> 'a) \<Rightarrow> memory \<Rightarrow> address \<Rightarrow> 'a" where
  "gcptr_deref val m p = val m p"

definition gcptr_eq :: "(memory \<Rightarrow> address \<Rightarrow> 'a) \<Rightarrow> ('a \<Rightarrow> 'a \<Rightarrow> bool) \<Rightarrow> memory \<Rightarrow> address \<Rightarrow> address \<Rightarrow> bool" where
  "gcptr_eq val eq m p q = eq (gcptr_deref val m p) (gcptr_deref val m q)"

definition gcptr_partial_cmp ::
  "(memory \<Rightarrow> address \<Rightarrow> 'a) \<Rightarrow> ('a \<Rightarrow> 'a \<Rightarrow> ordering option) \<Rightarrow> memory \<Rightarrow> address \<Rightarrow> address \<Rightarrow> ordering option" where
  "gcptr_partial_cmp val pcmp m p q = pcmp (gcptr_deref val m p) (gcptr_deref val m q)"

definition gcptr_cmp ::
  "(memory \<Rightarrow> address \<Rightarrow> 'a) \<Rightarrow> ('a \<Rightarrow> 'a \<Rightarrow> ordering) \<Rightarrow> memory \<Rightarrow> address \<Rightarrow> address \<Rightarrow> ordering" where
  "gcptr_cmp val cmp m p q = cmp (gcptr_deref val m p) (gcptr_deref val m q)"

definition gcptr_hash :: "(memory \<Rightarrow> address \<Rightarrow> 'a) \<Rightarrow> ('a \<Rightarrow> 'h \<Rightarrow> 'h) \<Rightarrow> memory \<Rightarrow> address \<Rightarrow> 'h \<Rightarrow> 'h" where
  "gcptr_hash val hash m p h = hash (gcptr_deref val m p) h"

section \<open>Slices and fat pointers\<close>

text \<open>A hasher is a state that takes words, \<^term>\<open>put\<close>.\<close>

definition slice_from :: "address \<times> address \<Rightarrow> memory_slice" where
  "slice_from r = \<lparr> slice_start = fst r, slice_end = snd r \<rparr>"

definition slice_eq :: "memory_slice \<Rightarrow> memory_slice \<Rightarrow> bool" where
  "slice_eq s t \<longleftrightarrow> slice_start s = slice_start t \<and> slice_end s = slice_end t"

definition slice_hash :: "(usize \<Rightarrow> 'h \<Rightarrow> 'h) \<Rightarrow> memory_slice \<Rightarrow> 'h \<Rightarrow> 'h" where
  "slice_hash put s h = put (slice_end s) (put (slice_start s) h)"

definition slice_object :: "memory_slice \<Rightarrow> address option" where
  "slice_object s = None"

definition slice_range_iterator :: "memory_slice \<Rightarrow> slice_iterator" where
  "slice_range_iterator s =
     (let start = slice_start s; end_at = slice_end s in \<lparr> iter_cursor = start, iter_end = end_at \<rparr>)"

definition fat_hash ::
  "('m, 's) vm \<Rightarrow> (vmkit_object \<Rightarrow> usize) \<Rightarrow> (usize \<Rightarrow> 'h \<Rightarrow> 'h) \<Rightarrow> memory \<Rightarrow> fat_internal_pointer \<Rightarrow> 'h
     \<Rightarrow> ('h \<times> memory) option" where
  "fat_hash V compute put m p h = do {
     let h = put (fip_offset p) h;
     (hc, m) \<leftarrow> obj_hashcode V compute m (fip_object p);
     Some (put hc h, m)
   }"

section \<open>Laws\<close>

text \<open>
  The contract of Rust's \<open>Hash\<close> and \<open>Ord\<close>: equal keys have equal hashes, and the order agrees
  with the equality. A type that promises it for its values gets it for pointers to them.
\<close>

locale key_type =
  fixes eq :: "'a \<Rightarrow> 'a \<Rightarrow> bool"
    and cmp :: "'a \<Rightarrow> 'a \<Rightarrow> ordering"
    and hash :: "'a \<Rightarrow> 'h \<Rightarrow> 'h"
  assumes hash_eq: "eq x y \<Longrightarrow> hash x h = hash y h"
    and cmp_eq: "cmp x y = Equal \<longleftrightarrow> eq x y"
    and cmp_swap: "cmp x y = Less \<longleftrightarrow> cmp y x = Greater"
begin

lemma pointers_are_keys:
  "key_type (gcptr_eq val eq m) (gcptr_cmp val cmp m) (gcptr_hash val hash m)"
  by unfold_locales (auto simp: gcptr_eq_def gcptr_cmp_def gcptr_hash_def hash_eq cmp_eq cmp_swap)

text \<open>Moving what two pointers point to changes neither their order nor their hashes.\<close>

lemma keys_survive_move:
  assumes "val m' p' = val m p" and "val m' q' = val m q"
  shows "gcptr_cmp val cmp m' p' q' = gcptr_cmp val cmp m p q"
    and "gcptr_hash val hash m' p' h = gcptr_hash val hash m p h"
  using assms by (simp_all add: gcptr_cmp_def gcptr_hash_def gcptr_deref_def)

end

section \<open>Derived orders\<close>

text \<open>
  \<open>derive(PartialOrd, Ord)\<close> orders the variants of an enum as they are declared, and the same
  variant by its fields; on integers the order is the numerical one.
\<close>

definition derived_cmp :: "'a::linorder \<Rightarrow> 'a \<Rightarrow> ordering" where
  "derived_cmp x y = (if x < y then Less else if x = y then Equal else Greater)"

instantiation alloc_fast_path :: linorder
begin

fun variant_of_path :: "alloc_fast_path \<Rightarrow> nat" where
  "variant_of_path TLABPath = 0"
| "variant_of_path FreeListPath = 1"
| "variant_of_path NonePath = 2"

definition less_eq_alloc_fast_path :: "alloc_fast_path \<Rightarrow> alloc_fast_path \<Rightarrow> bool" where
  "x \<le> y \<longleftrightarrow> variant_of_path x \<le> variant_of_path y"

definition less_alloc_fast_path :: "alloc_fast_path \<Rightarrow> alloc_fast_path \<Rightarrow> bool" where
  "x < y \<longleftrightarrow> variant_of_path x < variant_of_path y"

instance
proof
  fix x y :: alloc_fast_path
  assume "x \<le> y" and "y \<le> x"
  then show "x = y" by (cases x; cases y) (simp_all add: less_eq_alloc_fast_path_def)
qed (auto simp: less_eq_alloc_fast_path_def less_alloc_fast_path_def)

end

instantiation object_kind :: linorder
begin

fun less_eq_object_kind :: "object_kind \<Rightarrow> object_kind \<Rightarrow> bool" where
  "less_eq_object_kind Composite y \<longleftrightarrow> True"
| "less_eq_object_kind (WithDescr j) Composite \<longleftrightarrow> False"
| "less_eq_object_kind (WithDescr j) (WithDescr k) \<longleftrightarrow> j \<le> k"

definition less_object_kind :: "object_kind \<Rightarrow> object_kind \<Rightarrow> bool" where
  "less_object_kind x y \<longleftrightarrow> x \<le> y \<and> \<not> y \<le> x"

instance
proof
  fix x y z :: object_kind
  show "x \<le> x" by (cases x) simp_all
  show "x \<le> y \<Longrightarrow> y \<le> z \<Longrightarrow> x \<le> z" by (cases x; cases y; cases z) auto
  show "x \<le> y \<Longrightarrow> y \<le> x \<Longrightarrow> x = y" by (cases x; cases y) auto
  show "x \<le> y \<or> y \<le> x" by (cases x; cases y) auto
qed (rule less_object_kind_def)

end

text \<open>The order of the kinds is that of their codes in the header.\<close>

lemma object_kind_order: "x \<le> y \<longleftrightarrow> object_kind_to_bitfield x \<le> object_kind_to_bitfield y"
proof -
  have u: "unat (2 + ucast k :: usize) = 2 + unat k" for k :: u8
  proof -
    have "unat (ucast k :: usize) = unat k"
      using unsigned_less [of k, where ?'a = nat] by (simp add: unsigned_ucast_eq take_bit_nat_eq_self)
    then show ?thesis using unsigned_less [of k, where ?'a = nat] by (subst unat_add_no_overflow) simp_all
  qed
  then show ?thesis by (cases x; cases y) (simp_all add: word_le_nat_alt)
qed

text \<open>Any type with a derived order whose values are hashed by what they are is a key type.\<close>

interpretation derived_key: key_type "(=)" derived_cmp hash
  for hash :: "'a::linorder \<Rightarrow> 'h \<Rightarrow> 'h"
  by unfold_locales (auto simp: derived_cmp_def)

interpretation word_pointer_key:
  key_type "gcptr_eq load64 (=) m" "gcptr_cmp load64 derived_cmp m" "gcptr_hash load64 hash m"
  for m and hash :: "usize \<Rightarrow> 'h \<Rightarrow> 'h"
  by (rule derived_key.pointers_are_keys)

section \<open>Slices and fat pointers as keys\<close>

lemma slice_key:
  "slice_eq s t \<Longrightarrow> slice_hash put s h = slice_hash put t h"
  "slice_eq s t \<Longrightarrow> slice_collect (iter_slots s) = slice_collect (slice_range_iterator t)"
  by (simp_all add: slice_eq_def slice_hash_def iter_slots_def slice_range_iterator_def)

text \<open>
  Equal fat pointers have equal hashes. Asking for a hash may set the object's hash state, after
  which the hash is the same: a second request does not change it.
\<close>

lemma fat_hash_eq: "fat_eq p q \<Longrightarrow> fat_hash V compute put m p h = fat_hash V compute put m q h"
  by (simp add: fat_eq_def fat_hash_def)

lemma hashcode_again:
  assumes "hashing_vm V" and "obj_hashcode V f m obj = Some (hc, m')"
  shows "\<exists>m''. obj_hashcode V f m' obj = Some (hc, m'')"
proof -
  obtain h st where h: "obj_header m obj = Some h" "header_hash_state V h = Some st"
    using assms by (auto simp: obj_hashcode_def split: option.splits bind_splits)
  show ?thesis
  proof (cases "st = HashedAndMoved")
    case True
    then show ?thesis using assms h by (auto simp: obj_hashcode_def)
  next
    case False
    then have m': "m' = obj_store_header m obj (header_set_hash_state V h Hashed)"
        and hc: "hc = drop_bit 3 obj"
      using assms h by (auto simp: obj_hashcode_def)
    have "obj \<noteq> 0" using h(1) by (simp add: obj_header_Some_iff)
    then have "obj_header m' obj = Some (header_set_hash_state V h Hashed)" by (simp add: m')
    moreover have "header_hash_state V (header_set_hash_state V h Hashed) = Some Hashed"
      using assms(1) by (rule vm_header.set_get_hash_state)
    ultimately show ?thesis using assms(1) hc by (simp add: obj_hashcode_def)
  qed
qed

lemma fat_hash_again:
  assumes "hashing_vm V" and "fat_hash V compute put m p h = Some (x, m')"
  shows "\<exists>m''. fat_hash V compute put m' p h = Some (x, m'')"
proof -
  obtain hc where "obj_hashcode V compute m (fip_object p) = Some (hc, m')" "x = put hc (put (fip_offset p) h)"
    using assms(2) by (auto simp: fat_hash_def split: bind_splits)
  then show ?thesis using hashcode_again [OF assms(1)] by (fastforce simp: fat_hash_def)
qed

end
