(* ===== verification/Vmkit_MetadataSpec.thy ===== *)
theory Vmkit_MetadataSpec
  imports Vmkit_Prelude
begin

text \<open>
  \<open>mm/spec.rs\<close> and the metadata specifications of \<open>object_model.rs\<close>: where the bits lie that mmtk
  keeps for every object, in the header or in tables on the side. The macro of \<open>mm/spec.rs\<close> is a
  copy of the one by which mmtk declares the types of the specifications, so the types used in
  \<open>object_model.rs\<close> are instances of it.
\<close>

section \<open>Specifications\<close>

record header_spec =
  bit_offset :: int
  num_of_bits :: usize

record side_spec =
  ss_name :: string
  ss_is_global :: bool
  ss_offset :: usize
  ss_log_num_of_bits :: nat
  ss_log_bytes_in_region :: usize

datatype metadata_spec = InHeader header_spec | OnSide side_spec

definition is_on_side :: "metadata_spec \<Rightarrow> bool" where
  "is_on_side s = (case s of OnSide _ \<Rightarrow> True | InHeader _ \<Rightarrow> False)"

definition is_in_header :: "metadata_spec \<Rightarrow> bool" where
  "is_in_header s = (case s of InHeader _ \<Rightarrow> True | OnSide _ \<Rightarrow> False)"

text \<open>The arguments of the macro: the name, whether it is global, the number of bits, the region.\<close>

record spec_decl =
  spec_name :: string
  IS_GLOBAL :: bool
  LOG_NUM_BITS :: nat
  side_min_obj_size :: usize

text \<open>
  mmtk lays out the side tables: it has a first place for the global and for the local ones, and
  the place after a given table. A table takes some bytes, which depend on its two logarithms.
\<close>

record side_layout =
  GLOBAL_SIDE_METADATA_VM_BASE_OFFSET :: usize
  LOCAL_SIDE_METADATA_VM_BASE_OFFSET :: usize
  layout_after :: "side_spec \<Rightarrow> usize"
  table_bytes :: "side_spec \<Rightarrow> nat"

definition layout_law :: "side_layout \<Rightarrow> bool" where
  "layout_law Y \<longleftrightarrow> unat (LOCAL_SIDE_METADATA_VM_BASE_OFFSET Y) < 2 ^ 48 \<and>
     (\<forall>s. unat (ss_offset s) < 2 ^ 50 \<longrightarrow> 0 < table_bytes Y s \<and> table_bytes Y s \<le> 2 ^ 47 \<and>
        unat (layout_after Y s) = unat (ss_offset s) + table_bytes Y s)"

definition in_header :: "spec_decl \<Rightarrow> int \<Rightarrow> metadata_spec" where
  "in_header D offset = InHeader \<lparr> bit_offset = offset, num_of_bits = push_bit (LOG_NUM_BITS D) 1 \<rparr>"

definition on_side :: "spec_decl \<Rightarrow> usize \<Rightarrow> metadata_spec" where
  "on_side D offset = OnSide \<lparr> ss_name = spec_name D, ss_is_global = IS_GLOBAL D, ss_offset = offset,
     ss_log_num_of_bits = LOG_NUM_BITS D, ss_log_bytes_in_region = side_min_obj_size D \<rparr>"

definition side_first :: "side_layout \<Rightarrow> spec_decl \<Rightarrow> metadata_spec" where
  "side_first Y D = on_side D (if IS_GLOBAL D then GLOBAL_SIDE_METADATA_VM_BASE_OFFSET Y
                               else LOCAL_SIDE_METADATA_VM_BASE_OFFSET Y)"

text \<open>The assertions of \<open>side_after\<close> fail at compile time.\<close>

definition side_after :: "side_layout \<Rightarrow> spec_decl \<Rightarrow> metadata_spec \<Rightarrow> metadata_spec option" where
  "side_after Y D spec = (case spec of
     OnSide s \<Rightarrow> if ss_is_global s = IS_GLOBAL D then Some (on_side D (layout_after Y s)) else None
   | InHeader _ \<Rightarrow> None)"

definition num_bits :: "spec_decl \<Rightarrow> usize" where
  "num_bits D = push_bit (LOG_NUM_BITS D) 1"

section \<open>The specifications of the object model\<close>

text \<open>
  The types of mmtk that \<open>object_model.rs\<close> uses, as instances of the macro; all but the log bit are
  local. The features of the build, and what the runtime defines under \<open>vmside_forwarding\<close>.
\<close>

record object_decls =
  log_bit_decl :: spec_decl
  mark_bit_decl :: spec_decl
  forwarding_bits_decl :: spec_decl
  forwarding_pointer_decl :: spec_decl
  los_mark_nursery_decl :: spec_decl
  pinning_bit_decl :: spec_decl

definition decls_law :: "object_decls \<Rightarrow> bool" where
  "decls_law D \<longleftrightarrow> IS_GLOBAL (log_bit_decl D) \<and> \<not> IS_GLOBAL (mark_bit_decl D) \<and>
     \<not> IS_GLOBAL (forwarding_bits_decl D) \<and> \<not> IS_GLOBAL (forwarding_pointer_decl D) \<and>
     \<not> IS_GLOBAL (los_mark_nursery_decl D) \<and> \<not> IS_GLOBAL (pinning_bit_decl D)"

record forwarding_specs =
  vm_forwarding_bits :: metadata_spec
  vm_forwarding_pointer :: metadata_spec

record spec_features =
  vmside_forwarding :: bool
  object_pinning :: bool

definition MARK_BIT_SPEC :: "side_layout \<Rightarrow> object_decls \<Rightarrow> metadata_spec" where
  "MARK_BIT_SPEC Y D = side_first Y (mark_bit_decl D)"

definition GLOBAL_LOG_BIT_SPEC :: "side_layout \<Rightarrow> object_decls \<Rightarrow> metadata_spec" where
  "GLOBAL_LOG_BIT_SPEC Y D = side_first Y (log_bit_decl D)"

definition LOCAL_FORWARDING_BITS_SPEC ::
  "spec_features \<Rightarrow> forwarding_specs \<Rightarrow> side_layout \<Rightarrow> object_decls \<Rightarrow> metadata_spec option" where
  "LOCAL_FORWARDING_BITS_SPEC F V Y D =
     (if vmside_forwarding F then Some (vm_forwarding_bits V)
      else side_after Y (forwarding_bits_decl D) (MARK_BIT_SPEC Y D))"

definition LOCAL_FORWARDING_POINTER_SPEC ::
  "spec_features \<Rightarrow> forwarding_specs \<Rightarrow> object_decls \<Rightarrow> metadata_spec" where
  "LOCAL_FORWARDING_POINTER_SPEC F V D =
     (if vmside_forwarding F then vm_forwarding_pointer V else in_header (forwarding_pointer_decl D) 0)"

definition LOCAL_LOS_MARK_NURSERY_SPEC ::
  "spec_features \<Rightarrow> forwarding_specs \<Rightarrow> side_layout \<Rightarrow> object_decls \<Rightarrow> metadata_spec option" where
  "LOCAL_LOS_MARK_NURSERY_SPEC F V Y D = do {
     bits \<leftarrow> LOCAL_FORWARDING_BITS_SPEC F V Y D;
     let spec_after = (if is_in_header bits then MARK_BIT_SPEC Y D else bits);
     side_after Y (los_mark_nursery_decl D) spec_after
   }"

definition LOCAL_PINNING_BIT_SPEC ::
  "spec_features \<Rightarrow> forwarding_specs \<Rightarrow> side_layout \<Rightarrow> object_decls \<Rightarrow> metadata_spec option" where
  "LOCAL_PINNING_BIT_SPEC F V Y D =
     Option.bind (LOCAL_LOS_MARK_NURSERY_SPEC F V Y D) (side_after Y (pinning_bit_decl D))"

definition last_side_metadata_spec ::
  "spec_features \<Rightarrow> forwarding_specs \<Rightarrow> side_layout \<Rightarrow> object_decls \<Rightarrow> metadata_spec option" where
  "last_side_metadata_spec F V Y D =
     (if object_pinning F then LOCAL_PINNING_BIT_SPEC F V Y D else LOCAL_LOS_MARK_NURSERY_SPEC F V Y D)"

text \<open>What the shim for the Boehm collector defines.\<close>

definition shim_forwarding_specs :: "side_layout \<Rightarrow> object_decls \<Rightarrow> forwarding_specs" where
  "shim_forwarding_specs Y D = \<lparr> vm_forwarding_bits = side_first Y (forwarding_bits_decl D),
     vm_forwarding_pointer = in_header (forwarding_pointer_decl D) 0 \<rparr>"

section \<open>The tables do not overlap\<close>

definition table_end :: "side_layout \<Rightarrow> side_spec \<Rightarrow> nat" where
  "table_end Y s = unat (ss_offset s) + table_bytes Y s"

definition before :: "side_layout \<Rightarrow> side_spec \<Rightarrow> side_spec \<Rightarrow> bool" where
  "before Y s t \<longleftrightarrow> table_end Y s \<le> unat (ss_offset t)"

fun side_of :: "metadata_spec \<Rightarrow> side_spec option" where
  "side_of (OnSide s) = Some s"
| "side_of (InHeader h) = None"

text \<open>The local specifications in the order of their tables.\<close>

definition local_specs ::
  "spec_features \<Rightarrow> forwarding_specs \<Rightarrow> side_layout \<Rightarrow> object_decls \<Rightarrow> metadata_spec option list" where
  "local_specs F V Y D =
     [Some (MARK_BIT_SPEC Y D), LOCAL_FORWARDING_BITS_SPEC F V Y D, LOCAL_LOS_MARK_NURSERY_SPEC F V Y D] @
     (if object_pinning F then [LOCAL_PINNING_BIT_SPEC F V Y D] else [])"

definition local_tables ::
  "spec_features \<Rightarrow> forwarding_specs \<Rightarrow> side_layout \<Rightarrow> object_decls \<Rightarrow> side_spec list" where
  "local_tables F V Y D = List.map_filter (\<lambda>s. Option.bind s side_of) (local_specs F V Y D)"

text \<open>What \<open>lib.rs\<close> asks of a runtime: bits on the side lie behind the mark bits.\<close>

definition forwarding_documented :: "forwarding_specs \<Rightarrow> side_layout \<Rightarrow> object_decls \<Rightarrow> bool" where
  "forwarding_documented V Y D \<longleftrightarrow> (case vm_forwarding_bits V of
     InHeader _ \<Rightarrow> True
   | OnSide s \<Rightarrow> \<not> ss_is_global s \<and> unat (ss_offset s) < 2 ^ 49 \<and>
       (\<forall>m. side_of (MARK_BIT_SPEC Y D) = Some m \<longrightarrow> before Y m s))"

definition side_at :: "spec_decl \<Rightarrow> usize \<Rightarrow> side_spec" where
  "side_at D offset = \<lparr> ss_name = spec_name D, ss_is_global = IS_GLOBAL D, ss_offset = offset,
     ss_log_num_of_bits = LOG_NUM_BITS D, ss_log_bytes_in_region = side_min_obj_size D \<rparr>"

lemma on_side_at: "on_side D offset = OnSide (side_at D offset)"
  by (simp add: on_side_def side_at_def)

lemma side_at_simps [simp]: "ss_offset (side_at D w) = w" "ss_is_global (side_at D w) = IS_GLOBAL D"
  by (simp_all add: side_at_def)

text \<open>A table laid out after another begins where that one ends.\<close>

lemma side_after_before:
  assumes "layout_law Y" and "unat (ss_offset s) < 2 ^ 50" and "ss_is_global s = IS_GLOBAL D"
  shows "\<exists>t. side_after Y D (OnSide s) = Some (OnSide t) \<and> before Y s t \<and> ss_is_global t = IS_GLOBAL D \<and>
    unat (ss_offset t) \<le> unat (ss_offset s) + 2 ^ 47"
  using assms by (auto simp: side_after_def on_side_at before_def table_end_def layout_law_def)

lemma before_trans:
  assumes "before Y s t" and "before Y t u"
  shows "before Y s u"
  using assms by (simp add: before_def table_end_def)

lemma local_tables_in_order:
  assumes "layout_law Y" and "decls_law D" and "vmside_forwarding F \<longrightarrow> forwarding_documented V Y D"
  shows "None \<notin> set (local_specs F V Y D) \<and> sorted_wrt (before Y) (local_tables F V Y D)"
proof -
  define m where "m = side_at (mark_bit_decl D) (LOCAL_SIDE_METADATA_VM_BASE_OFFSET Y)"
  have mark: "MARK_BIT_SPEC Y D = OnSide m" and m: "unat (ss_offset m) < 2 ^ 48" "\<not> ss_is_global m"
    using assms(1,2) by (simp_all add: MARK_BIT_SPEC_def side_first_def on_side_at m_def decls_law_def layout_law_def)
  have after: "\<exists>t. side_after Y E (OnSide s) = Some (OnSide t) \<and> before Y s t \<and> \<not> ss_is_global t \<and>
      unat (ss_offset t) \<le> unat (ss_offset s) + 2 ^ 47"
    if "unat (ss_offset s) < 2 ^ 50" "\<not> ss_is_global s" "\<not> IS_GLOBAL E" for s E
    using side_after_before [OF assms(1), of s E] that by auto
  have los: "\<not> IS_GLOBAL (los_mark_nursery_decl D)" and pin: "\<not> IS_GLOBAL (pinning_bit_decl D)"
    and fwd: "\<not> IS_GLOBAL (forwarding_bits_decl D)"
    using assms(2) by (simp_all add: decls_law_def)
  obtain f where f: "LOCAL_FORWARDING_BITS_SPEC F V Y D = Some f"
    "is_in_header f \<or> (\<exists>s. f = OnSide s \<and> before Y m s \<and> \<not> ss_is_global s \<and> unat (ss_offset s) < 2 ^ 49)"
  proof (cases "vmside_forwarding F")
    case True
    then show ?thesis
      using assms(3) mark that [of "vm_forwarding_bits V"]
      by (cases "vm_forwarding_bits V")
        (auto simp: LOCAL_FORWARDING_BITS_SPEC_def forwarding_documented_def is_in_header_def)
  next
    case False
    obtain t where "side_after Y (forwarding_bits_decl D) (OnSide m) = Some (OnSide t)" "before Y m t"
        "\<not> ss_is_global t" "unat (ss_offset t) \<le> unat (ss_offset m) + 2 ^ 47"
      using after [of m, OF _ m(2) fwd] m(1) by auto
    then show ?thesis
      using False m(1) mark that [of "OnSide t"] by (auto simp: LOCAL_FORWARDING_BITS_SPEC_def)
  qed
  define s where "s = (if is_in_header f then m else the (side_of f))"
  have s: "(if is_in_header f then MARK_BIT_SPEC Y D else f) = OnSide s" "\<not> ss_is_global s"
      "unat (ss_offset s) < 2 ^ 49" "s = m \<or> before Y m s"
    using f(2) mark m by (auto simp: s_def is_in_header_def split: metadata_spec.splits)
  obtain l where l: "side_after Y (los_mark_nursery_decl D) (OnSide s) = Some (OnSide l)" "before Y s l"
      "\<not> ss_is_global l" "unat (ss_offset l) \<le> unat (ss_offset s) + 2 ^ 47"
    using after [of s, OF _ s(2) los] s(3) by auto
  obtain p where p: "side_after Y (pinning_bit_decl D) (OnSide l) = Some (OnSide p)" "before Y l p"
    using after [of l, OF _ l(3) pin] l(4) s(3) by auto
  have L: "LOCAL_LOS_MARK_NURSERY_SPEC F V Y D = Some (OnSide l)"
    using f(1) s(1) l(1) by (simp add: LOCAL_LOS_MARK_NURSERY_SPEC_def)
  have P: "LOCAL_PINNING_BIT_SPEC F V Y D = Some (OnSide p)"
    using L p(1) by (simp add: LOCAL_PINNING_BIT_SPEC_def)
  have t: "local_tables F V Y D = m # (if is_in_header f then [] else [s]) @ l # (if object_pinning F then [p] else [])"
    using mark f(1) L P s(1)
    by (cases f) (auto simp: local_tables_def local_specs_def List.map_filter_def is_in_header_def)
  have "before Y m l" "before Y m p" "before Y s p"
    using s(4) l(2) p(2) before_trans by blast+
  moreover have "\<not> is_in_header f \<Longrightarrow> before Y m s"
    using f(2) s(1) by (auto simp: is_in_header_def)
  ultimately have "sorted_wrt (before Y) (local_tables F V Y D)"
    unfolding t using l(2) p(2) by auto
  then show ?thesis using mark f(1) L P by (simp add: local_specs_def)
qed

section \<open>Properties\<close>

text \<open>For the witnesses: tables of \<open>2 ^ 42\<close> bytes for each bit of an object, one after the other.\<close>

definition plain_layout :: side_layout where
  "plain_layout = \<lparr> GLOBAL_SIDE_METADATA_VM_BASE_OFFSET = 0x1000, LOCAL_SIDE_METADATA_VM_BASE_OFFSET = 0x2000,
     layout_after = (\<lambda>s. ss_offset s + 2 ^ 42), table_bytes = (\<lambda>s. 2 ^ 42) \<rparr>"

definition local_decl :: "string \<Rightarrow> nat \<Rightarrow> spec_decl" where
  "local_decl n log_bits = \<lparr> spec_name = n, IS_GLOBAL = False, LOG_NUM_BITS = log_bits, side_min_obj_size = 3 \<rparr>"

definition plain_decls :: object_decls where
  "plain_decls = \<lparr> log_bit_decl = (local_decl ''LogBit'' 0) \<lparr> IS_GLOBAL := True \<rparr>, mark_bit_decl = local_decl ''MarkBit'' 0,
     forwarding_bits_decl = local_decl ''ForwardingBits'' 1, forwarding_pointer_decl = local_decl ''ForwardingPointer'' 6,
     los_mark_nursery_decl = local_decl ''LosMarkNursery'' 1, pinning_bit_decl = local_decl ''PinningBit'' 0 \<rparr>"

lemma plain_layout_law: "layout_law plain_layout"
proof -
  have "unat (ss_offset s + 2 ^ 42) = unat (ss_offset s) + 2 ^ 42" if "unat (ss_offset s) < 2 ^ 50" for s :: side_spec
    using that by (subst unat_add_no_overflow) simp_all
  then show ?thesis by (simp add: layout_law_def plain_layout_def)
qed

lemma plain_decls_law: "decls_law plain_decls"
  by (simp add: decls_law_def plain_decls_def local_decl_def)

text \<open>
  C30: the side tables of the object model do not overlap. In every configuration of the features,
  the specifications of \<open>object_model.rs\<close> pass the assertions of mmtk, and the tables of those that
  are kept on the side lie one behind the other, provided that a runtime that defines its own
  forwarding bits puts them into the header or behind the mark bits, as \<open>lib.rs\<close> demands.
\<close>

theorem local_tables_disjoint:
  assumes "layout_law Y" and "decls_law D" and "vmside_forwarding F \<longrightarrow> forwarding_documented V Y D"
  shows "None \<notin> set (local_specs F V Y D) \<and> sorted_wrt (before Y) (local_tables F V Y D)"
  using assms by (rule local_tables_in_order)

theorem local_tables_disjoint_witness:
  "length (local_tables \<lparr> vmside_forwarding = False, object_pinning = True \<rparr> (shim_forwarding_specs plain_layout plain_decls)
      plain_layout plain_decls) = 4 \<and>
   sorted_wrt (before plain_layout) (local_tables \<lparr> vmside_forwarding = False, object_pinning = True \<rparr>
      (shim_forwarding_specs plain_layout plain_decls) plain_layout plain_decls)"
proof -
  let ?F = "\<lparr> vmside_forwarding = False, object_pinning = True \<rparr>"
  let ?V = "shim_forwarding_specs plain_layout plain_decls"
  have "length (local_tables ?F ?V plain_layout plain_decls) = 4"
    by (simp add: local_tables_def local_specs_def List.map_filter_def MARK_BIT_SPEC_def LOCAL_FORWARDING_BITS_SPEC_def
        LOCAL_LOS_MARK_NURSERY_SPEC_def LOCAL_PINNING_BIT_SPEC_def side_first_def side_after_def on_side_def
        is_in_header_def plain_decls_def local_decl_def)
  then show ?thesis
    using local_tables_disjoint [OF plain_layout_law plain_decls_law, of ?F ?V] by simp
qed

text \<open>
  The shim does not do what \<open>lib.rs\<close> demands: under \<open>vmside_forwarding\<close> its forwarding bits are the
  first local table, as the mark bits are, so that both share their bytes.
\<close>

theorem shim_forwarding_bits_overlap:
  assumes "layout_law Y" and "decls_law D" and "vmside_forwarding F" and "V = shim_forwarding_specs Y D"
  shows "\<exists>m f. MARK_BIT_SPEC Y D = OnSide m \<and> LOCAL_FORWARDING_BITS_SPEC F V Y D = Some (OnSide f) \<and>
    ss_offset m = ss_offset f \<and> \<not> forwarding_documented V Y D \<and> \<not> sorted_wrt (before Y) (local_tables F V Y D)"
proof -
  define m where "m = side_at (mark_bit_decl D) (LOCAL_SIDE_METADATA_VM_BASE_OFFSET Y)"
  define f where "f = side_at (forwarding_bits_decl D) (LOCAL_SIDE_METADATA_VM_BASE_OFFSET Y)"
  have mark: "MARK_BIT_SPEC Y D = OnSide m"
    using assms(2) by (simp add: MARK_BIT_SPEC_def side_first_def on_side_at m_def decls_law_def)
  have bits: "vm_forwarding_bits V = OnSide f" "LOCAL_FORWARDING_BITS_SPEC F V Y D = Some (OnSide f)"
    using assms(2-4)
    by (simp_all add: shim_forwarding_specs_def LOCAL_FORWARDING_BITS_SPEC_def side_first_def on_side_at f_def decls_law_def)
  have "0 < table_bytes Y m" using assms(1) by (simp add: layout_law_def m_def)
  then have "\<not> before Y m f" by (simp add: before_def table_end_def m_def f_def)
  moreover have "\<exists>ts. local_tables F V Y D = m # f # ts"
    using mark bits by (simp add: local_tables_def local_specs_def List.map_filter_def)
  ultimately have "\<not> forwarding_documented V Y D" and "\<not> sorted_wrt (before Y) (local_tables F V Y D)"
    using mark bits by (auto simp: forwarding_documented_def)
  then show ?thesis using mark bits by (auto simp: m_def f_def)
qed

theorem shim_forwarding_bits_overlap_witness:
  "\<not> sorted_wrt (before plain_layout) (local_tables \<lparr> vmside_forwarding = True, object_pinning = True \<rparr>
      (shim_forwarding_specs plain_layout plain_decls) plain_layout plain_decls)"
  using shim_forwarding_bits_overlap [OF plain_layout_law plain_decls_law _ refl,
      of "\<lparr> vmside_forwarding = True, object_pinning = True \<rparr>"] by auto

end
