(* ===== verification/Vmkit_Platform.thy ===== *)
theory Vmkit_Platform
  imports Vmkit_BdwgcApi
begin

text \<open>
  The platform layer: the configuration macros (\<open>macros.rs\<close>), the saved machine registers
  (\<open>machine_context.rs\<close>, \<open>save_registers\<close> of \<open>threading.rs\<close>), the writable segments of the loaded
  libraries (\<open>platform/dynload.rs\<close>) and the placement of the heap (\<open>mm/aslr.rs\<close>). A target is what
  the compiler answers for \<open>cfg\<close>; code that is left out, or does not compile, is \<^const>\<open>None\<close>.
\<close>

section \<open>Configuration\<close>

record target =
  target_os :: string
  target_arch :: string
  target_vendor :: string
  target_env :: string
  cfg_unix :: bool
  cfg_windows :: bool

definition darwin :: "target \<Rightarrow> bool" where
  "darwin T \<longleftrightarrow> target_vendor T = ''apple''"

definition ios_family :: "target \<Rightarrow> bool" where
  "ios_family T \<longleftrightarrow> darwin T \<and> target_os T = ''ios''"

definition have_machine_context :: "target \<Rightarrow> bool" where
  "have_machine_context T \<longleftrightarrow> target_env T \<noteq> ''musl'' \<and>
     (darwin T \<or> target_os T = ''fuchsia'' \<or>
      target_os T \<in> {''freebsd'', ''haiku'', ''netbsd'', ''openbsd'', ''linux'', ''hurd''} \<and>
      target_arch T \<in> {''x86_64'', ''arm'', ''aarch64'', ''riscv64''})"

section \<open>Registers\<close>

text \<open>
  The type \<open>PlatformRegisters\<close>, which the Apple branch chooses by \<open>target_os\<close>, and the part of a
  \<open>ucontext_t\<close> that \<open>registers_from_ucontext\<close> points to.
\<close>

datatype platform_registers =
    DarwinX86Registers
  | DarwinArmRegisters
  | MachineContextRegisters
  | WindowsContext
  | StackPointerRegisters

datatype ucontext_part = ThreadStateSs | WholeUcontext | McontextRegs | Mcontext

definition PlatformRegisters :: "target \<Rightarrow> platform_registers option" where
  "PlatformRegisters T =
     (if darwin T then
        (if target_os T = ''x86_64'' then Some DarwinX86Registers
         else if target_os T = ''arm64'' then Some DarwinArmRegisters
         else None)
      else if have_machine_context T then Some MachineContextRegisters
      else if cfg_windows T then Some WindowsContext
      else Some StackPointerRegisters)"

definition registers_from_ucontext :: "target \<Rightarrow> ucontext_part option" where
  "registers_from_ucontext T =
     (if darwin T then Some ThreadStateSs
      else if have_machine_context T then
        Some (if target_os T = ''openbsd'' then WholeUcontext
              else if target_arch T = ''powerpc'' then McontextRegs
              else Mcontext)
      else None)"

text \<open>
  What \<open>save_registers\<close> writes: the registers \<open>getcontext\<close> puts into a context, or the stack
  pointer alone, as a record with that one field. The first component of the answer is \<^const>\<open>None\<close>
  when this does not compile; the assertion compares the handles of the two threads.
\<close>

datatype saved_registers = FromContext ucontext_part | OnlyStackPointer address

definition saved_value :: "target \<Rightarrow> address \<Rightarrow> saved_registers option" where
  "saved_value T sp =
     (if PlatformRegisters T = None then None
      else if have_machine_context T then map_option FromContext (registers_from_ucontext T)
      else if PlatformRegisters T = Some StackPointerRegisters then Some (OnlyStackPointer sp)
      else None)"

definition save_registers ::
  "target \<Rightarrow> usize \<Rightarrow> usize \<Rightarrow> address \<Rightarrow> 'b thread \<Rightarrow> (saved_registers option \<times> 'b thread) option" where
  "save_registers T own_handle current_handle sp t =
     (if own_handle = current_handle then Some (saved_value T sp, t \<lparr> stack_pointer := sp \<rparr>) else None)"

section \<open>Loaded libraries\<close>

record elf_phdr =
  p_type :: u32
  p_flags :: u32
  p_vaddr :: usize
  p_memsz :: usize

text \<open>
  \<open>dl_phdr_info\<close>: the load address and the program headers of an object, with the size of the
  record that the C library passes; the number of headers lies in its bytes 24 and 25.
\<close>

record dl_phdr_info =
  dlpi_addr :: usize
  dlpi_phdr :: "elf_phdr list"
  info_size :: nat

definition PT_LOAD :: u32 where "PT_LOAD = 1"
definition PF_W :: u32 where "PF_W = 2"
definition PT_GNU_RELRO :: u32 where "PT_GNU_RELRO = 0x6474e552"

definition segment_range :: "usize \<Rightarrow> elf_phdr \<Rightarrow> address \<times> address" where
  "segment_range load_at p = (let my_start = p_vaddr p + load_at in (my_start, my_start + p_memsz p))"

fun load_loop :: "usize \<Rightarrow> elf_phdr list \<Rightarrow> (address \<times> address) set \<Rightarrow> (address \<times> address) set" where
  "load_loop load_at [] S = S"
| "load_loop load_at (p # ps) S =
     (if p_type p = PT_LOAD
      then (if p_flags p AND PF_W = 0 then load_loop load_at ps S
            else load_loop load_at ps (insert (segment_range load_at p) S))
      else load_loop load_at ps S)"

text \<open>The second loop looks at the first header again and again, and does nothing with what it finds.\<close>

primrec relro_loop :: "nat \<Rightarrow> usize \<Rightarrow> elf_phdr list \<Rightarrow> (address \<times> address) set \<Rightarrow> (address \<times> address) set" where
  "relro_loop 0 load_at ps S = S"
| "relro_loop (Suc n) load_at ps S =
     (if p_type (hd ps) = PT_GNU_RELRO
      then (let (my_start, my_end) = segment_range load_at (hd ps) in relro_loop n load_at ps S)
      else relro_loop n load_at ps S)"

definition register_dynlib_callback ::
  "dl_phdr_info \<Rightarrow> (address \<times> address) set \<Rightarrow> int \<times> (address \<times> address) set" where
  "register_dynlib_callback info S =
     (if info_size info < 26 then (1, S)
      else (let S = load_loop (dlpi_addr info) (dlpi_phdr info) S;
                S = relro_loop (length (dlpi_phdr info)) (dlpi_addr info) (dlpi_phdr info) S
            in (0, S)))"

text \<open>\<open>dl_iterate_phdr\<close> calls the callback for each object until it answers something else than 0.\<close>

fun dl_iterate_phdr :: "dl_phdr_info list \<Rightarrow> (address \<times> address) set \<Rightarrow> (address \<times> address) set" where
  "dl_iterate_phdr [] S = S"
| "dl_iterate_phdr (info # infos) S =
     (let (r, S) = register_dynlib_callback info S in if r \<noteq> 0 then S else dl_iterate_phdr infos S)"

definition dynamic_libraries_sections :: "target \<Rightarrow> dl_phdr_info list \<Rightarrow> (address \<times> address) set" where
  "dynamic_libraries_sections T infos =
     (if target_os T = ''linux'' \<or> target_os T = ''android'' then dl_iterate_phdr infos {} else {})"

section \<open>Placement of the heap\<close>

text \<open>
  The random number and the answer of \<open>msync\<close> are arguments, the layout is mmtk's. Chunks have
  \<open>2 ^ 22\<close> bytes.
\<close>

definition get_random_mmap_addr :: "ext_lib \<Rightarrow> usize \<Rightarrow> address" where
  "get_random_mmap_addr L raw_addr =
     (let raw_addr = raw_align_down L raw_addr (2 ^ 22) in raw_addr AND 0x3FFFFFFFF000)"

definition is_address_maybe_unmapped :: "target \<Rightarrow> int \<Rightarrow> int \<Rightarrow> int \<Rightarrow> bool" where
  "is_address_maybe_unmapped T res errno ENOMEM \<longleftrightarrow> cfg_unix T \<and> res = -1 \<and> errno = ENOMEM"

definition aslr_vm_layout :: "'l \<Rightarrow> 'o \<Rightarrow> 'l" where
  "aslr_vm_layout default_layout mmtk_options = default_layout"

section \<open>The sections are the writable segments\<close>

definition writable_segments :: "dl_phdr_info \<Rightarrow> (address \<times> address) set" where
  "writable_segments info = segment_range (dlpi_addr info) `
     {p \<in> set (dlpi_phdr info). p_type p = PT_LOAD \<and> p_flags p AND PF_W \<noteq> 0}"

lemma load_loop_eq:
  "load_loop a ps S = S \<union> segment_range a ` {p \<in> set ps. p_type p = PT_LOAD \<and> p_flags p AND PF_W \<noteq> 0}"
  by (induction a ps S rule: load_loop.induct) auto

lemma relro_loop_eq [simp]: "relro_loop n a ps S = S"
  by (induction n) (simp_all add: case_prod_beta)

lemma dl_iterate_eq:
  "\<forall>info \<in> set infos. 26 \<le> info_size info \<Longrightarrow>
     dl_iterate_phdr infos S = S \<union> (\<Union>info \<in> set infos. writable_segments info)"
  by (induction infos S rule: dl_iterate_phdr.induct)
    (auto simp: register_dynlib_callback_def load_loop_eq writable_segments_def not_less)

text \<open>
  An object whose record is too short ends the iteration: the objects behind it are not scanned.
\<close>

lemma short_record_ends_iteration:
  assumes "\<forall>info \<in> set infos. 26 \<le> info_size info" and "info_size short < 26"
  shows "dl_iterate_phdr (infos @ short # rest) S = dl_iterate_phdr infos S"
  using assms
  by (induction infos S rule: dl_iterate_phdr.induct)
    (auto simp: register_dynlib_callback_def)

text \<open>
  The segments that are read-only after relocation are meant to be excluded; their headers make
  no difference.
\<close>

lemma relro_headers_ignored:
  "dynamic_libraries_sections T
     (map (\<lambda>info. info \<lparr> dlpi_phdr := filter (\<lambda>p. p_type p \<noteq> PT_GNU_RELRO) (dlpi_phdr info) \<rparr>) infos) =
   dynamic_libraries_sections T infos"
proof -
  let ?f = "\<lambda>info. info \<lparr> dlpi_phdr := filter (\<lambda>p. p_type p \<noteq> PT_GNU_RELRO) (dlpi_phdr info) \<rparr>"
  have "load_loop a (filter (\<lambda>p. p_type p \<noteq> PT_GNU_RELRO) ps) S = load_loop a ps S" for a ps S
    unfolding load_loop_eq by (auto simp: PT_LOAD_def PT_GNU_RELRO_def)
  then have "register_dynlib_callback (?f info) S = register_dynlib_callback info S" for info S
    by (simp add: register_dynlib_callback_def)
  then have "dl_iterate_phdr (map ?f infos) S = dl_iterate_phdr infos S" for S
    by (induction infos arbitrary: S) (simp_all add: case_prod_beta)
  then show ?thesis by (simp add: dynamic_libraries_sections_def)
qed

section \<open>Addresses\<close>

lemma and_mask_less: "unat (w AND mask n :: usize) < 2 ^ n"
  by (simp add: take_bit_eq_mask [symmetric] unsigned_take_bit_eq take_bit_nat_less_exp)

text \<open>A random address is a multiple of the chunk size below \<open>2 ^ 46\<close>.\<close>

lemma random_address_bounds:
  assumes "lib_ok L"
  shows "aligned 22 (get_random_mmap_addr L w) \<and> unat (get_random_mmap_addr L w) < 2 ^ 46"
proof -
  let ?a = "raw_align_down L w (2 ^ 22)"
  have "take_bit 22 ?a = 0"
    using raw_align_down_bounds(1) [OF assms, of 22 w] by (simp add: aligned_def)
  then have "aligned 22 (get_random_mmap_addr L w)"
    by (simp add: aligned_def get_random_mmap_addr_def)
  moreover have "get_random_mmap_addr L w = (?a AND 0x3FFFFFFFF000) AND mask 46"
  proof -
    have m: "(0x3FFFFFFFF000 :: usize) AND mask 46 = 0x3FFFFFFFF000" by (simp add: mask_eq_exp_minus_1)
    show ?thesis unfolding and.assoc m by (simp add: get_random_mmap_addr_def)
  qed
  ultimately show ?thesis using and_mask_less [of "?a AND 0x3FFFFFFFF000" 46] by simp
qed

section \<open>Properties\<close>


definition linux_target :: target where
  "linux_target = \<lparr> target_os = ''linux'', target_arch = ''x86_64'', target_vendor = ''unknown'', target_env = ''gnu'',
     cfg_unix = True, cfg_windows = False \<rparr>"

definition data_segment :: elf_phdr where
  "data_segment = \<lparr> p_type = 1, p_flags = 6, p_vaddr = 0x1000, p_memsz = 0x800 \<rparr>"

definition one_library :: dl_phdr_info where
  "one_library = \<lparr> dlpi_addr = 0x4000, dlpi_phdr = [data_segment \<lparr> p_flags := 5 \<rparr>, data_segment], info_size = 64 \<rparr>"

lemma one_library_segments: "writable_segments one_library = {(0x5000, 0x5800)}"
proof -
  have "{p \<in> set (dlpi_phdr one_library). p_type p = PT_LOAD \<and> p_flags p AND PF_W \<noteq> 0} = {data_segment}"
    by (auto simp: one_library_def data_segment_def PT_LOAD_def PF_W_def)
  then show ?thesis by (simp add: writable_segments_def segment_range_def one_library_def data_segment_def)
qed


text \<open>
  Where the registers can be saved: the code compiles exactly for targets that are neither Apple's
  nor Windows. The Apple branch compares the name of the operating system with names of
  architectures, and the branch without a machine context assumes that \<open>PlatformRegisters\<close> has the
  field \<open>stack_pointer\<close>, which the type chosen on Windows has not.
\<close>

theorem registers_saved_iff:
  assumes "target_os T \<notin> {''x86_64'', ''arm64''}" and "cfg_windows T \<longrightarrow> target_os T = ''windows''"
  shows "saved_value T sp \<noteq> None \<longleftrightarrow> \<not> darwin T \<and> \<not> cfg_windows T"
  using assms
  by (auto simp: saved_value_def PlatformRegisters_def registers_from_ucontext_def have_machine_context_def)

theorem registers_saved_iff_witness:
  "saved_value linux_target 4096 \<noteq> None \<and>
   saved_value (linux_target \<lparr> target_vendor := ''apple'', target_os := ''macos'' \<rparr>) 4096 = None"
  using registers_saved_iff [of linux_target 4096]
    registers_saved_iff [of "linux_target \<lparr> target_vendor := ''apple'', target_os := ''macos'' \<rparr>" 4096]
  by (simp add: linux_target_def darwin_def)

end
