(* ===== verification/Vmkit_TableLock.thy ===== *)
theory Vmkit_TableLock
  imports Vmkit_StopWorld Vmkit_Collection
begin

text \<open>
  The monitor \<open>inner\<close> that guards the table of threads (\<open>threading.rs\<close>), and how it meets the stop
  of the mutators. In \<open>block_all_mutators_for_gc\<close> the name \<open>lock\<close> of the guard is shadowed by the
  borrow of the table: \<open>drop(lock)\<close> ends the borrow, and the guard lives until the end of the round,
  so that the collector holds the table while it waits for the mutators to block. The other users
  of the table lock it without a handshake: \<open>snapshot_handshake_threads\<close>, for a soft handshake, and
  \<open>threads\<close>, which any thread may call; \<open>add_thread\<close> does it in a parked scope.
\<close>

section \<open>Steps\<close>

text \<open>Whether the mutator is inside the call that locks the table: in managed code or parked.\<close>

datatype table_wait = NoTableWait | ManagedTableWait | ParkedTableWait

record 'b table_world =
  tw :: "'b world"
  table :: Vmkit_Monitor.monitor
  in_round :: bool
  table_wait :: table_wait

text \<open>The requests of the collector, without their context; they are steps of the protocol.\<close>

inductive collector_step :: "slot \<Rightarrow> 'b world \<Rightarrow> 'b world \<Rightarrow> bool" for gc :: slot where
  request: "gc_at W = GcIdle \<Longrightarrow> block_unchecked GCBlockAdapter gc asynchronous (thr W) = Some r \<Longrightarrow>
    collector_step gc W (after_block asynchronous r W)"
| wake: "gc_at W = GcWaiting s \<Longrightarrow> block_wake GCBlockAdapter (TokenBool True) gc s (thr W) = Some r \<Longrightarrow>
    collector_step gc W (after_block False r W)"
| release: "gc_at W = GcIdle \<Longrightarrow> unblock GCBlockAdapter gc (thr W) = Some t \<Longrightarrow>
    collector_step gc W (W \<lparr> thr := t, gc_stopped := False \<rparr>)"

lemma collector_step_world: "collector_step gc W W' \<Longrightarrow> world_step Xs me gc W W'"
  by (induction rule: collector_step.induct) (auto intro: world_step.intros)

text \<open>
  The mutator does a step of the protocol unless it waits for the table. The collector makes its
  requests in a round, with the table locked.
\<close>

inductive table_step ::
  "'b block_adapter list \<Rightarrow> slot \<Rightarrow> slot \<Rightarrow> 'b table_world \<Rightarrow> 'b table_world \<Rightarrow> bool"
  for Xs :: "'b block_adapter list" and me :: slot and gc :: slot where
  round_begin: "\<not> in_round S \<Longrightarrow> gc_at (tw S) = GcIdle \<Longrightarrow> lock_no_handshake gc (table S) = Some M \<Longrightarrow>
    table_step Xs me gc S (S \<lparr> table := M, in_round := True \<rparr>)"
| collector: "in_round S \<Longrightarrow> collector_step gc (tw S) W \<Longrightarrow> table_step Xs me gc S (S \<lparr> tw := W \<rparr>)"
| round_end: "in_round S \<Longrightarrow> gc_at (tw S) = GcIdle \<Longrightarrow>
    table_step Xs me gc S (S \<lparr> table := guard_drop (table S), in_round := False \<rparr>)"
| mutator: "table_wait S = NoTableWait \<Longrightarrow> world_step Xs me gc (tw S) W \<Longrightarrow> gc_at W = gc_at (tw S) \<Longrightarrow>
    gc_stopped W = gc_stopped (tw S) \<Longrightarrow> table_step Xs me gc S (S \<lparr> tw := W \<rparr>)"
| ask_managed: "table_wait S = NoTableWait \<Longrightarrow> mutator_at (tw S) = Running \<Longrightarrow>
    table_step Xs me gc S (S \<lparr> table_wait := ManagedTableWait \<rparr>)"
| ask_parked: "table_wait S = NoTableWait \<Longrightarrow> mutator_at (tw S) = InNativeCode \<Longrightarrow>
    table_step Xs me gc S (S \<lparr> table_wait := ParkedTableWait \<rparr>)"
| use_table: "table_wait S \<noteq> NoTableWait \<Longrightarrow> lock_no_handshake me (table S) = Some M \<Longrightarrow>
    table_step Xs me gc S (S \<lparr> table := guard_drop M, table_wait := NoTableWait \<rparr>)"

inductive table_reachable :: "'b block_adapter list \<Rightarrow> slot \<Rightarrow> slot \<Rightarrow> 'b table_world \<Rightarrow> bool"
  for Xs :: "'b block_adapter list" and me :: slot and gc :: slot where
  table_initial: "started t \<Longrightarrow> table_reachable Xs me gc
     \<lparr> tw = \<lparr> thr = t, mutator_at = Running, gc_at = GcIdle, gc_stopped = False \<rparr>, table = mon_new,
       in_round = False, table_wait = NoTableWait \<rparr>"
| table_next: "table_reachable Xs me gc S \<Longrightarrow> table_step Xs me gc S S' \<Longrightarrow> table_reachable Xs me gc S'"

section \<open>The invariant\<close>

definition table_inv :: "slot \<Rightarrow> slot \<Rightarrow> 'b table_world \<Rightarrow> bool" where
  "table_inv me gc S \<longleftrightarrow> world_inv me gc (tw S) \<and>
     table S = (if in_round S then \<lparr> mutex = Some gc, rec_count = 1, holder = gc, cvar = [] \<rparr> else mon_new) \<and>
     (table_wait S = ParkedTableWait \<longrightarrow> mutator_at (tw S) = InNativeCode)"

lemma collector_step_mutator: "collector_step gc W W' \<Longrightarrow> mutator_at W' = mutator_at W"
proof (induction rule: collector_step.induct)
  case (request W asynchronous r)
  show ?case by (cases "(asynchronous, r, W)" rule: after_block.cases) simp_all
next
  case (wake W s r)
  show ?case by (cases "(False, r, W)" rule: after_block.cases) simp_all
qed simp

lemma table_step_inv:
  assumes "gc_list Xs" and "me \<noteq> 0" and "gc \<noteq> 0" and "me \<noteq> gc"
    and "table_step Xs me gc S S'" and "table_inv me gc S"
  shows "table_inv me gc S'"
  using assms(5)
proof cases
  case (collector W)
  then show ?thesis
    using assms(6) world_step_inv [OF assms(1-3) collector_step_world] collector_step_mutator [of gc "tw S" W]
    by (auto simp: table_inv_def)
next
  case (mutator W)
  then show ?thesis using assms(6) world_step_inv [OF assms(1-3)] by (auto simp: table_inv_def)
next
  case (use_table M)
  then show ?thesis
    using assms(2-4,6)
    by (auto simp: table_inv_def lock_no_handshake_def mutex_lock_def guard_drop_def mon_new_def split: if_splits)
qed (use assms(3,6) in \<open>auto simp: table_inv_def lock_no_handshake_def mutex_lock_def guard_drop_def mon_new_def\<close>)

lemma table_reachable_inv:
  assumes "gc_list Xs" and "me \<noteq> 0" and "gc \<noteq> 0" and "me \<noteq> gc" and "table_reachable Xs me gc S"
  shows "table_inv me gc S"
  using assms(5)
proof (induction rule: table_reachable.induct)
  case (table_initial t)
  then show ?case by (simp add: table_inv_def world_inv_def state_at_def started_def)
next
  case (table_next S S')
  then show ?case using table_step_inv [OF assms(1-4)] by blast
qed

text \<open>The collector waits for the mutator, and the mutator for the table.\<close>

definition deadlocked :: "slot \<Rightarrow> slot \<Rightarrow> 'b table_world \<Rightarrow> bool" where
  "deadlocked me gc S \<longleftrightarrow> in_round S \<and> table_wait S = ManagedTableWait \<and> mutator_at (tw S) = Running \<and>
     gc_at (tw S) = GcWaiting (1, gc) \<and> mutex (table S) = Some gc \<and> holder (table S) = gc \<and>
     mon_free (monitor (thr (tw S))) \<and> should_block_for_gc (thr (tw S)) \<and> \<not> is_blocked_for_gc (thr (tw S)) \<and>
     \<not> is_about_to_terminate (thr (tw S))"

lemma deadlocked_step:
  assumes "me \<noteq> gc" and "table_step Xs me gc S S'" and "deadlocked me gc S"
  shows "deadlocked me gc S'"
  using assms(2)
proof cases
  case (collector W)
  note d = assms(3) [unfolded deadlocked_def]
  from collector(3) show ?thesis
  proof cases
    case (wake s r)
    then have "s = (1, gc)" using d by simp
    then show ?thesis
      using wake d collector(1) by (auto simp: deadlocked_def block_wake_free split: if_splits)
  qed (use d in auto)
qed (use assms(1,3) in \<open>auto simp: deadlocked_def lock_no_handshake_def mutex_lock_def\<close>)

lemma deadlocked_forever:
  assumes "me \<noteq> gc" and "(table_step Xs me gc)\<^sup>*\<^sup>* S S'" and "deadlocked me gc S"
  shows "deadlocked me gc S'"
  using assms(2) by (induction rule: rtranclp_induct) (use assms(1,3) deadlocked_step in blast)+

section \<open>Starting a thread\<close>

text \<open>
  A thread that \<open>start\<close> has spawned, before \<open>startoff\<close> registers it: it is in managed code already,
  nobody can have asked it to block, and it is not in the table.
\<close>

definition spawned :: "thread_ref \<Rightarrow> 'b registry \<Rightarrow> bool" where
  "spawned r S \<longleftrightarrow> r \<notin> set (live_threads S) \<and> (let t = reg_thread S r in
     exec_status t = InManaged \<and> \<not> has_collector_context t \<and> \<not> ignore_handshakes_and_gc t \<and>
     \<not> is_blocked_for_gc t \<and> \<not> should_block_for_gc t \<and> \<not> is_about_to_terminate t)"

lemma created_thread_spawned:
  assumes "create_mutator NB S = Some (r, S')" and "r \<notin> set (live_threads S)"
  shows "spawned r (thread_start r S')"
  using assms
  by (auto simp: create_mutator_def for_mutator_def new_unchecked_def thread_start_def spawned_def live_threads_def
      set_thread_def split: Option.bind_splits if_splits)

lemma register_keeps_thread:
  "\<exists>i. reg_thread (register_thread r S) = (reg_thread S)(r := (reg_thread S r) \<lparr> index_in_manager := i \<rparr>)"
  by (auto simp: register_thread_def Let_def set_thread_def)

lemma startoff_returns:
  assumes "registry_ok S" and "length (reg_threads S) + 1 < 2 ^ 64"
    and "reg_dying S = []" and "spawned r S"
  shows "\<exists>S'. startoff_begin P Xs me sp r S = Some (Returned S') \<and> r \<in> set (handshake_candidates S') \<and>
    exec_status (reg_thread S' r) = InManaged \<and> \<not> stopped (reg_thread S' r) \<and>
    (\<forall>q. q \<noteq> r \<longrightarrow> reg_thread S' q = reg_thread S q)"
proof -
  let ?p = "prepare_thread P (reg_thread S r)"
  let ?n = "?p \<lparr> stack_pointer := sp, exec_status := InNative \<rparr>"
  have sp: "exec_status ?p = InManaged" "\<not> has_collector_context ?p" "\<not> ignore_handshakes_and_gc ?p"
      "\<not> is_blocked_for_gc ?p" "\<not> is_about_to_terminate ?p"
    using assms(4) by (simp_all add: spawned_def prepare_keeps Let_def)
  define S1 where "S1 = register_thread r (set_thread r ?n S)"
  have "registry_ok (set_thread r ?n S)"
  proof -
    have "i < length (reg_threads S) \<Longrightarrow> reg_threads S ! i \<noteq> Some r" for i
      using assms(4) live_iff_nth [of r S] by (auto simp: spawned_def)
    then show ?thesis using assms(1) by (auto simp: registry_ok_def)
  qed
  then have live: "r \<in> set (live_threads S1)"
    using registry_ok_register [of "set_thread r ?n S" r] assms(2,4)
    by (simp add: S1_def live_threads_def spawned_def)
  obtain i where i: "reg_thread S1 = (reg_thread (set_thread r ?n S))(r := ?n \<lparr> index_in_manager := i \<rparr>)"
    using register_keeps_thread [of r "set_thread r ?n S"] by (auto simp: S1_def)
  let ?t = "reg_thread S1 r \<lparr> exec_status := InManaged \<rparr>"
  have e: "exec_status (reg_thread S1 r) = InNative" by (simp add: i)
  have p: "process_about_to_terminate (set_thread r ?p S) = Some (set_thread r ?p S)"
    using assms(3) by (simp add: process_idle)
  have enter: "parked_enter Xs me sp ?p = Some (True, ?n)"
    using sp(1) by (simp add: parked_enter_def enter_native_managed)
  have leave: "parked_leave Xs me True (reg_thread S1 r) = Some (Returned ?t)"
    using e by (simp add: parked_leave_def leave_native_def attempt_leave_simps)
  have s: "startoff_begin P Xs me sp r S = Some (Returned (set_thread r ?t S1))"
    using p enter leave by (simp add: startoff_begin_def add_thread_def S1_def [symmetric])
  have "r \<in> set (handshake_candidates (set_thread r ?t S1))"
    using live sp(2,3) by (simp add: handshake_candidates_def i live_threads_def)
  moreover have "\<not> stopped ?t" using sp(4,5) by (simp add: stopped_def not_running_def i)
  ultimately show ?thesis using s by (intro exI [of _ "set_thread r ?t S1"]) (simp add: i)
qed

lemma block_all_stopped:
  assumes "block_all_mutators_for_gc env gc S0 = Some (ts, S)"
  shows "\<forall>q \<in> set (handshake_candidates S). stopped (reg_thread S q)"
proof -
  obtain S1 where S1: "block_rounds env gc S0 = Some S1" and p: "process_about_to_terminate S1 = Some S"
    using assms by (auto simp: block_all_mutators_for_gc_def split: Option.bind_splits)
  note f = process_frame [OF p]
  have "set (handshake_candidates S) \<subseteq> set (handshake_candidates S1)"
    using f by (auto simp: handshake_candidates_def live_threads_iff)
  then show ?thesis using block_rounds_sound [OF S1] f by auto
qed

text \<open>A request to a thread in native code is answered at once, so the collector does not wait.\<close>

lemma native_request_returns:
  assumes "world_inv me gc W" and "gc \<noteq> 0" and "mutator_at W = InNativeCode" and "gc_at W = GcIdle"
    and "collector_step gc W W'"
  shows "gc_at W' = GcIdle"
  using assms(5)
proof cases
  case (request asynchronous r)
  have f: "mon_free (monitor (thr W))" and st: "to_blocked (exec_status (thr W)) = BlockedInNative"
    using assms(1,3) by (auto simp: world_inv_def state_at_def to_blocked_def)
  have "\<exists>x t. r = Returned (x, t)"
    using request(3) [unfolded block_unchecked_free [OF f assms(2)]] st by auto
  then show ?thesis using request(1) by auto
qed (use assms(4) in auto)

section \<open>Properties\<close>

text \<open>
  C8: a thread that uses the table from managed code can deadlock with the collector. From every
  start of the mutator a state is reachable in which the collector, holding the table, waits for the
  mutator to block, while the mutator waits for the table; and this never changes.
\<close>

theorem table_lock_deadlocks:
  assumes "started (t :: 'b thread)" and "me \<noteq> 0" and "gc \<noteq> 0" and "me \<noteq> gc"
  shows "\<exists>S :: 'b table_world. table_reachable Xs me gc S \<and>
    (\<forall>S'. (table_step Xs me gc)\<^sup>*\<^sup>* S S' \<longrightarrow>
       in_round S' \<and> gc_at (tw S') = GcWaiting (1, gc) \<and> mutator_at (tw S') = Running \<and> table_wait S' = ManagedTableWait)"
proof -
  let ?W = "\<lparr> thr = t, mutator_at = Running, gc_at = GcIdle, gc_stopped = False \<rparr>"
  let ?S0 = "\<lparr> tw = ?W, table = mon_new, in_round = False, table_wait = NoTableWait \<rparr>"
  let ?M = "\<lparr> mutex = Some gc, rec_count = 1, holder = gc, cvar = [] \<rparr>"
  let ?S1 = "?S0 \<lparr> table := ?M, in_round := True \<rparr>"
  let ?t = "(requested_thread t) \<lparr> monitor := freed [gc] \<rparr>"
  let ?W2 = "?W \<lparr> thr := ?t, gc_at := GcWaiting (1, gc) \<rparr>"
  let ?S3 = "?S1 \<lparr> tw := ?W2, table_wait := ManagedTableWait \<rparr>"
  have f: "mon_free (monitor t)" "exec_status t = InManaged" "\<not> is_blocked_for_gc t" "\<not> is_about_to_terminate t"
    using assms(1) by (simp_all add: started_def mon_free_def mon_new_def)
  have "table_reachable Xs me gc ?S0" using assms(1) by (rule table_initial)
  moreover have "table_step Xs me gc ?S0 ?S1"
    using assms(3) by (intro round_begin) (simp_all add: lock_no_handshake_def mutex_lock_def mon_new_def)
  ultimately have r1: "table_reachable Xs me gc ?S1" by (rule table_next)
  have "block_unchecked GCBlockAdapter gc False t = Some (Parked (1, gc) (InManagedToBlock, ?t))"
    using f by (simp add: block_unchecked_free [OF f(1) assms(3)] to_blocked_def)
  then have "collector_step gc ?W (after_block False (Parked (1, gc) (InManagedToBlock, ?t)) ?W)"
    by (intro request) simp_all
  then have "table_step Xs me gc ?S1 (?S1 \<lparr> tw := ?W2 \<rparr>)" by (intro collector) simp_all
  with r1 have r2: "table_reachable Xs me gc (?S1 \<lparr> tw := ?W2 \<rparr>)" by (rule table_next)
  have "table_step Xs me gc (?S1 \<lparr> tw := ?W2 \<rparr>) ((?S1 \<lparr> tw := ?W2 \<rparr>) \<lparr> table_wait := ManagedTableWait \<rparr>)"
    by (intro ask_managed) simp_all
  with r2 have r3: "table_reachable Xs me gc ?S3" using table_next by fastforce
  have "deadlocked me gc ?S3"
    using f by (simp add: deadlocked_def requested_thread_def)
  then show ?thesis
    using r3 deadlocked_forever [OF assms(4)] unfolding deadlocked_def by blast
qed

theorem table_lock_deadlocks_witness:
  "\<exists>S :: unit table_world. table_reachable [GCBlockAdapter] 1 2 S \<and>
    (\<forall>S'. (table_step [GCBlockAdapter] 1 2)\<^sup>*\<^sup>* S S' \<longrightarrow> gc_at (tw S') = GcWaiting (1, 2) \<and> table_wait S' = ManagedTableWait)"
proof -
  have "started example_thread" by (simp add: started_def example_defs)
  then show ?thesis using table_lock_deadlocks [of example_thread 1 2 "[GCBlockAdapter]"] by fastforce
qed

text \<open>
  C9: a thread that waits for the table in a parked scope does not. As long as it waits, no request of
  the collector has to wait for it, so that the round can end, and then the thread gets the table.
\<close>

theorem parked_table_wait_served:
  assumes "gc_list Xs" and "me \<noteq> 0" and "gc \<noteq> 0" and "me \<noteq> gc" and "table_reachable Xs me gc S"
    and "table_wait S = ParkedTableWait" and "gc_at (tw S) = GcIdle"
  shows "(\<forall>W. collector_step gc (tw S) W \<longrightarrow> gc_at W = GcIdle) \<and>
    (\<exists>S'. (table_step Xs me gc)\<^sup>*\<^sup>* S S' \<and> table_wait S' = NoTableWait \<and> tw S' = tw S)"
proof -
  have i: "table_inv me gc S" using assms(1-5) by (rule table_reachable_inv)
  then have w: "world_inv me gc (tw S)" "mutator_at (tw S) = InNativeCode"
    using assms(6) by (simp_all add: table_inv_def)
  have "\<exists>S1. (table_step Xs me gc)\<^sup>*\<^sup>* S S1 \<and> table S1 = mon_new \<and> table_wait S1 = ParkedTableWait \<and> tw S1 = tw S"
  proof (cases "in_round S")
    case True
    let ?S1 = "S \<lparr> table := guard_drop (table S), in_round := False \<rparr>"
    have "table_step Xs me gc S ?S1" using True assms(7) by (rule round_end)
    moreover have "table ?S1 = mon_new" using i True by (simp add: table_inv_def guard_drop_def mon_new_def)
    ultimately show ?thesis using assms(6) by (intro exI [of _ ?S1]) auto
  next
    case False
    then show ?thesis using i assms(6) by (auto simp: table_inv_def)
  qed
  then obtain S1 where S1: "(table_step Xs me gc)\<^sup>*\<^sup>* S S1" "table S1 = mon_new" "table_wait S1 = ParkedTableWait" "tw S1 = tw S"
    by blast
  obtain M where "lock_no_handshake me (table S1) = Some M"
    using S1(2) assms(2) by (simp add: lock_no_handshake_def mutex_lock_def mon_new_def)
  then have "table_step Xs me gc S1 (S1 \<lparr> table := guard_drop M, table_wait := NoTableWait \<rparr>)"
    using S1(3) by (intro use_table) simp_all
  then have "\<exists>S'. (table_step Xs me gc)\<^sup>*\<^sup>* S S' \<and> table_wait S' = NoTableWait \<and> tw S' = tw S"
    using S1(1,4) by (intro exI [of _ "S1 \<lparr> table := guard_drop M, table_wait := NoTableWait \<rparr>"])
      (auto intro: rtranclp.rtrancl_into_rtrancl)
  then show ?thesis using native_request_returns [OF w(1) assms(3) w(2) assms(7)] by blast
qed

theorem parked_table_wait_served_witness:
  "\<exists>S S' :: unit table_world. table_reachable [GCBlockAdapter] 1 2 S \<and> table_wait S = ParkedTableWait \<and>
    (table_step [GCBlockAdapter] 1 2)\<^sup>*\<^sup>* S S' \<and> table_wait S' = NoTableWait"
proof -
  let ?Xs = "[GCBlockAdapter] :: unit block_adapter list"
  let ?W = "\<lparr> thr = example_thread, mutator_at = Running, gc_at = GcIdle, gc_stopped = False \<rparr>"
  let ?S0 = "\<lparr> tw = ?W, table = mon_new, in_round = False, table_wait = NoTableWait \<rparr>"
  let ?t = "example_thread \<lparr> stack_pointer := 8000, exec_status := InNative \<rparr>"
  let ?S1 = "?S0 \<lparr> tw := ?W \<lparr> thr := ?t, mutator_at := InNativeCode \<rparr> \<rparr>"
  have "started example_thread" by (simp add: started_def example_defs)
  then have "table_reachable ?Xs 1 2 ?S0" by (rule table_initial)
  moreover have "world_step ?Xs 1 2 ?W (?W \<lparr> thr := ?t, mutator_at := InNativeCode \<rparr>)"
    by (rule enter_fast [of _ 8000]) (simp_all add: enter_native_managed example_thread_def)
  then have "table_step ?Xs 1 2 ?S0 ?S1" using table_step.mutator [of ?S0 ?Xs 1 2] by simp
  ultimately have "table_reachable ?Xs 1 2 ?S1" by (rule table_next)
  moreover have "table_step ?Xs 1 2 ?S1 (?S1 \<lparr> table_wait := ParkedTableWait \<rparr>)" by (intro ask_parked) simp_all
  ultimately have r: "table_reachable ?Xs 1 2 (?S1 \<lparr> table_wait := ParkedTableWait \<rparr>)" by (rule table_next)
  have "gc_list ?Xs" by (simp add: gc_list_def)
  from parked_table_wait_served [OF this _ _ _ r]
  obtain S' where "(table_step ?Xs 1 2)\<^sup>*\<^sup>* (?S1 \<lparr> table_wait := ParkedTableWait \<rparr>) S'" "table_wait S' = NoTableWait"
    by auto
  then show ?thesis using r by (intro exI [of _ "?S1 \<lparr> table_wait := ParkedTableWait \<rparr>"] exI [of _ S']) simp
qed

text \<open>
  C10: a thread that is started can run during a collection. When \<open>block_all_mutators_for_gc\<close> has
  returned, every thread of the table is stopped; but a thread that was spawned before, and had not
  registered itself yet, then registers and goes on in managed code: it is in the table, takes part
  in collections, and is not stopped.
\<close>

theorem thread_started_in_pause_runs:
  assumes "block_all_mutators_for_gc env gc S0 = Some (ts, S)" and "registry_ok S"
    and "length (reg_threads S) + 1 < 2 ^ 64" and "reg_dying S = []" and "spawned r S"
  shows "(\<forall>q \<in> set (handshake_candidates S). stopped (reg_thread S q)) \<and>
    (\<exists>S'. startoff_begin P Xs me sp r S = Some (Returned S') \<and> r \<in> set (handshake_candidates S') \<and>
      exec_status (reg_thread S' r) = InManaged \<and> \<not> stopped (reg_thread S' r) \<and>
      (\<forall>q. q \<noteq> r \<longrightarrow> reg_thread S' q = reg_thread S q))"
  using block_all_stopped [OF assms(1)] startoff_returns [OF assms(2-5)] by blast

theorem thread_started_in_pause_runs_witness:
  "\<exists>S S'. block_all_mutators_for_gc id 7 empty_registry = Some ([], S) \<and>
     startoff_begin \<lparr> plan_max_non_los = 0, plan_barrier = (), plan_selector = Immix \<rparr> [GCBlockAdapter] 1 8000 0 S =
       Some (Returned S') \<and> \<not> stopped (reg_thread S' 0)"
proof -
  have b: "block_all_mutators_for_gc id 7 empty_registry = Some ([], empty_registry)"
    by (simp add: block_all_mutators_for_gc_def block_rounds.simps [of id 7 empty_registry] handshake_candidates_def process_idle)
  have "spawned 0 empty_registry"
    by (simp add: spawned_def managed_thread_def for_mutator_def new_unchecked_def)
  with thread_started_in_pause_runs [OF b, of 0] show ?thesis using b by fastforce
qed

end
