(* ===== verification/Vmkit_Bytecode.thy ===== *)
theory Vmkit_Bytecode
  imports Vmkit_Prelude
begin

text \<open>
  \<open>vmkit-proc/src/bytecode/\<close>: the fragments of Rust code that describe an operand of a bytecode
  instruction. A stream of tokens is a list of identifiers, punctuation and groups in parentheses; a type
  is the tokens it is written with. The trait \<open>Fits\<close> that the generated code uses is not declared in
  the sources, so that the results here are about the code and not about its run.
\<close>

section \<open>Tokens\<close>

datatype rust_token = TIdent string | TPunct string | TGroup "rust_token list"

section \<open>\<open>fits.rs\<close>\<close>

definition size_ident :: "nat \<Rightarrow> string" where
  "size_ident sz = ''S'' @ show_nat sz"

definition fits_call :: "nat \<Rightarrow> string \<Rightarrow> rust_token list \<Rightarrow> string \<Rightarrow> rust_token list" where
  "fits_call sz name typ method =
     [TIdent ''Fits'', TPunct ''::'', TPunct ''<''] @ typ @
     [TPunct '','', TIdent (size_ident sz), TPunct ''>'', TPunct ''::'', TIdent method, TGroup [TIdent name]]"

definition fits_convert :: "nat \<Rightarrow> string \<Rightarrow> rust_token list \<Rightarrow> rust_token list" where
  "fits_convert sz name typ = fits_call sz name typ ''convert''"

definition fits_check :: "nat \<Rightarrow> string \<Rightarrow> rust_token list \<Rightarrow> rust_token list" where
  "fits_check sz name typ = fits_call sz name typ ''check''"

definition fits_write :: "nat \<Rightarrow> string \<Rightarrow> rust_token list \<Rightarrow> rust_token list" where
  "fits_write sz name typ =
     [TIdent ''generator'', TPunct ''.'', TIdent ''write'', TGroup (fits_convert sz name typ)]"

section \<open>\<open>decl.rs\<close>\<close>

record argument =
  arg_name :: string
  arg_index :: nat
  arg_optional :: bool
  arg_ty :: "rust_token list"

definition argument_new :: "string \<Rightarrow> nat \<Rightarrow> bool \<Rightarrow> rust_token list \<Rightarrow> argument" where
  "argument_new n i opt t = \<lparr> arg_name = n, arg_index = i, arg_optional = opt, arg_ty = t \<rparr>"

definition arg_field :: "argument \<Rightarrow> rust_token list" where
  "arg_field a = [TIdent (arg_name a), TPunct '':''] @ arg_ty a"

definition option_of :: "rust_token list \<Rightarrow> rust_token list" where
  "option_of t = [TIdent ''Option'', TPunct ''<''] @ t @ [TPunct ''>'']"

definition arg_create_param :: "argument \<Rightarrow> rust_token list" where
  "arg_create_param a =
     (if arg_optional a then [TIdent (arg_name a), TPunct '':''] @ option_of (arg_ty a)
      else [TIdent (arg_name a), TPunct '':''] @ arg_ty a)"

definition arg_field_name :: "argument \<Rightarrow> rust_token list" where
  "arg_field_name a = [TIdent (arg_name a)]"

definition arg_fits_check :: "argument \<Rightarrow> nat \<Rightarrow> rust_token list" where
  "arg_fits_check a sz = fits_check sz (arg_name a) (arg_ty a)"

definition arg_fits_write :: "argument \<Rightarrow> nat \<Rightarrow> rust_token list" where
  "arg_fits_write a sz = fits_write sz (arg_name a) (arg_ty a)"

section \<open>Lemmas\<close>

lemma size_ident_inj [simp]: "size_ident m = size_ident n \<longleftrightarrow> m = n"
  by (simp add: size_ident_def show_nat_inj)

lemma fits_call_inj [simp]:
  "fits_call s n t f = fits_call s' n' t' f' \<longleftrightarrow> s = s' \<and> n = n' \<and> t = t' \<and> f = f'"
  by (auto simp: fits_call_def)

text \<open>
  The code that checks or writes an operand determines the operand's size, name and type: two operands
  share it exactly if they agree in these; and no check is a write.
\<close>

theorem operand_code_exact:
  shows "arg_fits_write a s = arg_fits_write b r \<longleftrightarrow> s = r \<and> arg_name a = arg_name b \<and> arg_ty a = arg_ty b"
    and "arg_fits_check a s = arg_fits_check b r \<longleftrightarrow> s = r \<and> arg_name a = arg_name b \<and> arg_ty a = arg_ty b"
    and "arg_fits_check a s \<noteq> arg_fits_write b r"
  by (auto simp: arg_fits_write_def arg_fits_check_def fits_write_def fits_check_def fits_convert_def)
    (simp add: fits_call_def)

text \<open>
  The parameter of the constructor determines the name and the type it takes. An optional operand and
  one whose type is an \<open>Option\<close> are not told apart there, but in the field of the instruction.
\<close>

theorem parameter_exact:
  "arg_create_param a = arg_create_param b \<longleftrightarrow> arg_name a = arg_name b \<and>
     (if arg_optional a then option_of (arg_ty a) else arg_ty a) =
     (if arg_optional b then option_of (arg_ty b) else arg_ty b)"
  by (auto simp: arg_create_param_def)

lemma option_of_inj [simp]: "option_of t = option_of u \<longleftrightarrow> t = u"
  by (simp add: option_of_def)

lemma optional_parameters_exact:
  assumes "arg_optional a = arg_optional b"
  shows "arg_create_param a = arg_create_param b \<longleftrightarrow> arg_field a = arg_field b"
  using assms by (auto simp: parameter_exact arg_field_def split: if_splits)

lemma optional_operand_ambiguous:
  "arg_create_param (argument_new n i True t) = arg_create_param (argument_new n j False (option_of t))"
  "arg_field (argument_new n i True t) \<noteq> arg_field (argument_new n j False (option_of t))"
proof -
  have "length t \<noteq> length (option_of t)" by (simp add: option_of_def)
  then show "arg_field (argument_new n i True t) \<noteq> arg_field (argument_new n j False (option_of t))"
    by (auto simp: arg_field_def argument_new_def)
qed (simp add: arg_create_param_def argument_new_def)

end
