(* ===== verification/Vmkit_Handshake.thy ===== *)
theory Vmkit_Handshake
  imports Vmkit_ThreadManager
begin

text \<open>
  Soft handshakes (\<open>threading.rs\<close>): a visitor makes a request of every thread of the table that is not a
  collector thread. A thread in native code is served by the visitor on its behalf; for a thread in managed
  code the caller waits until the thread has acknowledged the request.
\<close>

section \<open>Soft handshakes\<close>

text \<open>
  The trait \<open>SoftHandshakeVisitor\<close>: \<open>check_and_signal\<close> and \<open>notify_stuck_in_native\<close> may change the thread
  they are called for. A closure is a visitor that includes every thread and does nothing for a thread in native
  code. The monitor of a thread that is not signalled is released at the end of the round only.
\<close>

record 'b handshake_visitor =
  check_and_signal :: "'b thread \<Rightarrow> bool \<times> 'b thread"
  notify_stuck_in_native :: "'b thread \<Rightarrow> 'b thread"
  include_thread :: "'b thread \<Rightarrow> bool"

definition default_notify_stuck_in_native :: "'b thread \<Rightarrow> 'b thread" where
  "default_notify_stuck_in_native t = t"

definition default_include_thread :: "'b thread \<Rightarrow> bool" where
  "default_include_thread t = True"

definition closure_visitor :: "('b thread \<Rightarrow> bool \<times> 'b thread) \<Rightarrow> 'b handshake_visitor" where
  "closure_visitor f = \<lparr> check_and_signal = f, notify_stuck_in_native = default_notify_stuck_in_native,
     include_thread = default_include_thread \<rparr>"

lemma closure_visitor_simps [simp]:
  "check_and_signal (closure_visitor f) = f" "notify_stuck_in_native (closure_visitor f) t = t"
  "include_thread (closure_visitor f) t"
  by (simp_all add: closure_visitor_def default_notify_stuck_in_native_def default_include_thread_def)

definition snapshot_handshake_threads :: "'b handshake_visitor \<Rightarrow> 'b registry \<Rightarrow> nat \<times> 'b registry" where
  "snapshot_handshake_threads visitor S =
     (let ts = filter (\<lambda>r. \<not> has_collector_context (reg_thread S r) \<and> include_thread visitor (reg_thread S r))
          (live_threads S)
      in (length ts, S \<lparr> handshake_threads := handshake_threads S @ ts \<rparr>))"

definition handshake_request ::
  "'b handshake_visitor \<Rightarrow> slot \<Rightarrow> 'b thread \<Rightarrow> (bool \<times> bool \<times> 'b thread) option" where
  "handshake_request visitor me t = do {
     t \<leftarrow> thread_lock me t;
     let (signalled, t) = (if is_about_to_terminate t then (False, t) else check_and_signal visitor t);
     if \<not> signalled then Some (False, False, t)
     else (let t = snd (set_blocked_exec_status t)
           in if is_in_managed t
              then Some (True, True, thread_unlock (t \<lparr> soft_handshake_requested := True, take_yieldpoint := 1 \<rparr>))
              else Some (True, False, thread_unlock (notify_stuck_in_native visitor t)))
   }"

partial_function (option) wait_handshake ::
  "('b registry \<Rightarrow> 'b registry) \<Rightarrow> 'b registry \<Rightarrow> 'b registry option" where
  "wait_handshake env S =
     (if soft_handshake_left S > 0 then wait_handshake env (env S) else Some S)"

fun handshake_each ::
  "('b registry \<Rightarrow> 'b registry) \<Rightarrow> 'b handshake_visitor \<Rightarrow> slot \<Rightarrow> thread_ref list
     \<Rightarrow> 'b registry \<Rightarrow> 'b registry option" where
  "handshake_each env visitor me [] S = Some S"
| "handshake_each env visitor me (r # rs) S = do {
     (signalled, wait, t) \<leftarrow> handshake_request visitor me (reg_thread S r);
     let S = set_thread r t S;
     let S = (if wait then S \<lparr> soft_handshake_left := soft_handshake_left S + 1 \<rparr> else S);
     S \<leftarrow> wait_handshake env S;
     S \<leftarrow> process_about_to_terminate S;
     let S = (if signalled then S else set_thread r (thread_unlock (reg_thread S r)) S);
     handshake_each env visitor me rs S
   }"

definition soft_handshake ::
  "('b registry \<Rightarrow> 'b registry) \<Rightarrow> 'b handshake_visitor \<Rightarrow> slot \<Rightarrow> 'b registry \<Rightarrow> 'b registry option" where
  "soft_handshake env visitor me S =
     (let (n, S) = snapshot_handshake_threads visitor S;
          ts = take n (handshake_threads S)
      in handshake_each env visitor me ts (S \<lparr> handshake_threads := drop n (handshake_threads S) \<rparr>))"

section \<open>Threads in managed code\<close>

lemma wait_handshake_positive:
  assumes "wait_handshake env S = Some S'" and "\<forall>S. soft_handshake_left S \<le> soft_handshake_left (env S)"
  shows "soft_handshake_left S = 0"
proof -
  let ?P = "\<lambda>env S (S' :: 'a registry). (\<forall>S. soft_handshake_left S \<le> soft_handshake_left (env S)) \<longrightarrow>
    soft_handshake_left (S :: 'a registry) = 0"
  have "?P env S S'"
    by (rule wait_handshake.raw_induct [where P = ?P, OF _ assms(1)])
      (auto split: if_splits simp: word_gt_0; metis word_le_0_iff)
  then show ?thesis using assms(2) by blast
qed

text \<open>
  A soft handshake with a thread in managed code never ends. It counts the thread in
  \<open>soft_handshake_left\<close> and waits for the count to go down, but nothing decrements it: not the
  thread at its yieldpoint either, which changes only its own state.
\<close>

theorem soft_handshake_never_returns:
  assumes "\<forall>S. soft_handshake_left S \<le> soft_handshake_left (env S)" and "soft_handshake_left S = 0"
    and "live_threads S = r # rs" and "\<not> has_collector_context (reg_thread S r)" and "handshake_threads S = []"
    and "mon_free (monitor (reg_thread S r))" and "me \<noteq> 0" and "\<not> is_about_to_terminate (reg_thread S r)"
    and "exec_status (reg_thread S r) = InManaged" and "\<not> is_blocking (reg_thread S r)"
  shows "soft_handshake env (closure_visitor (\<lambda>t. (True, t))) me S = None"
proof -
  let ?S = "S \<lparr> handshake_threads := [] \<rparr>"
  have "\<exists>t. handshake_request (closure_visitor (\<lambda>t. (True, t))) me (reg_thread S r) = Some (True, True, t)"
    using assms(6-10)
    by (simp add: handshake_request_def lock_free set_blocked_eq is_in_managed_def to_blocked_def Let_def)
  then obtain t where t: "handshake_request (closure_visitor (\<lambda>t. (True, t))) me (reg_thread S r) = Some (True, True, t)" by blast
  have "wait_handshake env T = None" if "soft_handshake_left T = 1" for T
    using wait_handshake_positive [OF _ assms(1), of T] that by (cases "wait_handshake env T") auto
  then show ?thesis
    using assms(2-5) t
    by (simp add: soft_handshake_def snapshot_handshake_threads_def live_threads_def Let_def)
qed

theorem soft_handshake_never_returns_witness:
  "soft_handshake id (closure_visitor (\<lambda>t. (True, t))) 7 (register_thread 0 empty_registry) = None"
proof (rule soft_handshake_never_returns)
  have r: "register_thread 0 empty_registry =
      set_thread 0 (managed_thread \<lparr> index_in_manager := 0 \<rparr>) (empty_registry \<lparr> reg_threads := [Some 0] \<rparr>)"
    by (simp add: register_thread_def set_thread_def Let_def empty_registry_def registry_new_def)
  show "live_threads (register_thread 0 empty_registry) = 0 # []"
    unfolding r by (simp add: live_threads_def List.map_filter_def)
  show "soft_handshake_left (register_thread 0 empty_registry) = 0" "handshake_threads (register_thread 0 empty_registry) = []"
    unfolding r by (simp_all add: set_thread_def empty_registry_def registry_new_def)
  show "\<not> has_collector_context (reg_thread (register_thread 0 empty_registry) 0)"
    "\<not> is_blocking (reg_thread (register_thread 0 empty_registry) 0)"
    unfolding r by (simp_all add: managed_thread_def for_mutator_def new_unchecked_def)
qed (simp_all add: register_thread_def Let_def)

section \<open>Threads in native code\<close>

text \<open>What the handshake makes of a thread in native code, with its monitor taken and released again.\<close>

definition native_answer :: "'b handshake_visitor \<Rightarrow> slot \<Rightarrow> 'b thread \<Rightarrow> 'b thread" where
  "native_answer V me t =
     (let held = t \<lparr> monitor := mon_held me 1 (cvar (monitor t)) \<rparr>;
          (signalled, u) = (if is_about_to_terminate t then (False, held) else check_and_signal V held)
      in thread_unlock (if signalled then notify_stuck_in_native V (u \<lparr> exec_status := BlockedInNative \<rparr>) else u))"

definition in_native :: "'b thread \<Rightarrow> bool" where
  "in_native t \<longleftrightarrow> exec_status t = InNative \<or> exec_status t = BlockedInNative"

lemma native_request:
  assumes "in_native t" and "mon_free (monitor t)" and "me \<noteq> 0"
    and "\<And>u. exec_status (snd (check_and_signal V u)) = exec_status u"
  obtains s u where "handshake_request V me t = Some (s, False, u)"
    and "native_answer V me t = (if s then u else thread_unlock u)"
proof (cases "is_about_to_terminate t")
  case True
  then show ?thesis using that assms(2,3) by (simp add: handshake_request_def lock_free native_answer_def)
next
  case False
  let ?h = "t \<lparr> monitor := mon_held me 1 (cvar (monitor t)) \<rparr>"
  obtain s u where c: "check_and_signal V ?h = (s, u)" by (cases "check_and_signal V ?h")
  have e: "exec_status u = exec_status t" using assms(4) [of ?h] c by simp
  have b: "to_blocked (exec_status u) = BlockedInNative" using assms(1) e by (auto simp: in_native_def to_blocked_def)
  show ?thesis
    by (rule that [of s "if s then thread_unlock (notify_stuck_in_native V (u \<lparr> exec_status := BlockedInNative \<rparr>)) else u"])
      (use False assms(2,3) c b in
        \<open>simp_all add: handshake_request_def native_answer_def lock_free set_blocked_eq is_in_managed_def Let_def\<close>)
qed

lemma handshake_each_native:
  assumes "\<forall>r \<in> set rs. in_native (reg_thread S r) \<and> mon_free (monitor (reg_thread S r))" and "distinct rs"
    and "me \<noteq> 0" and "\<And>u. exec_status (snd (check_and_signal V u)) = exec_status u"
    and "soft_handshake_left S = 0" and "reg_dying S = []"
  shows "handshake_each env V me rs S =
    Some (S \<lparr> reg_thread := \<lambda>r. if r \<in> set rs then native_answer V me (reg_thread S r) else reg_thread S r \<rparr>)"
  using assms(1,2,5,6)
proof (induction rs arbitrary: S)
  case (Cons r rs)
  obtain s u where u: "handshake_request V me (reg_thread S r) = Some (s, False, u)"
      "native_answer V me (reg_thread S r) = (if s then u else thread_unlock u)"
    using native_request [of "reg_thread S r" me V] Cons.prems(1) assms(3,4) by auto
  let ?S = "set_thread r (native_answer V me (reg_thread S r)) S"
  have left: "wait_handshake env T = Some T" if "soft_handshake_left T = 0" for T
    using that by (subst wait_handshake.simps) simp
  have "handshake_each env V me (r # rs) S = handshake_each env V me rs ?S"
    using u Cons.prems(3,4) by (simp add: left process_idle set_thread_def Let_def)
  also have "\<dots> = Some (?S \<lparr> reg_thread := \<lambda>q. if q \<in> set rs then native_answer V me (reg_thread ?S q) else reg_thread ?S q \<rparr>)"
    using Cons.prems by (intro Cons.IH) auto
  also have "\<dots> = Some (S \<lparr> reg_thread := \<lambda>q. if q \<in> set (r # rs) then native_answer V me (reg_thread S q) else reg_thread S q \<rparr>)"
    using Cons.prems(2) by (auto simp: set_thread_def fun_eq_iff intro!: arg_cong [where f = "\<lambda>f. S \<lparr> reg_thread := f \<rparr>"])
  finally show ?case .
qed simp

lemma live_threads_distinct: "registry_ok S \<Longrightarrow> distinct (live_threads S)"
proof -
  assume ok: "registry_ok S"
  have "distinct (List.map_filter (\<lambda>x. x) xs)" if "\<And>i j r. i < length xs \<Longrightarrow> j < length xs \<Longrightarrow> xs ! i = Some r \<Longrightarrow> xs ! j = Some r \<Longrightarrow> i = j"
    for xs :: "thread_ref option list"
    using that
  proof (induction xs)
    case (Cons x xs)
    have "i = j" if "i < length xs" "j < length xs" "xs ! i = Some r" "xs ! j = Some r" for i j r
      using Cons.prems [of "Suc i" "Suc j" r] that by simp
    moreover have "Some r \<notin> set xs" if "x = Some r" for r
      using Cons.prems [of 0 "Suc _" r] that by (auto simp: in_set_conv_nth)
    ultimately show ?case using Cons.IH by (force simp: List.map_filter_def split: option.splits)
  qed (simp add: List.map_filter_def)
  moreover have "i = j" if "i < length (reg_threads S)" "j < length (reg_threads S)"
    "reg_threads S ! i = Some r" "reg_threads S ! j = Some r" for i j r
    using registry_index [OF ok] that by metis
  ultimately show ?thesis by (simp add: live_threads_def)
qed



end
