(* ===== verification/Vmkit_Glue.thy ===== *)
theory Vmkit_Glue
  imports Vmkit_Collection Vmkit_BdwgcApi
begin

text \<open>
  The code at the edges of the library: hooks of mmtk that do little (\<open>mm/collection.rs\<close>), the conversions between the references of the library and those of mmtk
  (\<open>object_model/object.rs\<close>), what the active plan answers about one thread (\<open>mm/active_plan.rs\<close>,
  \<open>threading.rs\<close>), and the hooks around a fork of the process (\<open>bdwgc_shim.rs\<close>).
\<close>

section \<open>References of mmtk\<close>

text \<open>
  mmtk's \<open>ObjectReference\<close> is never null; the conversions back are \<^const>\<open>obj_try_into\<close> and, for an optional
  reference, \<^const>\<open>from_objref_nullable\<close>.
\<close>

definition obj_from_reference :: "address \<Rightarrow> vmkit_object" where
  "obj_from_reference value = value"

definition obj_into_option :: "vmkit_object \<Rightarrow> address option" where
  "obj_into_option obj = obj_try_into obj"

lemma obj_into_option_iff:
  "obj_into_option obj = None \<longleftrightarrow> obj_is_null obj"
  "obj_into_option obj = Some r \<longleftrightarrow> obj = r \<and> r \<noteq> 0"
  by (auto simp: obj_into_option_def obj_try_into_def obj_is_null_def)

text \<open>
  Optional references of mmtk and references of the library, which may be null, correspond one to one.
\<close>

theorem objref_round_trip:
  shows "from_objref_nullable (obj_into_option obj) = obj"
    and "(\<forall>r. o' = Some r \<longrightarrow> r \<noteq> 0) \<Longrightarrow> obj_into_option (from_objref_nullable o') = o'"
    and "r \<noteq> 0 \<Longrightarrow> obj_try_into (obj_from_reference r) = Some r"
  by (auto simp: obj_into_option_def obj_try_into_def from_objref_nullable_def obj_from_reference_def split: option.splits)

theorem objref_round_trip_witness:
  "obj_into_option (from_objref_nullable (Some 4096)) = Some 4096 \<and> obj_try_into (obj_from_reference 4096) = Some 4096"
  using objref_round_trip(2) [of "Some 4096"] objref_round_trip(3) [of 4096] by simp

section \<open>The active plan\<close>

text \<open>mmtk's handle of a thread is the thread itself, and its mutator lives in the thread.\<close>

definition to_vm_thread :: "thread_ref \<Rightarrow> thread_ref" where
  "to_vm_thread r = r"

definition from_vm_thread :: "thread_ref \<Rightarrow> thread_ref" where
  "from_vm_thread tls = tls"

definition plan_mutator :: "'b registry \<Rightarrow> thread_ref \<Rightarrow> 'b thread" where
  "plan_mutator S tls = reg_thread S (from_vm_thread tls)"

text \<open>\<open>vm_trace_object\<close> of the active plan is \<open>todo!()\<close>; the hook of the virtual machine is not called.\<close>

definition plan_vm_trace_object :: "'q \<Rightarrow> address \<Rightarrow> (address \<times> 'q) option" where
  "plan_vm_trace_object Q obj = None"

text \<open>The threads the plan enumerates are those of the table it takes for mutators.\<close>

lemma mutators_are_mutators:
  "tls \<in> set (mutators S) \<longleftrightarrow> tls \<in> set (live_threads S) \<and> is_mutator S (from_vm_thread (to_vm_thread tls))"
  "number_of_mutators S = length (mutators S)"
  by (auto simp: mutators_def number_of_mutators_def is_mutator_def from_vm_thread_def to_vm_thread_def)

text \<open>A thread that ignores handshakes and collections is not among those that a collection stops.\<close>

definition set_ignore_handshakes_and_gc :: "bool \<Rightarrow> 'b thread \<Rightarrow> 'b thread" where
  "set_ignore_handshakes_and_gc ignore t = t \<lparr> ignore_handshakes_and_gc := ignore \<rparr>"

lemma ignoring_thread_not_stopped:
  "r \<notin> set (handshake_candidates (set_thread r (set_ignore_handshakes_and_gc True (reg_thread S r)) S))"
  by (simp add: handshake_candidates_def set_ignore_handshakes_and_gc_def)

section \<open>Hooks of a collection\<close>

text \<open>
  What the interface delegates to the virtual machine is an argument; \<open>create_gc_trigger\<close> and
  \<open>out_of_memory\<close> are \<open>todo!()\<close>, and \<open>schedule_finalization\<close> does nothing.
\<close>

definition coll_create_gc_trigger :: "'p option" where
  "coll_create_gc_trigger = None"

definition coll_out_of_memory :: "thread_ref \<Rightarrow> 'e \<Rightarrow> 'w \<Rightarrow> 'w option" where
  "coll_out_of_memory tls err_kind W = None"

definition coll_post_forwarding :: "(thread_ref \<Rightarrow> 'w \<Rightarrow> 'w) \<Rightarrow> thread_ref \<Rightarrow> 'w \<Rightarrow> 'w" where
  "coll_post_forwarding vm_post_forwarding tls W = vm_post_forwarding tls W"

definition coll_schedule_finalization :: "thread_ref \<Rightarrow> 'w \<Rightarrow> 'w" where
  "coll_schedule_finalization tls W = W"

definition coll_vm_live_bytes :: "usize \<Rightarrow> usize" where
  "coll_vm_live_bytes vm_live = vm_live"

section \<open>Forking\<close>

text \<open>
  \<open>prepare_to_fork\<close> and \<open>after_fork\<close> are mmtk's; \<open>after_fork\<close> is given the handle of the thread that
  forks. The outcome \<^const>\<open>None\<close>: the thread is not registered.
\<close>

definition GC_atfork_prepare :: "('k \<Rightarrow> 'k) \<Rightarrow> 'k \<Rightarrow> 'k" where
  "GC_atfork_prepare prepare_to_fork K = prepare_to_fork K"

definition GC_atfork_parent :: "(thread_ref \<Rightarrow> 'k \<Rightarrow> 'k) \<Rightarrow> slot \<Rightarrow> current_threads \<Rightarrow> 'k \<Rightarrow> 'k option" where
  "GC_atfork_parent after_fork me C K = do {
     thread \<leftarrow> current_thread me C;
     Some (after_fork (to_vm_thread thread) K)
   }"

definition GC_atfork_child :: "(thread_ref \<Rightarrow> 'k \<Rightarrow> 'k) \<Rightarrow> slot \<Rightarrow> current_threads \<Rightarrow> 'k \<Rightarrow> 'k option" where
  "GC_atfork_child after_fork me C K = do {
     thread \<leftarrow> current_thread me C;
     Some (after_fork (to_vm_thread thread) K)
   }"

text \<open>A registered thread can fork: both processes then call \<open>after_fork\<close> with its handle.\<close>

lemma fork_of_registered_thread:
  assumes "C' = init_current_thread me r C"
  shows "GC_atfork_parent f me C' (GC_atfork_prepare p K) = Some (f r (p K))"
    and "GC_atfork_child f me C' (GC_atfork_prepare p K) = Some (f r (p K))"
  using assms by (simp_all add: GC_atfork_parent_def GC_atfork_child_def GC_atfork_prepare_def current_thread_def
      init_current_thread_def to_vm_thread_def)

end
