(* ===== verification/Vmkit_Requests.thy ===== *)
theory Vmkit_Requests
  imports Vmkit_StopWorld
begin

text \<open>
  What becomes of a request of the collector: as long as it is not acknowledged, either the flag
  \<open>take_yieldpoint\<close> makes the next yieldpoint taken, or a deferred yieldpoint is noted. So no
  interleaving loses a request, except that a runtime changes the flag with
  \<open>set_take_yieldpoint\<close> (\<open>threading.rs\<close>).
\<close>

section \<open>Requests are kept\<close>

definition request_noted :: "'b thread \<Rightarrow> bool" where
  "request_noted t \<longleftrightarrow> (should_block_for_gc t \<longrightarrow> is_about_to_terminate t \<or> take_yieldpoint t \<noteq> 0 \<or> yieldpoint_request_pending t)"

lemma request_noted_parked [simp]: "request_noted (parked_thread me t)"
  by (simp add: request_noted_def parked_thread_def)

lemma request_noted_requested [simp]: "request_noted (requested_thread t)"
  by (simp add: request_noted_def requested_thread_def)

lemma request_noted_resumed [simp]: "request_noted (resumed_thread t) = request_noted t"
  by (simp add: request_noted_def resumed_thread_def)

lemma request_noted_frame [simp]:
  "request_noted (t \<lparr> monitor := M \<rparr>) = request_noted t" "request_noted (t \<lparr> at_yieldpoint := b \<rparr>) = request_noted t"
  "request_noted (t \<lparr> stack_pointer := sp \<rparr>) = request_noted t" "request_noted (t \<lparr> exec_status := e \<rparr>) = request_noted t"
  "request_noted (t \<lparr> is_blocked_for_gc := b \<rparr>) = request_noted t" "request_noted (t \<lparr> should_block_for_gc := False \<rparr>)"
  "request_noted (t \<lparr> is_blocking := b \<rparr>) = request_noted t"
  by (simp_all add: request_noted_def)

lemma after_check_noted:
  "request_noted (thr (after_check c r W)) \<longleftrightarrow> (case r of Returned t \<Rightarrow> request_noted t | Parked s t \<Rightarrow> request_noted t)"
  by (cases r) simp_all

lemma wake_noted:
  assumes "gc_list Xs" and "world_inv me gc W" and "mutator_at W = ParkedIn c s" and "request_noted (thr W)"
    and "(case c of AtYieldpoint \<Rightarrow> yieldpoint_wake Xs me s (thr W) | AtLeaveNative \<Rightarrow> check_block_wake Xs me s (thr W)
          | AtSelfBlock \<Rightarrow> block_self_wake Xs me s (thr W)) = Some r"
  shows "request_noted (thr (after_check c r W))"
proof -
  have f: "mon_free (monitor (thr W))" and b: "is_blocking (thr W)" and s: "s = (if c = AtLeaveNative then 1 else 2, me)"
    using assms(2,3) by (simp_all add: world_inv_def state_at_def)
  have "request_noted (thread_unlock t) = request_noted t" for t :: "'a thread"
    by (simp add: request_noted_def thread_unlock_def)
  then show ?thesis
    using assms(4,5) s
    by (cases c)
      (auto simp: after_check_noted yieldpoint_wake_free [OF assms(1) f b] check_block_wake_free [OF assms(1) f b]
         block_self_wake_free [OF assms(1) f b] split: if_splits)
qed

lemma yieldpoint_noted:
  assumes "gc_list Xs" and "mon_free (monitor t)" and "me \<noteq> 0" and "request_noted t" and "yieldpoint Xs me sp t = Some r"
  shows "case r of Returned t' \<Rightarrow> request_noted t' | Parked s t' \<Rightarrow> request_noted t'"
proof -
  note r = assms(5) [unfolded yieldpoint_free [OF assms(1-3)] option.inject, symmetric]
  show ?thesis unfolding r using assms(4) by (simp add: request_noted_def wants_block_def parked_thread_def)
qed

lemma world_step_noted:
  assumes "gc_list Xs" and "me \<noteq> 0" and "gc \<noteq> 0"
    and "world_step Xs me gc W W'" and "world_inv me gc W" and "request_noted (thr W)"
  shows "request_noted (thr W')"
proof -
  have f: "mon_free (monitor (thr W))" using assms(5) by (simp add: world_inv_def)
  from assms(4) show ?thesis
  proof cases
    case (yield sp r)
    then show ?thesis
      using yieldpoint_noted [OF assms(1) f assms(2,6)] by (simp add: after_check_noted)
  next
    case (yield_wake s r)
    then show ?thesis using wake_noted [OF assms(1,5) _ assms(6), of AtYieldpoint s r] by simp
  next
    case (self_block sp r)
    then show ?thesis
      using block_self_free [OF assms(1) f assms(2), of sp] by (auto simp: after_check_noted)
  next
    case (self_wake s r)
    then show ?thesis using wake_noted [OF assms(1,5) _ assms(6), of AtSelfBlock s r] by simp
  next
    case (enter_fast sp t)
    then show ?thesis using assms(6)
      by (auto simp: enter_native_def attempt_fast_exec_status_transition_def Let_def)
  next
    case (enter_slow t)
    then show ?thesis by (auto simp: enter_native_blocked_free [OF assms(1) f assms(2)] request_noted_def)
  next
    case (leave_fast t)
    then show ?thesis using assms(6)
      by (auto simp: attempt_leave_native_no_block_def attempt_fast_exec_status_transition_def split: if_splits)
  next
    case (leave_load t)
    then show ?thesis using assms(6)
      by (auto simp: attempt_leave_native_no_block_def attempt_fast_exec_status_transition_def split: if_splits)
  next
    case (leave_slow r)
    then show ?thesis using assms(6)
      by (auto simp: after_check_noted leave_native_blocked_def check_block_free [OF assms(1) f assms(2)])
  next
    case (leave_wake s r)
    then show ?thesis using wake_noted [OF assms(1,5) _ assms(6), of AtLeaveNative s r] by simp
  next
    case enable
    then show ?thesis using assms(6) by (auto simp: request_noted_def enable_yieldpoints_def Let_def)
  next
    case disable
    then show ?thesis using assms(6) by (auto simp: request_noted_def disable_yieldpoints_def)
  next
    case (die t)
    then show ?thesis
      by (auto simp: thread_terminate_free [OF f assms(2)] request_noted_def split: if_splits)
  next
    case (gc_block asynchronous r)
    then show ?thesis
      by (auto simp: block_unchecked_free [OF f assms(3)] split: if_splits) (simp add: request_noted_def)
  next
    case (gc_wake s r)
    then have "s = (1, gc)" using assms(5) by (simp add: world_inv_def)
    with gc_wake show ?thesis using assms(6) by (auto simp: block_wake_free [OF f] split: if_splits)
  next
    case (gc_unblock t)
    then show ?thesis by (auto simp: unblock_free [OF f assms(3)] request_noted_def)
  qed (use assms(6) in simp_all)
qed

lemma world_reachable_noted:
  assumes "gc_list Xs" and "me \<noteq> 0" and "gc \<noteq> 0" and "world_reachable Xs me gc W"
  shows "request_noted (thr W)"
  using assms(4)
proof (induction rule: world_reachable.induct)
  case (initial t)
  then show ?case by (simp add: request_noted_def started_def)
next
  case (step W W')
  then show ?case using world_step_noted [OF assms(1-3)] world_reachable_inv [OF assms(1-3)] by blast
qed

section \<open>Properties\<close>

text \<open>
  C3: no request is lost. In every interleaving of the mutator's safepoints with the requests of the
  collector, a mutator that has an unacknowledged request and does not terminate takes its next
  yieldpoint or has a deferred yieldpoint noted.
\<close>

theorem pending_request_is_noted:
  assumes "gc_list Xs" and "me \<noteq> 0" and "gc \<noteq> 0" and "world_reachable Xs me gc W"
    and "should_block_for_gc (thr W)" and "\<not> is_about_to_terminate (thr W)"
  shows "take_yieldpoint (thr W) \<noteq> 0 \<or> yieldpoint_request_pending (thr W)"
  using world_reachable_noted [OF assms(1-4)] assms(5,6) by (simp add: request_noted_def)

theorem pending_request_is_noted_witness:
  "should_block_for_gc (thr example_world) \<and>
     (0 < take_yieldpoint (thr example_world) \<or> yieldpoint_request_pending (thr example_world))"
proof -
  have "should_block_for_gc (thr example_world)" "\<not> is_about_to_terminate (thr example_world)"
    by (simp_all add: example_world_def example_defs)
  then show ?thesis using pending_request_is_noted [OF example_gc_list _ _ example_reachable] by (simp add: word_gt_0)
qed



section \<open>Changing the flag\<close>

definition set_take_yieldpoint :: "i32 \<Rightarrow> 'b thread \<Rightarrow> 'b thread" where
  "set_take_yieldpoint v t = t \<lparr> take_yieldpoint := v \<rparr>"

text \<open>Yieldpoints one after the other, until one parks the thread.\<close>

fun yieldpoints :: "nat \<Rightarrow> 'b block_adapter list \<Rightarrow> slot \<Rightarrow> address \<Rightarrow> 'b thread \<Rightarrow> 'b thread blocking option" where
  "yieldpoints 0 Xs me sp t = Some (Returned t)"
| "yieldpoints (Suc n) Xs me sp t =
     (case yieldpoint Xs me sp t of
        Some (Returned t') \<Rightarrow> yieldpoints n Xs me sp t'
      | r \<Rightarrow> r)"

text \<open>A yieldpoint that is taken without a request leaves the thread running.\<close>

lemma spurious_yieldpoint:
  assumes "gc_list Xs" and "mon_free (monitor t)" and "me \<noteq> 0" and "yieldpoints_enabled t"
    and "\<not> should_block_for_gc t" and "\<not> is_blocked_for_gc t" and "v \<noteq> 0"
  shows "yieldpoint Xs me sp (set_take_yieldpoint v t) =
    Some (Returned (resumed_thread (t \<lparr> at_yieldpoint := False, take_yieldpoint := 0, stack_pointer := sp \<rparr>)))"
  using assms yieldpoint_free [OF assms(1) _ assms(3), of "set_take_yieldpoint v t" sp]
  by (cases t) (simp add: set_take_yieldpoint_def wants_block_def yieldpoints_enabled_def resumed_thread_def)

text \<open>
  The comment on \<open>set_take_yieldpoint\<close> says that it is always safe to change the flag to any value. It is
  not: cleared while a request is pending, no number of yieldpoints serves the request.
\<close>

theorem cleared_flag_starves_request:
  assumes "gc_list Xs" and "mon_free (monitor t)" and "me \<noteq> 0" and "yieldpoints_enabled t" and "should_block_for_gc t"
  shows "\<exists>t'. yieldpoints n Xs me sp (set_take_yieldpoint 0 t) = Some (Returned t') \<and>
    should_block_for_gc t' \<and> is_blocked_for_gc t' = is_blocked_for_gc t \<and> take_yieldpoint t' = 0"
proof -
  have "\<exists>t'. yieldpoints n Xs me sp u = Some (Returned t') \<and>
      should_block_for_gc t' \<and> is_blocked_for_gc t' = is_blocked_for_gc u \<and> take_yieldpoint t' = 0"
    if "mon_free (monitor u)" "yieldpoints_enabled u" "should_block_for_gc u" "take_yieldpoint u = 0" for u
    using that
  proof (induction n arbitrary: u)
    case (Suc n)
    let ?u = "u \<lparr> at_yieldpoint := False, monitor := freed (cvar (monitor u)) \<rparr>"
    have "\<exists>t'. yieldpoints n Xs me sp ?u = Some (Returned t') \<and>
        should_block_for_gc t' \<and> is_blocked_for_gc t' = is_blocked_for_gc ?u \<and> take_yieldpoint t' = 0"
      using Suc.prems by (intro Suc.IH) (simp_all add: yieldpoints_enabled_def)
    then show ?case using Suc.prems yieldpoint_free [OF assms(1) _ assms(3), of u sp] by simp
  qed simp
  from this [of "set_take_yieldpoint 0 t"] show ?thesis
    using assms(2,4,5) by (simp add: set_take_yieldpoint_def yieldpoints_enabled_def)
qed

theorem cleared_flag_starves_request_witness:
  "\<exists>t'. yieldpoints 1000 [GCBlockAdapter, UnitBlockAdapter] 1 4096 (set_take_yieldpoint 0 (thr example_world)) = Some (Returned t') \<and>
     should_block_for_gc t'"
proof -
  have "mon_free (monitor (thr example_world))" "should_block_for_gc (thr example_world)"
    by (simp_all add: example_world_def mon_free_def)
  then show ?thesis
    using cleared_flag_starves_request [OF example_gc_list, of "thr example_world" 1 1000 4096] example_running by auto
qed

end
